(* ===== verification/Rust_Prelude.thy ===== *)
theory Rust_Prelude
  imports Main "HOL-Library.Word" "HOL-Library.Sublist"
begin

text \<open>
  The shared layer of the development. It fixes how the Rust code is read into HOL (fixed-width
  integers as words, byte vectors and byte arrays as lists of 8-bit words, \<open>Result\<close> as a sum
  with the error on the left, a panicking function as one that returns \<open>None\<close> of type
  \<open>'a option\<close>), gives the pieces of the Rust standard library that several crates use (big- and
  little-endian integer encodings, \<open>slice::chunks\<close>, wrapping casts, feeding a byte stream to a
  state machine), and states the interfaces the components share as locales: wire codecs,
  stream framers and state machines with an invariant.
\<close>

unbundle bit_operations_syntax

section \<open>Types\<close>

type_synonym u8 = "8 word"
type_synonym u16 = "16 word"
type_synonym u32 = "32 word"
type_synonym u64 = "64 word"
type_synonym bytes = "u8 list"

text \<open>Floating-point values are carried as their 64-bit patterns; the model never computes with
  them. \<open>Instant\<close> and \<open>Duration\<close> are numbers of nanoseconds.\<close>

type_synonym f64 = "64 word"
type_synonym instant = nat
type_synonym duration = nat

abbreviation (input) from_millis :: "nat \<Rightarrow> duration" where "from_millis n \<equiv> n * 1000000"
abbreviation (input) from_secs :: "nat \<Rightarrow> duration" where "from_secs n \<equiv> n * 1000000000"
abbreviation (input) as_millis :: "duration \<Rightarrow> nat" where "as_millis d \<equiv> d div 1000000"
abbreviation (input) as_secs :: "duration \<Rightarrow> nat" where "as_secs d \<equiv> d div 1000000000"

text \<open>The fact collections: length facts of encodings and round trips of encodings.\<close>

named_theorems wire_len \<open>lengths of encoded values\<close>
named_theorems wire_rt \<open>decoding an encoded value\<close>

section \<open>Lists\<close>

text \<open>\<open>data[i..j]\<close> on a slice, for indices the caller has checked to be in range.\<close>

abbreviation slice :: "nat \<Rightarrow> nat \<Rightarrow> 'a list \<Rightarrow> 'a list" where
  "slice i j xs \<equiv> take (j - i) (drop i xs)"

lemma take_append_len: "length xs = n \<Longrightarrow> take n (xs @ ys) = xs"
  by simp

lemma drop_append_len: "length xs = n \<Longrightarrow> drop n (xs @ ys) = ys"
  by simp

lemma list_split_at: "n \<le> length xs \<Longrightarrow> \<exists>ys zs. xs = ys @ zs \<and> length ys = n"
  by (rule exI [of _ "take n xs"], rule exI [of _ "drop n xs"]) simp

lemma take_slice_drop:
  "take n xs @ slice n (n + k) xs @ drop (n + k) xs = xs"
  by (metis add_diff_cancel_left' append_take_drop_id drop_drop add.commute)

lemma drop_split: "drop i xs = take n (drop i xs) @ drop (i + n) xs"
  by (metis append_take_drop_id drop_drop add.commute)

lemma map2_commute:
  "(\<And>x y. f x y = f y x) \<Longrightarrow> map2 f xs ys = map2 f ys xs"
  by (induction xs ys rule: list_induct2') auto

section \<open>Integer encodings\<close>

text \<open>
  \<open>to_be_bytes\<close> and \<open>from_be_bytes\<close> of an n-byte unsigned integer (the latter on a slice of
  exactly n bytes). The value is carried as a natural number; \<open>of_nat\<close> keeps the low 8 bits of
  each digit.
\<close>

fun be_bytes :: "nat \<Rightarrow> nat \<Rightarrow> bytes" where
  "be_bytes 0 v = []"
| "be_bytes (Suc n) v = of_nat (v div 256 ^ n) # be_bytes n v"

fun be_val :: "bytes \<Rightarrow> nat" where
  "be_val [] = 0"
| "be_val (b # bs) = unat b * 256 ^ length bs + be_val bs"

definition le_bytes :: "nat \<Rightarrow> nat \<Rightarrow> bytes" where
  "le_bytes n v = rev (be_bytes n v)"

definition le_val :: "bytes \<Rightarrow> nat" where
  "le_val bs = be_val (rev bs)"

lemma length_be_bytes [simp, wire_len]: "length (be_bytes n v) = n"
  by (induction n) auto

lemma length_le_bytes [simp, wire_len]: "length (le_bytes n v) = n"
  by (simp add: le_bytes_def)

lemma unat_u8_less: "unat (b :: u8) < 256"
  and unat_u16_less: "unat (w :: u16) < 65536"
  and unat_u32_less: "unat (x :: u32) < 4294967296"
  and unat_u64_less: "unat (y :: u64) < 18446744073709551616"
  using unsigned_less [of b, where ?'a = nat] unsigned_less [of w, where ?'a = nat]
    unsigned_less [of x, where ?'a = nat] unsigned_less [of y, where ?'a = nat] by simp_all

lemmas unat_bounds = unat_u8_less unat_u16_less unat_u32_less unat_u64_less

lemma unat_of_nat_u16: "n < 65536 \<Longrightarrow> unat (of_nat n :: u16) = n"
  and unat_of_nat_u32: "n < 4294967296 \<Longrightarrow> unat (of_nat n :: u32) = n"
  by (simp_all only: unat_of_nat) simp_all

lemma be_val_less: "be_val bs < 256 ^ length bs"
proof (induction bs)
  case Nil
  show ?case by simp
next
  case (Cons b bs)
  from Cons have "be_val (b # bs) < Suc (unat b) * 256 ^ length bs" by simp
  also have "\<dots> \<le> 256 * 256 ^ length bs"
    using unat_u8_less [of b] by (intro mult_le_mono1) simp
  finally show ?case by simp
qed

lemma be_val_be_bytes [wire_rt]: "be_val (be_bytes n v) = v mod 256 ^ n"
proof (induction n)
  case 0
  show ?case by simp
next
  case (Suc n)
  have "unat (of_nat (v div 256 ^ n) :: u8) = v div 256 ^ n mod 256"
    by (simp add: unat_of_nat)
  moreover have "v mod 256 ^ Suc n = 256 ^ n * (v div 256 ^ n mod 256) + v mod 256 ^ n"
    using mod_mult2_eq [of v "256 ^ n" 256] by (simp add: mult.commute)
  ultimately show ?case using Suc by (simp add: mult.commute)
qed

lemma u8_of_256: "(of_nat 256 :: u8) = 0"
  by (simp add: word_unat_eq_iff unat_of_nat)

lemma be_bytes_add_multiple: "m \<le> n \<Longrightarrow> be_bytes m (256 ^ n * a + v) = be_bytes m v"
proof (induction m)
  case 0
  show ?case by simp
next
  case (Suc m)
  then obtain k where n: "n = m + Suc k" using less_natE by (metis Suc_le_lessD add_Suc_right)
  have "(256 ^ n * a + v) div 256 ^ m = 256 * (256 ^ k * a) + v div 256 ^ m"
    using div_mult_self2 [of "256 ^ m" v "256 * (256 ^ k * a)"]
    by (simp add: n power_add ac_simps)
  then have "(of_nat ((256 ^ n * a + v) div 256 ^ m) :: u8) = of_nat (v div 256 ^ m)"
    by (simp only: of_nat_add of_nat_mult u8_of_256) simp
  with Suc show ?case by simp
qed

lemma be_bytes_be_val: "be_bytes (length bs) (be_val bs) = bs"
proof (induction bs)
  case Nil
  show ?case by simp
next
  case (Cons b bs)
  have "be_bytes (length bs) (256 ^ length bs * unat b + be_val bs) = bs"
    using Cons be_bytes_add_multiple [of "length bs" "length bs"] by simp
  moreover have "(unat b * 256 ^ length bs + be_val bs) div 256 ^ length bs = unat b"
    using be_val_less [of bs] by simp
  ultimately show ?case by (simp add: mult.commute)
qed

lemma le_val_le_bytes [wire_rt]: "le_val (le_bytes n v) = v mod 256 ^ n"
  by (simp add: le_val_def le_bytes_def be_val_be_bytes)

text \<open>The fixed widths the code uses.\<close>

abbreviation u16_be :: "u16 \<Rightarrow> bytes" where "u16_be w \<equiv> be_bytes 2 (unat w)"
abbreviation u32_be :: "u32 \<Rightarrow> bytes" where "u32_be w \<equiv> be_bytes 4 (unat w)"
abbreviation u64_be :: "u64 \<Rightarrow> bytes" where "u64_be w \<equiv> be_bytes 8 (unat w)"
abbreviation u16_of_be :: "bytes \<Rightarrow> u16" where "u16_of_be bs \<equiv> of_nat (be_val bs)"
abbreviation u32_of_be :: "bytes \<Rightarrow> u32" where "u32_of_be bs \<equiv> of_nat (be_val bs)"
abbreviation u64_of_be :: "bytes \<Rightarrow> u64" where "u64_of_be bs \<equiv> of_nat (be_val bs)"

lemma u16_be_rt [simp, wire_rt]: "u16_of_be (u16_be w) = w"
  and u32_be_rt [simp, wire_rt]: "u32_of_be (u32_be x) = x"
  and u64_be_rt [simp, wire_rt]: "u64_of_be (u64_be y) = y"
  using unat_u16_less [of w] unat_u32_less [of x] unat_u64_less [of y] by (simp_all add: be_val_be_bytes)

lemma u16_be_of_be: "length bs = 2 \<Longrightarrow> u16_be (u16_of_be bs) = bs"
  using be_val_less [of bs] be_bytes_be_val [of bs] by (simp add: unat_of_nat)

lemma u32_be_of_be: "length bs = 4 \<Longrightarrow> u32_be (u32_of_be bs) = bs"
  using be_val_less [of bs] be_bytes_be_val [of bs] by (simp add: unat_of_nat)

lemma u64_be_of_be: "length bs = 8 \<Longrightarrow> u64_be (u64_of_be bs) = bs"
  using be_val_less [of bs] be_bytes_be_val [of bs] by (simp add: unat_of_nat)


section \<open>Bits of bytes\<close>

text \<open>Two bytes are equal when their eight bits are.\<close>

lemma u8_eqI:
  fixes x y :: u8
  assumes "\<And>n. n \<in> {0, 1, 2, 3, 4, 5, 6, 7} \<Longrightarrow> bit x n = bit y n"
  shows "x = y"
proof (rule bit_word_eqI)
  fix n assume "n < LENGTH(8)"
  then have "n \<in> {0, 1, 2, 3, 4, 5, 6, 7}" by auto
  then show "bit x n = bit y n" by (rule assms)
qed

lemma u16_eqI:
  fixes x y :: u16
  assumes "\<And>n. n \<in> {0, 1, 2, 3, 4, 5, 6, 7, 8, 9, 10, 11, 12, 13, 14, 15} \<Longrightarrow> bit x n = bit y n"
  shows "x = y"
proof (rule bit_word_eqI)
  fix n assume "n < LENGTH(16)"
  then have "n \<in> {0, 1, 2, 3, 4, 5, 6, 7, 8, 9, 10, 11, 12, 13, 14, 15}" by simp arith
  then show "bit x n = bit y n" by (rule assms)
qed

section \<open>Numbers in text\<close>

text \<open>The decimal digits \<open>Display\<close> prints for an unsigned integer.\<close>

fun show_nat :: "nat \<Rightarrow> string" where
  "show_nat n = (if n < 10 then [char_of (48 + n)]
     else show_nat (n div 10) @ [char_of (48 + n mod 10)])"

declare show_nat.simps [simp del]

section \<open>Slices in chunks\<close>

text \<open>\<open>slice::chunks(n)\<close>; the code calls it with \<open>n > 0\<close> only (it panics on 0).\<close>

fun chunks :: "nat \<Rightarrow> 'a list \<Rightarrow> 'a list list" where
  "chunks n xs = (if n = 0 \<or> xs = [] then [] else take n xs # chunks n (drop n xs))"

declare chunks.simps [simp del]

lemma chunks_Nil [simp]: "chunks n [] = []"
  by (simp add: chunks.simps)

lemma chunks_step: "0 < n \<Longrightarrow> xs \<noteq> [] \<Longrightarrow> chunks n xs = take n xs # chunks n (drop n xs)"
  by (subst chunks.simps) simp

lemma concat_chunks [simp]: "0 < n \<Longrightarrow> concat (chunks n xs) = xs"
proof (induction n xs rule: chunks.induct)
  case (1 n xs)
  then show ?case by (cases "xs = []") (simp_all add: chunks_step)
qed

lemma length_chunks: "0 < n \<Longrightarrow> length (chunks n xs) = (length xs + n - 1) div n"
proof (induction n xs rule: chunks.induct)
  case (1 n xs)
  show ?case
  proof (cases "xs = []")
    case False
    then have len: "length (chunks n xs) = Suc ((length xs - n + n - 1) div n)"
      using 1 by (simp add: chunks_step)
    show ?thesis
    proof (cases "length xs < n")
      case True
      moreover have "(length xs + n - 1) div n = ((length xs - 1) + n) div n"
        using False by (cases xs) simp_all
      ultimately show ?thesis using len "1.prems" by (simp only: div_add_self2) simp
    next
      case False
      with len "1.prems" show ?thesis by (simp add: le_div_geq)
    qed
  qed (use "1.prems" in simp)
qed

lemma chunks_bounds: "c \<in> set (chunks n xs) \<Longrightarrow> c \<noteq> [] \<and> length c \<le> n"
proof (induction n xs rule: chunks.induct)
  case (1 n xs)
  then show ?case by (cases "n = 0 \<or> xs = []") (auto simp: chunks.simps [of n xs])
qed

section \<open>Interfaces\<close>

text \<open>
  A wire codec: every well-formed value decodes back from its encoding. Injectivity of the
  encoding on well-formed values follows once, for every codec of the program.
\<close>

locale wire_codec =
  fixes enc :: "'a \<Rightarrow> bytes"
    and dec :: "bytes \<Rightarrow> 'e + 'a"
    and wf :: "'a \<Rightarrow> bool"
  assumes roundtrip: "wf x \<Longrightarrow> dec (enc x) = Inr x"
begin

lemma enc_inject: "wf x \<Longrightarrow> wf y \<Longrightarrow> enc x = enc y \<longleftrightarrow> x = y"
  by (metis roundtrip Inr_inject)

lemma enc_inj_on: "inj_on enc {x. wf x}"
  by (rule inj_onI) (simp add: enc_inject)

end

text \<open>
  A canonical codec accepts nothing but encodings of well-formed values, so decoding and
  encoding are inverse bijections between the accepted byte strings and the values.
\<close>

locale canonical_codec = wire_codec +
  assumes canonical: "dec bs = Inr x \<Longrightarrow> wf x \<and> enc x = bs"
begin

lemma dec_iff: "dec bs = Inr x \<longleftrightarrow> wf x \<and> bs = enc x"
  using roundtrip canonical by blast

lemma dec_unique: "dec bs = Inr x \<Longrightarrow> dec bs' = Inr x \<Longrightarrow> bs = bs'"
  by (simp add: dec_iff)

lemma bij_accepted: "bij_betw enc {x. wf x} {bs. \<exists>x. dec bs = Inr x}"
  by (rule bij_betw_imageI [OF enc_inj_on]) (auto simp: dec_iff)

end

text \<open>A prefix codec ignores what follows an encoding, as a decoder that reads fields off a
  longer buffer does; it is a codec.\<close>

locale prefix_codec =
  fixes enc :: "'a \<Rightarrow> bytes"
    and dec :: "bytes \<Rightarrow> 'e + 'a"
    and wf :: "'a \<Rightarrow> bool"
  assumes dec_append: "wf x \<Longrightarrow> dec (enc x @ rest) = Inr x"

sublocale prefix_codec \<subseteq> wire_codec enc dec wf
  using dec_append [where rest = "[]"] by unfold_locales simp

text \<open>
  Feeding a byte stream to a decoder one byte at a time and collecting the frames it reports,
  the loop around every \<open>feed\<close>.
\<close>

fun feed_all :: "('d \<Rightarrow> 'b \<Rightarrow> 'd \<times> 'f option) \<Rightarrow> 'd \<Rightarrow> 'b list \<Rightarrow> 'd \<times> 'f list" where
  "feed_all feed d [] = (d, [])"
| "feed_all feed d (b # bs) =
     (let (d1, r) = feed d b; (d2, fs) = feed_all feed d1 bs
      in (d2, (case r of None \<Rightarrow> fs | Some f \<Rightarrow> f # fs)))"

lemma feed_all_append:
  "feed_all feed d (xs @ ys) =
     (let (d1, fs) = feed_all feed d xs; (d2, gs) = feed_all feed d1 ys in (d2, fs @ gs))"
  by (induction xs arbitrary: d) (auto split: prod.splits option.splits)

text \<open>
  A framer: from a state between frames, the encoding of a payload yields the frames
  \<open>frames p\<close> and leaves the decoder between frames again. Streams of frames then decode to the
  concatenation, whatever the number of frames.
\<close>

locale framer =
  fixes encode :: "'p \<Rightarrow> bytes"
    and feed :: "'d \<Rightarrow> u8 \<Rightarrow> 'd \<times> 'f option"
    and ready :: "'d \<Rightarrow> bool"
    and ok :: "'p \<Rightarrow> bool"
    and frames :: "'p \<Rightarrow> 'f list"
  assumes decode_one:
    "ready d \<Longrightarrow> ok p \<Longrightarrow> \<exists>d'. feed_all feed d (encode p) = (d', frames p) \<and> ready d'"
begin

lemma decode_stream:
  "ready d \<Longrightarrow> list_all ok ps \<Longrightarrow>
     \<exists>d'. feed_all feed d (concat (map encode ps)) = (d', concat (map frames ps)) \<and> ready d'"
proof (induction ps arbitrary: d)
  case (Cons p ps)
  then obtain d1 where d1: "feed_all feed d (encode p) = (d1, frames p)" "ready d1"
    using decode_one [of d p] by auto
  with Cons obtain d2 where
    "feed_all feed d1 (concat (map encode ps)) = (d2, concat (map frames ps))" "ready d2"
    by auto
  with d1 show ?case by (simp add: feed_all_append)
qed simp

end

text \<open>
  A state machine with an invariant: the initial states satisfy it and every step keeps it, so
  every reachable state satisfies it.
\<close>

locale invariant_machine =
  fixes init :: "'s \<Rightarrow> bool"
    and step :: "'s \<Rightarrow> 's \<Rightarrow> bool"
    and inv :: "'s \<Rightarrow> bool"
  assumes init_inv: "init s \<Longrightarrow> inv s"
    and step_inv: "inv s \<Longrightarrow> step s t \<Longrightarrow> inv t"
begin

lemma steps_inv: "step\<^sup>*\<^sup>* s t \<Longrightarrow> inv s \<Longrightarrow> inv t"
  by (induction rule: rtranclp_induct) (auto intro: step_inv)

lemma reachable_inv: "init s \<Longrightarrow> step\<^sup>*\<^sup>* s t \<Longrightarrow> inv t"
  by (blast intro: steps_inv init_inv)

end

end
