(* ===== verification/Kiss.thy ===== *)
theory Kiss
  imports Rust_Prelude
begin

text \<open>
  \<open>crates/interface/src/kiss.rs\<close>: KISS framing for packet-radio modems. A frame carries a command
  byte (sent unescaped) and an escaped payload; the decoder leaves the frame on the closing
  \<open>FEND\<close>.
\<close>

abbreviation (input) FEND :: u8 where "FEND \<equiv> 0xC0"
abbreviation (input) FESC :: u8 where "FESC \<equiv> 0xDB"
abbreviation (input) TFEND :: u8 where "TFEND \<equiv> 0xDC"
abbreviation (input) TFESC :: u8 where "TFESC \<equiv> 0xDD"
abbreviation (input) CMD_DATA :: u8 where "CMD_DATA \<equiv> 0x00"

record kiss_frame_result =
  kf_command :: u8
  kf_data :: bytes

fun kiss_escape :: "bytes \<Rightarrow> bytes" where
  "kiss_escape [] = []"
| "kiss_escape (b # bs) =
     (if b = FESC then [FESC, TFESC] else if b = FEND then [FESC, TFEND] else [b]) @
     kiss_escape bs"

definition kiss_encode :: "bytes \<Rightarrow> bytes" where
  "kiss_encode data = [FEND, CMD_DATA] @ kiss_escape data @ [FEND]"

definition kiss_encode_cmd :: "u8 \<Rightarrow> bytes \<Rightarrow> bytes" where
  "kiss_encode_cmd cmd data = [FEND, cmd] @ kiss_escape data @ [FEND]"

definition kiss_encode_cmd_value :: "u8 \<Rightarrow> u8 \<Rightarrow> bytes" where
  "kiss_encode_cmd_value cmd value = kiss_encode_cmd cmd [value]"

record kiss_decoder =
  kd_in_frame :: bool
  kd_escape :: bool
  kd_data_buffer :: bytes
  kd_command :: "u8 option"

definition kiss_new :: kiss_decoder where
  "kiss_new = \<lparr> kd_in_frame = False, kd_escape = False, kd_data_buffer = [],
     kd_command = None \<rparr>"

definition kiss_reset :: "kiss_decoder \<Rightarrow> kiss_decoder" where
  "kiss_reset d = d\<lparr>kd_in_frame := False, kd_escape := False, kd_data_buffer := [],
     kd_command := None\<rparr>"

definition kiss_feed :: "kiss_decoder \<Rightarrow> u8 \<Rightarrow> kiss_decoder \<times> kiss_frame_result option" where
  "kiss_feed d byte =
     (if \<not> kd_in_frame d then
        (if byte = FEND
         then d\<lparr>kd_in_frame := True, kd_escape := False, kd_data_buffer := [], kd_command := None\<rparr>
         else d, None)
      else if kd_escape d then
        (d\<lparr>kd_escape := False, kd_data_buffer := kd_data_buffer d @
            [if byte = TFESC then FESC else if byte = TFEND then FEND else byte]\<rparr>, None)
      else if byte = FESC then (d\<lparr>kd_escape := True\<rparr>, None)
      else if byte = FEND then
        (d\<lparr>kd_in_frame := False, kd_data_buffer := [], kd_command := None\<rparr>,
         Some \<lparr> kf_command = (case kd_command d of Some c \<Rightarrow> c | None \<Rightarrow> CMD_DATA),
                kf_data = kd_data_buffer d \<rparr>)
      else (case kd_command d of
          None \<Rightarrow> (d\<lparr>kd_command := Some byte\<rparr>, None)
        | Some _ \<Rightarrow> (d\<lparr>kd_data_buffer := kd_data_buffer d @ [byte]\<rparr>, None)))"

section \<open>Decoding an encoded frame\<close>

lemma kiss_feed_escaped:
  "feed_all kiss_feed \<lparr> kd_in_frame = True, kd_escape = False, kd_data_buffer = buf,
       kd_command = Some c \<rparr> (kiss_escape p) =
     (\<lparr> kd_in_frame = True, kd_escape = False, kd_data_buffer = buf @ p, kd_command = Some c \<rparr>, [])"
  by (induction p arbitrary: buf) (simp_all add: kiss_feed_def)

text \<open>Commands that can be sent: those that are neither delimiter nor escape byte.\<close>

definition kiss_cmd_ok :: "u8 \<Rightarrow> bool" where
  "kiss_cmd_ok c \<longleftrightarrow> c \<noteq> FEND \<and> c \<noteq> FESC"

lemma kiss_frame_one:
  assumes "\<not> kd_in_frame d" and "kiss_cmd_ok c"
  shows "\<exists>d'. feed_all kiss_feed d (kiss_encode_cmd c p) = (d', [\<lparr> kf_command = c, kf_data = p \<rparr>]) \<and>
    \<not> kd_in_frame d'"
  using assms by (cases d)
    (simp add: kiss_encode_cmd_def kiss_feed_def kiss_cmd_ok_def feed_all_append kiss_feed_escaped)

interpretation kiss_framer: framer "\<lambda>(c, p). kiss_encode_cmd c p" kiss_feed
  "\<lambda>d. \<not> kd_in_frame d" "\<lambda>(c, p). kiss_cmd_ok c" "\<lambda>(c, p). [\<lparr> kf_command = c, kf_data = p \<rparr>]"
  by unfold_locales (auto dest: kiss_frame_one)

lemma kiss_encode_as_cmd: "kiss_encode = kiss_encode_cmd CMD_DATA"
  by (rule ext) (simp add: kiss_encode_def kiss_encode_cmd_def)

text \<open>Streams of KISS frames: from any state outside a frame, the encodings of any sequence
  of commands and payloads decode to exactly that sequence, for every command byte other than
  \<open>FEND\<close> and \<open>FESC\<close>.\<close>

theorem kiss_stream:
  assumes "\<not> kd_in_frame d" and "list_all (\<lambda>(c, p). kiss_cmd_ok c) cps"
  shows "snd (feed_all kiss_feed d (concat (map (\<lambda>(c, p). kiss_encode_cmd c p) cps))) =
    map (\<lambda>(c, p). \<lparr> kf_command = c, kf_data = p \<rparr>) cps"
proof -
  have "concat (map (\<lambda>(c, p). [\<lparr> kf_command = c, kf_data = p \<rparr>]) cps) =
    map (\<lambda>(c, p). \<lparr> kf_command = c, kf_data = p \<rparr>) cps"
    by (induction cps) auto
  then show ?thesis using kiss_framer.decode_stream [OF assms] by auto
qed

theorem kiss_stream_witness:
  "snd (feed_all kiss_feed kiss_new (concat (map (\<lambda>(c, p). kiss_encode_cmd c p)
      [(CMD_DATA, [0xC0, 0xDB, 1]), (1, [50])]))) =
    map (\<lambda>(c, p). \<lparr> kf_command = c, kf_data = p \<rparr>) [(CMD_DATA, [0xC0, 0xDB, 1]), (1, [50])]"
  by (rule kiss_stream) (simp_all add: kiss_new_def kiss_cmd_ok_def)

text \<open>The data frames \<open>KissFrame::encode\<close> writes, and the commands that cannot be sent.\<close>

lemma kiss_data_stream:
  assumes "\<not> kd_in_frame d"
  shows "snd (feed_all kiss_feed d (concat (map kiss_encode ps))) =
    map (\<lambda>p. \<lparr> kf_command = CMD_DATA, kf_data = p \<rparr>) ps"
proof -
  have "list_all (\<lambda>(c, p). kiss_cmd_ok c) (map (Pair CMD_DATA) ps)"
    by (induction ps) (simp_all add: kiss_cmd_ok_def)
  from kiss_framer.decode_stream [OF assms this] show ?thesis
    by (auto simp: kiss_encode_as_cmd comp_def)
qed

lemma kiss_cmd_fend_lost:
  "snd (feed_all kiss_feed kiss_new (kiss_encode_cmd FEND p)) \<noteq>
     [\<lparr> kf_command = FEND, kf_data = p \<rparr>]"
  by (auto simp: kiss_encode_cmd_def kiss_feed_def kiss_new_def split: prod.splits)

lemma kiss_resync:
  "FEND \<notin> set junk \<Longrightarrow> feed_all kiss_feed kiss_new junk = (kiss_new, [])"
  by (induction junk) (auto simp: kiss_new_def kiss_feed_def)

end
