(* ===== verification/Hdlc.thy ===== *)
theory Hdlc
  imports Rust_Prelude
begin

text \<open>
  \<open>crates/interface/src/hdlc.rs\<close>: HDLC byte stuffing, the frame encoder and the byte-by-byte
  decoder. The decoder stays inside a frame after a closing flag, so that one flag can both close
  a frame and open the next; the lemmas say what a stream of encoded frames decodes to.
\<close>

abbreviation (input) FLAG :: u8 where "FLAG \<equiv> 0x7E"
abbreviation (input) ESC :: u8 where "ESC \<equiv> 0x7D"
abbreviation (input) ESC_MASK :: u8 where "ESC_MASK \<equiv> 0x20"

fun hdlc_escape :: "bytes \<Rightarrow> bytes" where
  "hdlc_escape [] = []"
| "hdlc_escape (b # bs) =
     (if b = ESC then [ESC, ESC XOR ESC_MASK]
      else if b = FLAG then [ESC, FLAG XOR ESC_MASK]
      else [b]) @ hdlc_escape bs"

definition hdlc_frame_encode :: "bytes \<Rightarrow> bytes" where
  "hdlc_frame_encode data = [FLAG] @ hdlc_escape data @ [FLAG]"

record hdlc_decoder =
  hd_in_frame :: bool
  hd_escape :: bool
  hd_data_buffer :: bytes

definition hdlc_new :: hdlc_decoder where
  "hdlc_new = \<lparr> hd_in_frame = False, hd_escape = False, hd_data_buffer = [] \<rparr>"

definition hdlc_reset :: "hdlc_decoder \<Rightarrow> hdlc_decoder" where
  "hdlc_reset d = d\<lparr>hd_in_frame := False, hd_escape := False, hd_data_buffer := []\<rparr>"

definition hdlc_feed :: "hdlc_decoder \<Rightarrow> u8 \<Rightarrow> hdlc_decoder \<times> bytes option" where
  "hdlc_feed d byte =
     (if \<not> hd_in_frame d then
        (if byte = FLAG
         then d\<lparr>hd_in_frame := True, hd_escape := False, hd_data_buffer := []\<rparr> else d, None)
      else if hd_escape d then
        (d\<lparr>hd_escape := False, hd_data_buffer := hd_data_buffer d @ [byte XOR ESC_MASK]\<rparr>, None)
      else if byte = ESC then (d\<lparr>hd_escape := True\<rparr>, None)
      else if byte = FLAG then
        (d\<lparr>hd_data_buffer := [], hd_in_frame := True\<rparr>, Some (hd_data_buffer d))
      else (d\<lparr>hd_data_buffer := hd_data_buffer d @ [byte]\<rparr>, None))"

section \<open>Decoding an encoded frame\<close>

text \<open>The decoder inside a frame with the payload \<open>buf\<close> read so far.\<close>

abbreviation hdlc_inside :: "bytes \<Rightarrow> hdlc_decoder" where
  "hdlc_inside buf \<equiv> \<lparr> hd_in_frame = True, hd_escape = False, hd_data_buffer = buf \<rparr>"

lemma hdlc_feed_escaped:
  "feed_all hdlc_feed (hdlc_inside buf) (hdlc_escape p) = (hdlc_inside (buf @ p), [])"
  by (induction p arbitrary: buf) (simp_all add: hdlc_feed_def)

lemma hdlc_feed_body:
  "feed_all hdlc_feed (hdlc_inside buf) (hdlc_escape p @ [FLAG]) = (hdlc_inside [], [buf @ p])"
  by (simp add: feed_all_append hdlc_feed_escaped) (simp add: hdlc_feed_def)

lemma hdlc_frame_first:
  "\<not> hd_in_frame d \<Longrightarrow> feed_all hdlc_feed d (hdlc_frame_encode p) = (hdlc_inside [], [p])"
  using hdlc_feed_body [of "[]" p]
  by (cases d) (simp add: hdlc_frame_encode_def hdlc_feed_def)

lemma hdlc_frame_next:
  "feed_all hdlc_feed (hdlc_inside []) (hdlc_frame_encode p) = (hdlc_inside [], [[], p])"
  using hdlc_feed_body [of "[]" p] by (simp add: hdlc_frame_encode_def hdlc_feed_def)

interpretation hdlc_framer: framer hdlc_frame_encode hdlc_feed "\<lambda>d. d = hdlc_inside []"
  "\<lambda>p. True" "\<lambda>p. [[], p]"
  by unfold_locales (simp add: hdlc_frame_next)

text \<open>Streams of HDLC frames: a new decoder fed the encodings of a list of payloads, one
  after the other, reports every payload, in order. Between two encoded frames it also reports
  one empty frame, because the opening flag of the second one closes an empty frame.\<close>

theorem hdlc_stream:
  "snd (feed_all hdlc_feed hdlc_new (concat (map hdlc_frame_encode (p # ps)))) =
     p # concat (map (\<lambda>q. [[], q]) ps)"
proof -
  obtain d' where
    "feed_all hdlc_feed (hdlc_inside []) (concat (map hdlc_frame_encode ps)) =
       (d', concat (map (\<lambda>q. [[], q]) ps))"
    using hdlc_framer.decode_stream [of "hdlc_inside []" ps] by (auto simp: list.pred_True)
  then show ?thesis by (simp add: feed_all_append hdlc_frame_first hdlc_new_def)
qed

lemma hdlc_escape_no_flag: "FLAG \<notin> set (hdlc_escape p)"
  by (induction p) auto

lemma hdlc_shared_flag_body:
  "feed_all hdlc_feed (hdlc_inside []) (concat (map (\<lambda>p. hdlc_escape p @ [FLAG]) ps)) =
     (hdlc_inside [], ps)"
proof (induction ps)
  case (Cons p ps)
  with hdlc_feed_body [of "[]" p] show ?case
    by (simp only: concat.simps list.map feed_all_append append_Nil) simp
qed simp

text \<open>Frames that share their delimiting flags, as Reticulum peers may send them, decode to
  exactly the payloads.\<close>

theorem hdlc_shared_flags:
  "snd (feed_all hdlc_feed hdlc_new (FLAG # concat (map (\<lambda>p. hdlc_escape p @ [FLAG]) ps))) = ps"
  using hdlc_shared_flag_body [of ps] by (simp add: hdlc_new_def hdlc_feed_def)

lemma hdlc_resync:
  "FLAG \<notin> set junk \<Longrightarrow> feed_all hdlc_feed hdlc_new junk = (hdlc_new, [])"
  by (induction junk) (auto simp: hdlc_new_def hdlc_feed_def)

lemma hdlc_encode_bounds:
  "length p + 2 \<le> length (hdlc_frame_encode p) \<and> length (hdlc_frame_encode p) \<le> 2 * length p + 2"
  by (induction p) (auto simp: hdlc_frame_encode_def)

end
