(* ===== verification/Serial.thy ===== *)
theory Serial
  imports Hdlc
begin

text \<open>
  \<open>crates/interface/src/serial.rs\<close>: the HDLC encoder and decoders of the serial interface and
  the interface itself. The interface shares its port with a blocking read task through a mutex
  and gets decoded frames through a bounded channel; the model keeps the interface, the mutex,
  the channel and the task in one record and gives one definition per method and per iteration of
  the task's two loops. Opening, reading and writing the port are the environment: their
  results are arguments. A port handle is a value of the type parameter \<open>'p\<close>.
\<close>

abbreviation (input) CHANNEL_CAPACITY :: nat where "CHANNEL_CAPACITY \<equiv> 256"
abbreviation (input) HW_MTU :: nat where "HW_MTU \<equiv> 564"

datatype InterfaceError =
    IfIo string | IfSerial string | ConnectionLost | DecodeError string | IfTimeout
  | AlreadyOnline | NotOnline | IfConfig string

section \<open>Frame encoder and whole-frame decoder\<close>

fun ser_stuff :: "bytes \<Rightarrow> bytes" where
  "ser_stuff [] = []"
| "ser_stuff (byte # data) =
     (if byte = FLAG \<or> byte = ESC then [ESC, byte XOR ESC_MASK] else [byte]) @ ser_stuff data"

definition hdlc_encode :: "bytes \<Rightarrow> bytes" where
  "hdlc_encode data = [FLAG] @ ser_stuff data @ [FLAG]"

fun ser_unstuff :: "bytes \<Rightarrow> bytes" where
  "ser_unstuff [] = []"
| "ser_unstuff [b] = [b]"
| "ser_unstuff (b # c # bs) =
     (if b = ESC then (c XOR ESC_MASK) # ser_unstuff bs else b # ser_unstuff (c # bs))"

definition hdlc_decode :: "bytes \<Rightarrow> bytes option" where
  "hdlc_decode frame =
     (if length frame < 2 then None
      else let start = (if hd frame = FLAG then 1 else 0);
               fin = (if last frame = FLAG then length frame - 1 else length frame)
           in if fin < start then None else Some (ser_unstuff (slice start fin frame)))"

section \<open>Streaming decoder\<close>

datatype hdlc_state = WaitFlag | InFrame | Escape

record ser_decoder =
  sd_buf :: bytes
  sd_state :: hdlc_state

definition ser_new_decoder :: ser_decoder where
  "ser_new_decoder = \<lparr> sd_buf = [], sd_state = WaitFlag \<rparr>"

definition ser_feed :: "ser_decoder \<Rightarrow> u8 \<Rightarrow> ser_decoder \<times> bytes option" where
  "ser_feed d byte = (case sd_state d of
       WaitFlag \<Rightarrow> (if byte = FLAG then d\<lparr>sd_state := InFrame, sd_buf := []\<rparr> else d, None)
     | InFrame \<Rightarrow>
         if byte = FLAG then
           (if sd_buf d = [] then (d\<lparr>sd_state := WaitFlag\<rparr>, None)
            else (d\<lparr>sd_state := WaitFlag, sd_buf := []\<rparr>, Some (sd_buf d)))
         else if byte = ESC then (d\<lparr>sd_state := Escape\<rparr>, None)
         else (d\<lparr>sd_buf := sd_buf d @ [byte]\<rparr>, None)
     | Escape \<Rightarrow>
         (d\<lparr>sd_buf := sd_buf d @ [byte XOR ESC_MASK], sd_state := InFrame\<rparr>, None))"

definition ser_reset :: "ser_decoder \<Rightarrow> ser_decoder" where
  "ser_reset d = d\<lparr>sd_state := WaitFlag, sd_buf := []\<rparr>"

section \<open>The interface and its read task\<close>

text \<open>Where the read task is: ended, at the head of its outer loop, or in the inner loop with
  the port it took out of the mutex.\<close>

datatype 'p ser_task = TaskStopped | TaskOuter | TaskInner 'p

record 'p serial_interface =
  ser_name :: string
  ser_port :: string
  ser_speed :: u32
  ser_online :: bool
  ser_bitrate :: u64
  ser_rxb :: u64
  ser_txb :: u64
  ser_serial :: "'p option"      \<comment> \<open>the mutex\<close>
  ser_rx :: "bytes list"         \<comment> \<open>frames in the channel\<close>
  ser_tx_alive :: bool           \<comment> \<open>the task still holds the channel's sender\<close>
  ser_shutdown_tx :: bool        \<comment> \<open>the interface holds the shutdown sender\<close>
  ser_signal :: bool             \<comment> \<open>the shutdown signal is in its channel\<close>
  ser_task :: "'p ser_task"
  ser_decoder_state :: ser_decoder

definition ser_new :: "string \<Rightarrow> string \<Rightarrow> u32 \<Rightarrow> 'p serial_interface" where
  "ser_new name port speed = \<lparr> ser_name = name, ser_port = port, ser_speed = speed,
     ser_online = False, ser_bitrate = ucast speed, ser_rxb = 0, ser_txb = 0,
     ser_serial = None, ser_rx = [], ser_tx_alive = False, ser_shutdown_tx = False,
     ser_signal = False, ser_task = TaskStopped, ser_decoder_state = ser_new_decoder \<rparr>"

definition u64_sat_add :: "u64 \<Rightarrow> nat \<Rightarrow> u64" where
  "u64_sat_add a n = of_nat (min (unat a + n) (2 ^ 64 - 1))"

definition ser_start ::
  "string + 'p \<Rightarrow> 'p serial_interface \<Rightarrow> 'p serial_interface \<times> (InterfaceError + unit)" where
  "ser_start open_result s =
     (if ser_online s then (s, Inl AlreadyOnline)
      else case open_result of
          Inl e \<Rightarrow> (s, Inl (IfSerial (''failed to open '' @ ser_port s @ '': '' @ e)))
        | Inr port \<Rightarrow>
            (s\<lparr>ser_serial := Some port, ser_rx := [], ser_tx_alive := True,
               ser_shutdown_tx := True, ser_signal := False, ser_task := TaskOuter,
               ser_decoder_state := ser_new_decoder, ser_online := True,
               ser_rxb := 0, ser_txb := 0\<rparr>, Inr ()))"

definition ser_shutdown ::
  "'p serial_interface \<Rightarrow> 'p serial_interface \<times> (InterfaceError + unit)" where
  "ser_shutdown s =
     (if \<not> ser_online s then (s, Inl NotOnline)
      else (s\<lparr>ser_signal := ser_signal s \<or> ser_shutdown_tx s, ser_shutdown_tx := False,
              ser_serial := None, ser_rx := [], ser_online := False\<rparr>, Inr ()))"

definition ser_receive ::
  "'p serial_interface \<Rightarrow> 'p serial_interface \<times> (InterfaceError + bytes option)" where
  "ser_receive s =
     (if \<not> ser_online s then (s, Inl NotOnline)
      else case ser_rx s of
          data # rest \<Rightarrow>
            (s\<lparr>ser_rx := rest, ser_rxb := u64_sat_add (ser_rxb s) (length data)\<rparr>, Inr (Some data))
        | [] \<Rightarrow> (s, if ser_tx_alive s then Inr None else Inl ConnectionLost))"

text \<open>\<open>send\<close>: \<open>write\<close> is what the port does with the encoded frame (write and flush).\<close>

definition ser_send ::
  "('p \<Rightarrow> bytes \<Rightarrow> string + 'p) \<Rightarrow> bytes \<Rightarrow> 'p serial_interface \<Rightarrow>
     'p serial_interface \<times> (InterfaceError + unit)" where
  "ser_send write data s =
     (if \<not> ser_online s then (s, Inl NotOnline)
      else case ser_serial s of
          None \<Rightarrow> (s, Inl ConnectionLost)
        | Some port \<Rightarrow> (case write port (hdlc_encode data) of
              Inl e \<Rightarrow> (s, Inl (IfIo e))
            | Inr port' \<Rightarrow>
                (s\<lparr>ser_serial := Some port', ser_txb := u64_sat_add (ser_txb s) (length data)\<rparr>,
                 Inr ())))"

text \<open>One iteration of the task's outer loop; \<open>reopen\<close> is the result of opening the port again.\<close>

definition ser_outer :: "string + 'p \<Rightarrow> 'p serial_interface \<Rightarrow> 'p serial_interface" where
  "ser_outer reopen s =
     (if ser_signal s
      then s\<lparr>ser_signal := False, ser_task := TaskStopped, ser_tx_alive := False\<rparr>
      else case ser_serial s of
          None \<Rightarrow> (case reopen of Inr port \<Rightarrow> s\<lparr>ser_serial := Some port\<rparr> | Inl _ \<Rightarrow> s)
        | Some port \<Rightarrow> s\<lparr>ser_serial := None, ser_task := TaskInner port\<rparr>)"

text \<open>One iteration of the inner loop on the result of reading one byte.\<close>

datatype ser_read = ReadOk u8 | ReadTimedOut | ReadErr

definition ser_inner :: "ser_read \<Rightarrow> 'p serial_interface \<Rightarrow> 'p serial_interface" where
  "ser_inner r s =
     (if ser_signal s
      then s\<lparr>ser_signal := False, ser_serial := None, ser_task := TaskStopped,
             ser_tx_alive := False\<rparr>
      else case r of
          ReadOk byte \<Rightarrow>
            (let (d, frame) = ser_feed (ser_decoder_state s) byte
             in (case frame of
                   None \<Rightarrow> s\<lparr>ser_decoder_state := d\<rparr>
                 | Some f \<Rightarrow> s\<lparr>ser_decoder_state := d, ser_rx := ser_rx s @ [f]\<rparr>))
        | ReadTimedOut \<Rightarrow> s\<lparr>ser_decoder_state := ser_reset (ser_decoder_state s)\<rparr>
        | ReadErr \<Rightarrow> s\<lparr>ser_serial := None, ser_task := TaskOuter\<rparr>)"

text \<open>
  The interleavings of the caller and the task. The task blocks while the channel is full.
\<close>

inductive ser_step :: "'p serial_interface \<Rightarrow> 'p serial_interface \<Rightarrow> bool" where
  start: "ser_task s = TaskStopped \<Longrightarrow> ser_step s (fst (ser_start r s))"
| shutdown: "ser_step s (fst (ser_shutdown s))"
| receive: "ser_step s (fst (ser_receive s))"
| send: "ser_step s (fst (ser_send w data s))"
| outer: "ser_task s = TaskOuter \<Longrightarrow> ser_step s (ser_outer r s)"
| inner: "ser_task s = TaskInner p \<Longrightarrow> length (ser_rx s) < CHANNEL_CAPACITY \<Longrightarrow>
    ser_step s (ser_inner rd s)"

inductive_cases ser_stepE: "ser_step s t"

section \<open>Encoding and decoding\<close>

lemma ser_stuff_eq: "ser_stuff p = hdlc_escape p"
  by (induction p) auto

text \<open>The two HDLC encoders of the repository agree: the serial interface's \<open>hdlc_encode\<close>
  writes the same bytes as \<open>HdlcFrame::encode\<close> on every payload.\<close>

theorem hdlc_encode_eq: "hdlc_encode p = hdlc_frame_encode p"
  by (simp add: hdlc_encode_def hdlc_frame_encode_def ser_stuff_eq)

lemma ser_unstuff_stuff: "ser_unstuff (ser_stuff p) = p"
proof (induction p)
  case (Cons b p)
  show ?case
  proof (cases "b = FLAG \<or> b = ESC")
    case False
    then show ?thesis using Cons by (cases "ser_stuff p") simp_all
  qed (use Cons in auto)
qed simp

text \<open>Whole-frame decoding inverts encoding: \<open>hdlc_decode\<close> of \<open>hdlc_encode\<close> of any payload,
  the empty one included, is that payload.\<close>

theorem hdlc_decode_encode: "hdlc_decode (hdlc_encode p) = Some p"
  by (simp add: hdlc_decode_def hdlc_encode_def ser_unstuff_stuff Let_def)

lemma ser_feed_stuffed:
  "feed_all ser_feed \<lparr> sd_buf = buf, sd_state = InFrame \<rparr> (ser_stuff p) =
     (\<lparr> sd_buf = buf @ p, sd_state = InFrame \<rparr>, [])"
  by (induction p arbitrary: buf) (simp_all add: ser_feed_def)

lemma ser_frame_one:
  "sd_state d = WaitFlag \<Longrightarrow>
     \<exists>d'. feed_all ser_feed d (hdlc_encode p) = (d', if p = [] then [] else [p]) \<and>
       sd_state d' = WaitFlag"
  by (cases d) (simp add: hdlc_encode_def ser_feed_def feed_all_append ser_feed_stuffed)

interpretation ser_framer: framer hdlc_encode ser_feed "\<lambda>d. sd_state d = WaitFlag" "\<lambda>p. True"
  "\<lambda>p. if p = [] then [] else [p]"
  by unfold_locales (simp add: ser_frame_one)

lemma concat_nonempty: "concat (map (\<lambda>p. if p = [] then [] else [p]) ps) = filter (\<lambda>p. p \<noteq> []) ps"
  by (induction ps) auto

text \<open>Streams of serial frames: a decoder that waits for a flag reports exactly the non-empty
  payloads of the frames it is fed, in order.\<close>

theorem ser_stream:
  assumes "sd_state d = WaitFlag"
  shows "snd (feed_all ser_feed d (concat (map hdlc_encode ps))) = filter (\<lambda>p. p \<noteq> []) ps"
  using ser_framer.decode_stream [OF assms, of ps] by (auto simp: concat_nonempty list.pred_True)

theorem ser_stream_witness:
  "snd (feed_all ser_feed ser_new_decoder (concat (map hdlc_encode [[0x7E, 1], [], [0x7D]]))) =
     filter (\<lambda>p. p \<noteq> []) [[0x7E, 1], [], [0x7D]]"
  by (rule ser_stream) (simp add: ser_new_decoder_def)

section \<open>The port is either in the mutex or with the task\<close>

definition ser_inv :: "'p serial_interface \<Rightarrow> bool" where
  "ser_inv s \<longleftrightarrow> (\<forall>p. ser_task s = TaskInner p \<longrightarrow> ser_serial s = None) \<and>
     (ser_task s = TaskStopped \<longrightarrow> \<not> ser_tx_alive s)"

lemma ser_inv_step: "ser_inv s \<Longrightarrow> ser_step s t \<Longrightarrow> ser_inv t"
  by (erule ser_stepE)
    (auto simp: ser_inv_def ser_start_def ser_shutdown_def ser_receive_def ser_send_def
      ser_outer_def ser_inner_def Let_def
      split: sum.splits list.splits option.splits ser_read.splits prod.splits)

interpretation ser_machine: invariant_machine
  "\<lambda>s. \<exists>name port speed. s = ser_new name port speed" ser_step ser_inv
proof unfold_locales
  fix s :: "'p serial_interface"
  assume "\<exists>name port speed. s = ser_new name port speed"
  then show "ser_inv s" by (auto simp: ser_inv_def ser_new_def)
qed (rule ser_inv_step)

text \<open>While the read task is in its read loop it owns the port, so every \<open>send\<close> on the
  online interface fails with \<open>ConnectionLost\<close>: the mutex that \<open>send\<close> looks into stays empty
  until the task gives the port up.\<close>

theorem ser_send_starved:
  assumes "ser_step\<^sup>*\<^sup>* (ser_new name port speed) s"
    and "ser_task s = TaskInner p" and "ser_online s"
  shows "ser_send w data s = (s, Inl ConnectionLost)"
proof -
  have "ser_inv s" using ser_machine.reachable_inv [OF _ assms(1)] by blast
  with assms(2,3) show ?thesis by (simp add: ser_inv_def ser_send_def)
qed

theorem ser_send_starved_witness:
  "let s = ser_outer (Inl []) (fst (ser_start (Inr ()) (ser_new ''Serial'' ''/dev/ttyUSB0'' 115200)))
   in ser_send (\<lambda>p _. Inr p) [1, 2] s = (s, Inl ConnectionLost)"
proof -
  let ?s0 = "ser_new ''Serial'' ''/dev/ttyUSB0'' 115200 :: unit serial_interface"
  let ?s1 = "fst (ser_start (Inr ()) ?s0)"
  have "ser_step ?s0 ?s1" by (rule ser_step.start) (simp add: ser_new_def)
  moreover have "ser_step ?s1 (ser_outer (Inl []) ?s1)"
    by (rule ser_step.outer) (simp add: ser_new_def ser_start_def)
  ultimately have "ser_step\<^sup>*\<^sup>* ?s0 (ser_outer (Inl []) ?s1)" by simp
  from ser_send_starved [OF this, of "()"] show ?thesis
    by (simp add: Let_def ser_outer_def ser_start_def ser_new_def)
qed

text \<open>The read task delivers what arrives: in the read loop, with no shutdown signal, the
  frames it appends to the channel for a sequence of bytes are exactly those of the streaming
  decoder.\<close>

theorem ser_task_delivers:
  assumes "\<not> ser_signal s"
  shows "ser_rx (fold (\<lambda>b. ser_inner (ReadOk b)) bs s) =
    ser_rx s @ snd (feed_all ser_feed (ser_decoder_state s) bs)"
  using assms
proof (induction bs arbitrary: s)
  case (Cons b bs)
  then show ?case
    by (auto simp: ser_inner_def Let_def split: prod.splits option.splits)
qed simp

theorem ser_task_delivers_witness:
  "ser_rx (fold (\<lambda>b. ser_inner (ReadOk b)) [0x7E, 5, 0x7E] (ser_new [] [] 0)) =
     ser_rx (ser_new [] [] 0) @ snd (feed_all ser_feed ser_new_decoder [0x7E, 5, 0x7E])"
  using ser_task_delivers [of "ser_new [] [] 0" "[0x7E, 5, 0x7E]"] by (simp add: ser_new_def)

section \<open>Restarts\<close>

text \<open>
  \<open>shutdown\<close> signals the read task and does not wait for it, so a task may still run when the next
  \<open>start\<close> creates another one. Both share the mutex. The old task has its signal waiting and its channel
  is closed, so it does one more thing: in the read loop, whatever the read under way yields, it empties the
  mutex and ends; outside of it, it just ends.
\<close>

definition ser_old_end :: "'p ser_task \<Rightarrow> 'p serial_interface \<Rightarrow> 'p serial_interface" where
  "ser_old_end t s = (case t of TaskInner _ \<Rightarrow> s\<lparr>ser_serial := None\<rparr> | _ \<Rightarrow> s)"

definition ser_restart ::
  "string + 'p \<Rightarrow> 'p serial_interface \<times> 'p ser_task list \<Rightarrow> 'p serial_interface \<times> 'p ser_task list" where
  "ser_restart open_result = (\<lambda>(s, old). case ser_start open_result s of
       (s', Inr _) \<Rightarrow> (s', if ser_task s = TaskStopped then old else ser_task s # old)
     | (s', Inl _) \<Rightarrow> (s', old))"

inductive ser_system ::
  "'p serial_interface \<times> 'p ser_task list \<Rightarrow> 'p serial_interface \<times> 'p ser_task list \<Rightarrow> bool" where
  current: "ser_step s t \<Longrightarrow> ser_system (s, old) (t, old)"
| restart: "ser_system x (ser_restart r x)"
| old: "ser_system (s, os1 @ t # os2) (ser_old_end t s, os1 @ os2)"

inductive_cases ser_systemE: "ser_system x y"

text \<open>An online interface can signal its task, and a task that outlives its interface has been signalled.\<close>

definition ser_signalled :: "'p serial_interface \<Rightarrow> bool" where
  "ser_signalled s \<longleftrightarrow> (ser_online s \<longrightarrow> ser_shutdown_tx s) \<and>
     (\<not> ser_online s \<longrightarrow> ser_task s \<noteq> TaskStopped \<longrightarrow> ser_signal s)"

lemma ser_signalled_step: "ser_signalled s \<Longrightarrow> ser_step s t \<Longrightarrow> ser_signalled t"
  by (erule ser_stepE)
    (auto simp: ser_signalled_def ser_start_def ser_shutdown_def ser_receive_def ser_send_def
      ser_outer_def ser_inner_def Let_def
      split: sum.splits list.splits option.splits ser_read.splits prod.splits)

lemma ser_system_inv:
  "ser_inv (fst x) \<and> ser_signalled (fst x) \<Longrightarrow> ser_system x y \<Longrightarrow> ser_inv (fst y) \<and> ser_signalled (fst y)"
proof (erule ser_systemE)
  fix s t old
  assume "ser_inv (fst x) \<and> ser_signalled (fst x)" "x = (s, old)" "y = (t, old)" "ser_step s t"
  then show ?thesis using ser_inv_step ser_signalled_step by auto
next
  fix r
  assume "ser_inv (fst x) \<and> ser_signalled (fst x)" "y = ser_restart r x"
  then show ?thesis
    by (cases x) (auto simp: ser_restart_def ser_inv_def ser_signalled_def ser_start_def split: sum.splits)
next
  fix s os1 t os2
  assume "ser_inv (fst x) \<and> ser_signalled (fst x)" "x = (s, os1 @ t # os2)" "y = (ser_old_end t s, os1 @ os2)"
  then show ?thesis
    by (auto simp: ser_old_end_def ser_inv_def ser_signalled_def split: ser_task.splits)
qed

interpretation ser_restarts: invariant_machine
  "\<lambda>x. \<exists>name port speed. x = (ser_new name port speed, [])" ser_system
  "\<lambda>x. ser_inv (fst x) \<and> ser_signalled (fst x)"
proof unfold_locales
  fix x :: "'p serial_interface \<times> 'p ser_task list"
  assume "\<exists>name port speed. x = (ser_new name port speed, [])"
  then show "ser_inv (fst x) \<and> ser_signalled (fst x)"
    by (auto simp: ser_inv_def ser_signalled_def ser_new_def)
qed (rule ser_system_inv)

text \<open>
  A restart can lose the port: there is a run in which the interface is started, shut down and started
  again, after which it is online but neither the mutex nor a task holds the port that was opened,
  so sending fails.
\<close>

theorem ser_restart_loses_port:
  fixes p1 p2 :: 'p
  shows "\<exists>s. ser_system\<^sup>*\<^sup>* (ser_new name port speed :: 'p serial_interface, []) (s, []) \<and>
     ser_online s \<and> ser_task s = TaskOuter \<and> ser_serial s = None \<and>
     (\<forall>w data. ser_send w data s = (s, Inl ConnectionLost))"
proof -
  let ?s0 = "ser_new name port speed :: 'p serial_interface"
  let ?s1 = "fst (ser_start (Inr p1) ?s0)" let ?s2 = "ser_outer (Inl []) ?s1"
  let ?s3 = "fst (ser_shutdown ?s2)" let ?s4 = "fst (ser_start (Inr p2) ?s3)"
  have "ser_system (?s0, []) (?s1, [])" by (intro ser_system.current ser_step.start) (simp add: ser_new_def)
  moreover have "ser_system (?s1, []) (?s2, [])"
    by (intro ser_system.current ser_step.outer) (simp add: ser_new_def ser_start_def)
  moreover have "ser_system (?s2, []) (?s3, [])" by (intro ser_system.current ser_step.shutdown)
  moreover have "ser_system (?s3, []) (?s4, [TaskInner p1])"
    using ser_system.restart [of "(?s3, [])" "Inr p2"]
    by (simp add: ser_restart_def ser_start_def ser_shutdown_def ser_outer_def ser_new_def)
  moreover have "ser_system (?s4, [TaskInner p1]) (?s4\<lparr>ser_serial := None\<rparr>, [])"
    using ser_system.old [of ?s4 "[]" "TaskInner p1" "[]"] by (simp add: ser_old_end_def)
  ultimately have "ser_system\<^sup>*\<^sup>* (?s0, []) (?s4\<lparr>ser_serial := None\<rparr>, [])" by (meson converse_rtranclp_into_rtranclp rtranclp.rtrancl_refl)
  then show ?thesis
    by (intro exI [of _ "?s4\<lparr>ser_serial := None\<rparr>"])
      (simp add: ser_start_def ser_shutdown_def ser_outer_def ser_new_def ser_send_def)
qed

end
