(* ===== verification/Tcp.thy ===== *)
theory Tcp
  imports Kiss Serial
begin

text \<open>
  \<open>crates/interface/src/tcp.rs\<close>: KISS framing over TCP, as a client and as a server. An interface
  shares a bounded channel of decoded frames with its read tasks; as for the serial interface, the
  model keeps the interface, the channel and the tasks in one record, with one definition per
  method and per iteration of a task's loop. Connecting, reading and writing are the environment:
  their results are arguments. A write half is a value of the type parameter \<open>'w\<close>.
\<close>

abbreviation (input) TCP_HW_MTU :: nat where "TCP_HW_MTU \<equiv> 262144"
abbreviation (input) READ_BUF_SIZE :: nat where "READ_BUF_SIZE \<equiv> 4096"

definition MAX_FRAME_SIZE :: nat where
  "MAX_FRAME_SIZE = TCP_HW_MTU + 64"

section \<open>The read loop\<close>

text \<open>The result of a read: the bytes it got, none of them when the peer closed, or an error.\<close>

datatype tcp_read = ReadBytes bytes | ReadError

text \<open>A read task: its decoder, the bytes of the last read that it has not yet fed to it, and
  whether it still runs.\<close>

record read_loop =
  rl_decoder :: kiss_decoder
  rl_buf :: bytes
  rl_running :: bool

definition spawn_read_loop :: read_loop where
  "spawn_read_loop = \<lparr> rl_decoder = kiss_new, rl_buf = [], rl_running = True \<rparr>"

text \<open>
  One pass of the \<open>select\<close> between the shutdown receiver and the read. The receiver is ready when
  its sender has sent or was dropped; \<open>first\<close> says which branch this pass polls first, and the read
  is \<open>None\<close> while no bytes have arrived.
\<close>

definition rl_select :: "bool \<Rightarrow> bool \<Rightarrow> tcp_read option \<Rightarrow> read_loop \<Rightarrow> read_loop" where
  "rl_select shutdown_ready first result rl =
     (if shutdown_ready \<and> (first \<or> result = None) then rl\<lparr>rl_running := False\<rparr>
      else case result of
          None \<Rightarrow> rl
        | Some (ReadBytes bs) \<Rightarrow> if bs = [] then rl\<lparr>rl_running := False\<rparr> else rl\<lparr>rl_buf := bs\<rparr>
        | Some ReadError \<Rightarrow> rl\<lparr>rl_running := False\<rparr>)"

text \<open>
  One iteration of the loop over the bytes read, on the frames in the channel. \<open>None\<close> is a task
  that waits for room in the channel; \<open>alive\<close> says that the receiver has not been dropped.
\<close>

definition rl_byte :: "bool \<Rightarrow> read_loop \<Rightarrow> bytes list \<Rightarrow> (read_loop \<times> bytes list) option" where
  "rl_byte alive rl rx = (case rl_buf rl of
       [] \<Rightarrow> Some (rl, rx)
     | byte # bs \<Rightarrow>
         (let (d, r) = kiss_feed (rl_decoder rl) byte;
              next = rl\<lparr>rl_decoder := d, rl_buf := bs\<rparr>
          in (case r of
                None \<Rightarrow> Some (next, rx)
              | Some f \<Rightarrow>
                  if MAX_FRAME_SIZE < length (kf_data f)
                  then Some (next\<lparr>rl_decoder := kiss_reset d\<rparr>, rx)
                  else if \<not> alive then Some (next\<lparr>rl_running := False\<rparr>, rx)
                  else if length rx < CHANNEL_CAPACITY then Some (next, rx @ [kf_data f])
                  else None)))"

section \<open>The client\<close>

record 'w tcp_client =
  tc_name :: string
  tc_host :: string
  tc_port :: u16
  tc_online :: bool
  tc_bitrate :: u64
  tc_writer :: "'w option"
  tc_rx :: "bytes list"          \<comment> \<open>frames in the channel\<close>
  tc_shutdown_tx :: bool         \<comment> \<open>the interface holds the shutdown sender\<close>
  tc_signal :: bool              \<comment> \<open>the shutdown signal was sent\<close>
  tc_task :: "read_loop option"  \<comment> \<open>the read task\<close>
  tc_stopping :: bool            \<comment> \<open>the caller waits for the read task in shutdown\<close>

definition tcp_client_new :: "string \<Rightarrow> string \<Rightarrow> u16 \<Rightarrow> 'w tcp_client" where
  "tcp_client_new name host port = \<lparr> tc_name = name, tc_host = host, tc_port = port,
     tc_online = False, tc_bitrate = 0, tc_writer = None, tc_rx = [], tc_shutdown_tx = False,
     tc_signal = False, tc_task = None, tc_stopping = False \<rparr>"

definition tcp_addr :: "string \<Rightarrow> u16 \<Rightarrow> string" where
  "tcp_addr host port = host @ '':'' @ show_nat (unat port)"

definition tcp_start ::
  "string + 'w \<Rightarrow> 'w tcp_client \<Rightarrow> 'w tcp_client \<times> (InterfaceError + unit)" where
  "tcp_start connect s =
     (if tc_online s then (s, Inl AlreadyOnline)
      else case connect of
          Inl e \<Rightarrow> (s, Inl (IfIo (''connect '' @ tcp_addr (tc_host s) (tc_port s) @ '': '' @ e)))
        | Inr write_half \<Rightarrow>
            (s\<lparr>tc_writer := Some write_half, tc_rx := [], tc_shutdown_tx := True,
               tc_signal := False, tc_task := Some spawn_read_loop, tc_online := True,
               tc_bitrate := 1000000000\<rparr>, Inr ()))"

text \<open>The channel is disconnected once the read task, which owns its only sender, has ended.\<close>

definition tcp_tx_alive :: "'w tcp_client \<Rightarrow> bool" where
  "tcp_tx_alive s = (case tc_task s of Some rl \<Rightarrow> rl_running rl | None \<Rightarrow> False)"

definition tcp_receive ::
  "'w tcp_client \<Rightarrow> 'w tcp_client \<times> (InterfaceError + bytes option)" where
  "tcp_receive s =
     (if \<not> tc_online s then (s, Inl NotOnline)
      else case tc_rx s of
          data # rest \<Rightarrow> (s\<lparr>tc_rx := rest\<rparr>, Inr (Some data))
        | [] \<Rightarrow> (s, if tcp_tx_alive s then Inr None else Inl ConnectionLost))"

text \<open>\<open>send\<close>; writing and flushing give the write half afterwards and the error, if any.\<close>

definition tcp_send ::
  "('w \<Rightarrow> bytes \<Rightarrow> 'w \<times> string option) \<Rightarrow> ('w \<Rightarrow> 'w \<times> string option) \<Rightarrow> bytes \<Rightarrow>
     'w tcp_client \<Rightarrow> 'w tcp_client \<times> (InterfaceError + unit)" where
  "tcp_send write_all flush data s =
     (if \<not> tc_online s then (s, Inl NotOnline)
      else let frame = kiss_encode data in
        case tc_writer s of
          None \<Rightarrow> (s, Inl ConnectionLost)
        | Some w \<Rightarrow>
            (case write_all w frame of
               (w, Some e) \<Rightarrow> (s\<lparr>tc_writer := Some w\<rparr>, Inl (IfIo (''write: '' @ e)))
             | (w, None) \<Rightarrow>
                 (case flush w of
                    (w, Some e) \<Rightarrow> (s\<lparr>tc_writer := Some w\<rparr>, Inl (IfIo (''flush: '' @ e)))
                  | (w, None) \<Rightarrow> (s\<lparr>tc_writer := Some w\<rparr>, Inr ()))))"

text \<open>\<open>shutdown\<close> up to the point where it waits for the read task, and from there on.\<close>

definition tcp_shutdown :: "'w tcp_client \<Rightarrow> 'w tcp_client \<times> (InterfaceError + unit)" where
  "tcp_shutdown s =
     (if \<not> tc_online s then (s, Inl NotOnline)
      else (s\<lparr>tc_signal := tc_signal s \<or> tc_shutdown_tx s, tc_shutdown_tx := False,
              tc_stopping := True\<rparr>, Inr ()))"

definition tcp_shutdown_joined :: "'w tcp_client \<Rightarrow> 'w tcp_client" where
  "tcp_shutdown_joined s = s\<lparr>tc_task := None, tc_rx := [], tc_writer := None,
     tc_online := False, tc_stopping := False\<rparr>"

text \<open>The steps of the read task on the client.\<close>

definition tcp_poll :: "bool \<Rightarrow> tcp_read option \<Rightarrow> 'w tcp_client \<Rightarrow> 'w tcp_client" where
  "tcp_poll first result s =
     s\<lparr>tc_task := map_option (rl_select (tc_signal s \<or> \<not> tc_shutdown_tx s) first result) (tc_task s)\<rparr>"

definition tcp_byte :: "'w tcp_client \<Rightarrow> 'w tcp_client option" where
  "tcp_byte s = (case tc_task s of
       None \<Rightarrow> None
     | Some rl \<Rightarrow> map_option (\<lambda>(rl', rx). s\<lparr>tc_task := Some rl', tc_rx := rx\<rparr>) (rl_byte True rl (tc_rx s)))"

text \<open>
  The interleavings of the caller and the read task. Every method takes the interface for itself,
  so the caller can do nothing else while it waits in \<open>shutdown\<close>.
\<close>

inductive tcp_step :: "'w tcp_client \<Rightarrow> 'w tcp_client \<Rightarrow> bool" where
  start: "\<not> tc_stopping s \<Longrightarrow> tcp_step s (fst (tcp_start c s))"
| receive: "\<not> tc_stopping s \<Longrightarrow> tcp_step s (fst (tcp_receive s))"
| send: "\<not> tc_stopping s \<Longrightarrow> tcp_step s (fst (tcp_send w f data s))"
| shutdown: "\<not> tc_stopping s \<Longrightarrow> tcp_step s (fst (tcp_shutdown s))"
| joined: "tc_stopping s \<Longrightarrow> \<not> tcp_tx_alive s \<Longrightarrow> tcp_step s (tcp_shutdown_joined s)"
| poll: "tc_task s = Some rl \<Longrightarrow> rl_running rl \<Longrightarrow> rl_buf rl = [] \<Longrightarrow>
    (\<forall>bs. r = Some (ReadBytes bs) \<longrightarrow> length bs \<le> READ_BUF_SIZE) \<Longrightarrow> tcp_step s (tcp_poll first r s)"
| byte: "tc_task s = Some rl \<Longrightarrow> rl_running rl \<Longrightarrow> rl_buf rl \<noteq> [] \<Longrightarrow> tcp_byte s = Some t \<Longrightarrow>
    tcp_step s t"

inductive_cases tcp_stepE: "tcp_step s t"

text \<open>
  A session of a started client: the bytes its reads have got from the peer so far, in order, and
  the frames its caller has received.
\<close>

inductive tcp_session :: "'w tcp_client \<Rightarrow> bytes \<Rightarrow> bytes list \<Rightarrow> 'w tcp_client \<Rightarrow> bool" for s where
  opened: "tcp_session s [] [] s"
| received: "tcp_session s bs fs t \<Longrightarrow> tcp_receive t = (t', Inr (Some f)) \<Longrightarrow> tcp_session s bs (fs @ [f]) t'"
| nothing: "tcp_session s bs fs t \<Longrightarrow> tcp_receive t = (t', Inr None) \<Longrightarrow> tcp_session s bs fs t'"
| sent: "tcp_session s bs fs t \<Longrightarrow> tcp_session s bs fs (fst (tcp_send w f data t))"
| read: "tcp_session s bs fs t \<Longrightarrow> tc_task t = Some rl \<Longrightarrow> rl_running rl \<Longrightarrow> rl_buf rl = [] \<Longrightarrow>
    length r \<le> READ_BUF_SIZE \<Longrightarrow> tcp_session s (bs @ r) fs (tcp_poll first (Some (ReadBytes r)) t)"
| decoded: "tcp_session s bs fs t \<Longrightarrow> tc_task t = Some rl \<Longrightarrow> rl_running rl \<Longrightarrow> rl_buf rl \<noteq> [] \<Longrightarrow>
    tcp_byte t = Some t' \<Longrightarrow> tcp_session s bs fs t'"

section \<open>The server\<close>

text \<open>
  The accept task holds a sender of the channel until it has ended, and each read task holds one
  while it runs. The map of peers of the code is created empty and never filled.
\<close>

record tcp_server =
  ts_name :: string
  ts_host :: string
  ts_port :: u16
  ts_online :: bool
  ts_bitrate :: u64
  ts_rx :: "bytes list"
  ts_broadcast_tx :: bool
  ts_shutdown_tx :: bool
  ts_signal :: bool
  ts_accept_task :: bool          \<comment> \<open>the accept task exists and has not ended\<close>
  ts_accepting :: bool            \<comment> \<open>it is in its loop, not yet waiting for the readers\<close>
  ts_readers :: "read_loop list"  \<comment> \<open>the read tasks it has started\<close>
  ts_stopping :: bool

definition tcp_server_new :: "string \<Rightarrow> string \<Rightarrow> u16 \<Rightarrow> tcp_server" where
  "tcp_server_new name host port = \<lparr> ts_name = name, ts_host = host, ts_port = port,
     ts_online = False, ts_bitrate = 0, ts_rx = [], ts_broadcast_tx = False,
     ts_shutdown_tx = False, ts_signal = False, ts_accept_task = False, ts_accepting = False,
     ts_readers = [], ts_stopping = False \<rparr>"

definition server_start :: "string option \<Rightarrow> tcp_server \<Rightarrow> tcp_server \<times> (InterfaceError + unit)" where
  "server_start bind_error s =
     (if ts_online s then (s, Inl AlreadyOnline)
      else case bind_error of
          Some e \<Rightarrow> (s, Inl (IfIo (''bind '' @ tcp_addr (ts_host s) (ts_port s) @ '': '' @ e)))
        | None \<Rightarrow>
            (s\<lparr>ts_rx := [], ts_broadcast_tx := True, ts_shutdown_tx := True, ts_signal := False,
               ts_accept_task := True, ts_accepting := True, ts_readers := [], ts_online := True,
               ts_bitrate := 1000000000\<rparr>, Inr ()))"

text \<open>
  One pass of the accept loop; \<open>accepted\<close> is \<open>None\<close> while no connection is waiting. The shutdown
  sender made for a connection is dropped at the end of the pass that accepted it.
\<close>

definition server_accept :: "bool \<Rightarrow> (string + unit) option \<Rightarrow> tcp_server \<Rightarrow> tcp_server" where
  "server_accept first accepted s =
     (if (ts_signal s \<or> \<not> ts_shutdown_tx s) \<and> (first \<or> accepted = None)
      then s\<lparr>ts_accepting := False\<rparr>
      else case accepted of
          None \<Rightarrow> s
        | Some (Inr _) \<Rightarrow> s\<lparr>ts_readers := ts_readers s @ [spawn_read_loop]\<rparr>
        | Some (Inl _) \<Rightarrow> s\<lparr>ts_accepting := False\<rparr>)"

text \<open>The end of the accept task, once all read tasks have ended.\<close>

definition server_accept_end :: "tcp_server \<Rightarrow> tcp_server" where
  "server_accept_end s = s\<lparr>ts_accept_task := False\<rparr>"

text \<open>The steps of a read task of the server; its shutdown receiver is ready from the start.\<close>

definition server_poll :: "nat \<Rightarrow> bool \<Rightarrow> tcp_read option \<Rightarrow> tcp_server \<Rightarrow> tcp_server" where
  "server_poll i first result s =
     s\<lparr>ts_readers := (ts_readers s)[i := rl_select True first result (ts_readers s ! i)]\<rparr>"

definition server_byte :: "nat \<Rightarrow> tcp_server \<Rightarrow> tcp_server option" where
  "server_byte i s =
     map_option (\<lambda>(rl, rx). s\<lparr>ts_readers := (ts_readers s)[i := rl], ts_rx := rx\<rparr>)
       (rl_byte True (ts_readers s ! i) (ts_rx s))"

definition server_shutdown :: "tcp_server \<Rightarrow> tcp_server \<times> (InterfaceError + unit)" where
  "server_shutdown s =
     (if \<not> ts_online s then (s, Inl NotOnline)
      else (s\<lparr>ts_signal := ts_signal s \<or> ts_shutdown_tx s, ts_shutdown_tx := False,
              ts_stopping := True\<rparr>, Inr ()))"

definition server_shutdown_joined :: "tcp_server \<Rightarrow> tcp_server" where
  "server_shutdown_joined s = s\<lparr>ts_rx := [], ts_online := False, ts_stopping := False\<rparr>"

definition server_receive :: "tcp_server \<Rightarrow> tcp_server \<times> (InterfaceError + bytes option)" where
  "server_receive s =
     (if \<not> ts_online s then (s, Inl NotOnline)
      else case ts_rx s of
          data # rest \<Rightarrow> (s\<lparr>ts_rx := rest\<rparr>, Inr (Some data))
        | [] \<Rightarrow> (s, if ts_accept_task s \<or> list_ex rl_running (ts_readers s)
                  then Inr None else Inl ConnectionLost))"

definition server_send :: "bytes \<Rightarrow> tcp_server \<Rightarrow> tcp_server \<times> (InterfaceError + unit)" where
  "server_send data s = (s, if \<not> ts_online s then Inl NotOnline else Inr ())"

inductive server_step :: "tcp_server \<Rightarrow> tcp_server \<Rightarrow> bool" where
  start: "\<not> ts_stopping s \<Longrightarrow> server_step s (fst (server_start e s))"
| receive: "\<not> ts_stopping s \<Longrightarrow> server_step s (fst (server_receive s))"
| send: "\<not> ts_stopping s \<Longrightarrow> server_step s (fst (server_send data s))"
| shutdown: "\<not> ts_stopping s \<Longrightarrow> server_step s (fst (server_shutdown s))"
| joined: "ts_stopping s \<Longrightarrow> \<not> ts_accept_task s \<Longrightarrow> server_step s (server_shutdown_joined s)"
| accept: "ts_accept_task s \<Longrightarrow> ts_accepting s \<Longrightarrow> server_step s (server_accept first a s)"
| accept_end: "ts_accept_task s \<Longrightarrow> \<not> ts_accepting s \<Longrightarrow> \<not> list_ex rl_running (ts_readers s) \<Longrightarrow>
    server_step s (server_accept_end s)"
| poll: "i < length (ts_readers s) \<Longrightarrow> rl_running (ts_readers s ! i) \<Longrightarrow> rl_buf (ts_readers s ! i) = [] \<Longrightarrow>
    (\<forall>bs. r = Some (ReadBytes bs) \<longrightarrow> length bs \<le> READ_BUF_SIZE) \<Longrightarrow> server_step s (server_poll i first r s)"
| byte: "i < length (ts_readers s) \<Longrightarrow> rl_running (ts_readers s ! i) \<Longrightarrow> rl_buf (ts_readers s ! i) \<noteq> [] \<Longrightarrow>
    server_byte i s = Some t \<Longrightarrow> server_step s t"

inductive_cases server_stepE: "server_step s t"

section \<open>What a session receives\<close>

text \<open>The frames that a decoder in a given state passes on from a stream of bytes.\<close>

definition passed :: "kiss_decoder \<Rightarrow> bytes \<Rightarrow> bytes list" where
  "passed d bs = filter (\<lambda>f. length f \<le> MAX_FRAME_SIZE) (map kf_data (snd (feed_all kiss_feed d bs)))"

text \<open>The reset after an oversized frame changes nothing: the decoder is outside a frame already.\<close>

lemma kiss_reset_after_frame:
  "kiss_feed d b = (d', Some f) \<Longrightarrow> kiss_reset d' = d'"
  by (auto simp: kiss_feed_def kiss_reset_def split: if_splits option.splits)

lemma passed_simps:
  "passed d [] = []"
  "passed d (b # bs) = (case kiss_feed d b of
     (d', None) \<Rightarrow> passed d' bs
   | (d', Some f) \<Rightarrow> (if length (kf_data f) \<le> MAX_FRAME_SIZE then [kf_data f] else []) @ passed d' bs)"
  by (auto simp: passed_def Let_def split: prod.splits option.splits)

lemma rl_byte_passed:
  assumes "rl_byte True rl rx = Some (rl', rx')"
  shows "rx' @ passed (rl_decoder rl') (rl_buf rl') = rx @ passed (rl_decoder rl) (rl_buf rl)"
  using assms kiss_reset_after_frame
  by (auto simp: rl_byte_def passed_simps Let_def split: list.splits prod.splits option.splits if_splits)

definition tcp_left :: "'w tcp_client \<Rightarrow> bytes list" where
  "tcp_left s = (case tc_task s of None \<Rightarrow> [] | Some rl \<Rightarrow> passed (rl_decoder rl) (rl_buf rl))"

lemma feed_all_state_append:
  "fst (feed_all feed d (xs @ ys)) = fst (feed_all feed (fst (feed_all feed d xs)) ys)"
  by (simp add: feed_all_append split: prod.splits)

lemma passed_append: "passed d (xs @ ys) = passed d xs @ passed (fst (feed_all kiss_feed d xs)) ys"
  by (simp add: passed_def feed_all_append split: prod.splits)

lemma rl_byte_state:
  assumes "rl_byte True rl rx = Some (rl', rx')"
  shows "fst (feed_all kiss_feed (rl_decoder rl') (rl_buf rl')) = fst (feed_all kiss_feed (rl_decoder rl) (rl_buf rl))"
  using assms kiss_reset_after_frame
  by (auto simp: rl_byte_def Let_def split: list.splits prod.splits option.splits if_splits)

text \<open>What the caller got, what is in the channel and what is still to be decoded are together the
  frames of all bytes read.\<close>

lemma tcp_session_frames:
  assumes "tcp_session s bs fs t" and "fst (tcp_start (Inr w) s0) = s" and "\<not> tc_online s0"
  shows "fs @ tc_rx t @ tcp_left t = passed kiss_new bs"
    and "\<exists>rl. tc_task t = Some rl \<and> tc_shutdown_tx t \<and> \<not> tc_signal t \<and>
      fst (feed_all kiss_feed (rl_decoder rl) (rl_buf rl)) = fst (feed_all kiss_feed kiss_new bs)"
  using assms
proof (induction rule: tcp_session.induct)
  case opened
  { case 1 then show ?case by (auto simp: tcp_start_def tcp_left_def spawn_read_loop_def passed_simps) }
  { case 2 then show ?case by (auto simp: tcp_start_def spawn_read_loop_def) }
next
  case (received bs fs t t' f)
  { case 1 then show ?case using received by (auto simp: tcp_receive_def tcp_left_def split: if_splits list.splits) }
  { case 2 then show ?case using received by (auto simp: tcp_receive_def split: if_splits list.splits) }
next
  case (nothing bs fs t t')
  then have "t' = t" by (auto simp: tcp_receive_def split: if_splits list.splits)
  { case 1 then show ?case using nothing.IH(1) \<open>t' = t\<close> by simp }
  { case 2 then show ?case using nothing.IH(2) \<open>t' = t\<close> by simp }
next
  case (sent bs fs t w f data)
  { case 1 then show ?case using sent by (auto simp: tcp_send_def tcp_left_def Let_def split: option.splits prod.splits) }
  { case 2 then show ?case using sent by (auto simp: tcp_send_def Let_def split: option.splits prod.splits) }
next
  case (read bs fs t rl r first)
  { case 1 then show ?case using read
      by (auto simp: tcp_poll_def tcp_left_def rl_select_def passed_append passed_simps) }
  { case 2 then show ?case using read by (auto simp: tcp_poll_def rl_select_def feed_all_state_append) }
next
  case (decoded bs fs t rl t')
  { case 1 then show ?case using decoded rl_byte_passed by (fastforce simp: tcp_byte_def tcp_left_def) }
  { case 2 then show ?case using decoded rl_byte_state by (fastforce simp: tcp_byte_def) }
qed

text \<open>While the channel has room, the task decodes what it has read.\<close>

definition tcp_decode :: "'w tcp_client \<Rightarrow> 'w tcp_client \<Rightarrow> bool" where
  "tcp_decode s t \<longleftrightarrow> (\<exists>rl. tc_task s = Some rl \<and> rl_running rl \<and> rl_buf rl \<noteq> [] \<and> tcp_byte s = Some t)"

lemma tcp_decodes:
  assumes "tc_task s = Some rl" "rl_running rl" "rl_buf rl = xs @ ys"
    and "length (tc_rx s) + length (passed (rl_decoder rl) xs) \<le> CHANNEL_CAPACITY"
  shows "tcp_decode\<^sup>*\<^sup>* s (s\<lparr>tc_task := Some (rl\<lparr>rl_decoder := fst (feed_all kiss_feed (rl_decoder rl) xs), rl_buf := ys\<rparr>),
    tc_rx := tc_rx s @ passed (rl_decoder rl) xs\<rparr>)"
  using assms
proof (induction xs arbitrary: s rl)
  case Nil
  then have "s\<lparr>tc_task := Some (rl\<lparr>rl_decoder := rl_decoder rl, rl_buf := ys\<rparr>), tc_rx := tc_rx s\<rparr> = s"
    by (cases s; cases rl) simp
  then show ?case by (simp add: passed_simps)
next
  case (Cons x xs)
  obtain d r where k: "kiss_feed (rl_decoder rl) x = (d, r)" by (cases "kiss_feed (rl_decoder rl) x")
  let ?rl = "rl\<lparr>rl_decoder := d, rl_buf := xs @ ys\<rparr>"
  let ?rx = "tc_rx s @ passed (rl_decoder rl) [x]"
  let ?s = "s\<lparr>tc_task := Some ?rl, tc_rx := ?rx\<rparr>"
  have p: "passed (rl_decoder rl) (x # xs) = passed (rl_decoder rl) [x] @ passed d xs"
    by (simp add: passed_simps k split: option.splits)
  have "rl_byte True rl (tc_rx s) = Some (?rl, ?rx)"
    using Cons.prems(3,4) kiss_reset_after_frame [of "rl_decoder rl" x d]
    by (auto simp: rl_byte_def passed_simps k split: option.splits if_splits)
  then have "tcp_decode s ?s" using Cons.prems by (simp add: tcp_decode_def tcp_byte_def)
  moreover have "tcp_decode\<^sup>*\<^sup>* ?s (?s\<lparr>tc_task := Some (?rl\<lparr>rl_decoder := fst (feed_all kiss_feed (rl_decoder ?rl) xs), rl_buf := ys\<rparr>),
    tc_rx := tc_rx ?s @ passed (rl_decoder ?rl) xs\<rparr>)"
    by (rule Cons.IH) (use Cons.prems p in simp_all)
  moreover have "fst (feed_all kiss_feed (rl_decoder rl) (x # xs)) = fst (feed_all kiss_feed d xs)"
    by (simp add: k split: prod.splits)
  ultimately show ?case by (simp add: p converse_rtranclp_into_rtranclp del: feed_all.simps)
qed

lemma tcp_decode_step: "tcp_decode\<^sup>*\<^sup>* s t \<Longrightarrow> tcp_step\<^sup>*\<^sup>* s t"
  by (erule rtranclp_mono [THEN predicate2D, rotated]) (auto simp: tcp_decode_def intro: tcp_step.byte)

lemma tcp_decode_session: "tcp_decode\<^sup>*\<^sup>* t t' \<Longrightarrow> tcp_session s bs fs t \<Longrightarrow> tcp_session s bs fs t'"
  by (induction rule: rtranclp_induct) (auto simp: tcp_decode_def intro: tcp_session.decoded)

lemma passed_kiss_encodings:
  assumes "\<forall>p\<in>set ps. length p \<le> MAX_FRAME_SIZE"
  shows "passed kiss_new (concat (map kiss_encode ps)) = ps"
  using assms by (simp add: passed_def kiss_data_stream kiss_new_def comp_def)

lemma tcp_sends_append:
  assumes "tc_online a" and "tc_writer a = Some w"
  shows "tc_writer (fold (\<lambda>p s. fst (tcp_send (\<lambda>w b. (w @ b, None)) (\<lambda>w. (w, None)) p s)) ps a) =
    Some (w @ concat (map kiss_encode ps))"
  using assms by (induction ps arbitrary: a w) (simp_all add: tcp_send_def)

text \<open>C10. 
  Packets sent over TCP arrive: if one client sends packets of up to \<open>MAX_FRAME_SIZE\<close> bytes over a
  connection, then at any moment the other client has received a prefix of them, however the stream
  was cut into reads and however receiving and reading interleave; and it has received all of them
  once all bytes have been read and decoded and its channel is empty.
\<close>

theorem tcp_end_to_end:
  assumes "tc_online a" and "tc_writer a = Some []"
    and "tc_writer (fold (\<lambda>p s. fst (tcp_send (\<lambda>w b. (w @ b, None)) (\<lambda>w. (w, None)) p s)) ps a) = Some stream"
    and "\<forall>p\<in>set ps. length p \<le> MAX_FRAME_SIZE"
    and "\<not> tc_online s0" and "tcp_session (fst (tcp_start (Inr w) s0)) bs fs t" and "prefix bs stream"
  shows "prefix fs ps \<and> (bs = stream \<longrightarrow> tc_rx t = [] \<longrightarrow> tcp_left t = [] \<longrightarrow> fs = ps)"
proof -
  have ps: "passed kiss_new stream = ps"
    using assms(3) tcp_sends_append [OF assms(1,2), of ps] passed_kiss_encodings [OF assms(4)] by simp
  have fr: "fs @ tc_rx t @ tcp_left t = passed kiss_new bs"
    using tcp_session_frames(1) [OF assms(6)] assms(5) by simp
  obtain rest where "stream = bs @ rest" using assms(7) by (auto simp: prefix_def)
  then have "ps = (fs @ tc_rx t @ tcp_left t) @ passed (fst (feed_all kiss_feed kiss_new bs)) rest"
    using ps fr passed_append by metis
  then have "prefix fs ps" by (auto simp: prefix_def)
  then show ?thesis using ps fr by auto
qed

text \<open>A session that reads one packet in one go and receives it.\<close>

lemma demo_session:
  fixes s0 :: "unit tcp_client"
  assumes "\<not> tc_online s0"
  defines "s \<equiv> fst (tcp_start (Inr ()) s0)"
  shows "\<exists>t. tcp_session s (kiss_encode [1, 0xC0]) [[1, 0xC0]] t \<and> tc_rx t = [] \<and> tcp_left t = []"
proof -
  let ?bs = "kiss_encode [1, 0xC0]" and ?rl = "spawn_read_loop\<lparr>rl_buf := kiss_encode [1, 0xC0]\<rparr>"
  let ?d = "fst (feed_all kiss_feed kiss_new ?bs)"
  have s: "tc_task s = Some spawn_read_loop" "tc_shutdown_tx s" "\<not> tc_signal s" "tc_rx s = []" "tc_online s"
    using assms by (simp_all add: tcp_start_def)
  have p: "passed kiss_new ?bs = [[1, 0xC0]]"
    using passed_kiss_encodings [of "[[1, 0xC0]]"] by (simp add: MAX_FRAME_SIZE_def)
  have "tcp_session s ([] @ ?bs) [] (tcp_poll True (Some (ReadBytes ?bs)) s)"
    by (rule tcp_session.read [OF tcp_session.opened s(1)]) (simp_all add: spawn_read_loop_def kiss_encode_def)
  moreover have "tcp_poll True (Some (ReadBytes ?bs)) s = s\<lparr>tc_task := Some ?rl\<rparr>"
    by (simp add: tcp_poll_def s rl_select_def kiss_encode_def)
  moreover have "tcp_decode\<^sup>*\<^sup>* (s\<lparr>tc_task := Some ?rl\<rparr>)
      (s\<lparr>tc_task := Some (?rl\<lparr>rl_decoder := ?d, rl_buf := []\<rparr>), tc_rx := [[1, 0xC0]]\<rparr>)"
    using tcp_decodes [of "s\<lparr>tc_task := Some ?rl\<rparr>" ?rl ?bs "[]"] by (simp add: spawn_read_loop_def s p)
  ultimately have "tcp_session s ?bs [] (s\<lparr>tc_task := Some (?rl\<lparr>rl_decoder := ?d, rl_buf := []\<rparr>), tc_rx := [[1, 0xC0]]\<rparr>)"
    using tcp_decode_session by fastforce
  from tcp_session.received [OF this] show ?thesis
    by (fastforce simp: tcp_receive_def s tcp_left_def passed_simps)
qed

theorem tcp_end_to_end_witness:
  "\<exists>t. tcp_session (fst (tcp_start (Inr ()) (tcp_client_new [] [] 0 :: unit tcp_client)))
      (kiss_encode [1, 0xC0]) [[1, 0xC0]] t \<and> prefix [[1, 0xC0 :: u8]] [[1, 0xC0]]"
proof -
  let ?s0 = "tcp_client_new [] [] 0 :: unit tcp_client"
  let ?a = "fst (tcp_start (Inr []) (tcp_client_new [] [] 0)) :: bytes tcp_client"
  have off: "\<not> tc_online ?s0" by (simp add: tcp_client_new_def)
  obtain t where t: "tcp_session (fst (tcp_start (Inr ()) ?s0)) (kiss_encode [1, 0xC0]) [[1, 0xC0]] t"
    using demo_session [OF off] by blast
  have a: "tc_online ?a" "tc_writer ?a = Some []" by (simp_all add: tcp_start_def tcp_client_new_def)
  have "prefix [[1, 0xC0 :: u8]] [[1, 0xC0]]"
    using tcp_end_to_end [OF a, of "[[1, 0xC0]]" _ ?s0 "()" _ "[[1, 0xC0]]" t, OF _ _ off t] tcp_sends_append [OF a]
    by (simp add: MAX_FRAME_SIZE_def)
  with t show ?thesis by blast
qed

section \<open>Shutting down\<close>

text \<open>Between two reads the task answers the signal, and shutting down leaves the client as it was
  before it started.\<close>

lemma tcp_shutdown_returns:
  assumes "tc_online s" "\<not> tc_stopping s" "tc_task s = Some rl" "rl_running rl" "rl_buf rl = []"
  shows "\<exists>t. tcp_step\<^sup>*\<^sup>* (fst (tcp_shutdown s)) t \<and> \<not> tc_online t \<and> \<not> tc_stopping t \<and> tc_rx t = [] \<and> tc_writer t = None"
proof -
  let ?s = "fst (tcp_shutdown s)"
  let ?t = "tcp_poll True None ?s"
  have s: "?s = s\<lparr>tc_signal := tc_signal s \<or> tc_shutdown_tx s, tc_shutdown_tx := False, tc_stopping := True\<rparr>"
    using assms(1) by (simp add: tcp_shutdown_def)
  have "tcp_step ?s ?t" by (rule tcp_step.poll [of _ rl]) (simp_all add: s assms)
  moreover have "tcp_step ?t (tcp_shutdown_joined ?t)"
    by (rule tcp_step.joined) (simp_all add: s tcp_poll_def assms rl_select_def tcp_tx_alive_def)
  ultimately have "tcp_step\<^sup>*\<^sup>* ?s (tcp_shutdown_joined ?t)" by simp
  then show ?thesis by (intro exI [of _ "tcp_shutdown_joined ?t"]) (simp add: tcp_shutdown_joined_def)
qed

lemma feed_empty_frames:
  "feed_all kiss_feed kiss_new (concat (replicate n (kiss_encode []))) =
     (kiss_new, replicate n \<lparr> kf_command = CMD_DATA, kf_data = [] \<rparr>)"
proof (induction n)
  case (Suc n)
  have "feed_all kiss_feed kiss_new (kiss_encode []) = (kiss_new, [\<lparr> kf_command = CMD_DATA, kf_data = [] \<rparr>])"
    by (simp add: kiss_encode_def kiss_feed_def kiss_new_def)
  with Suc show ?case by (simp add: feed_all_append)
qed simp

lemma passed_empty_frames: "passed kiss_new (concat (replicate n (kiss_encode []))) = replicate n []"
  by (simp add: passed_def feed_empty_frames MAX_FRAME_SIZE_def)

text \<open>A client that waits in \<open>shutdown\<close> for a task that waits for room in the full channel.\<close>

definition tcp_stuck :: "'w tcp_client \<Rightarrow> bool" where
  "tcp_stuck s \<longleftrightarrow> tc_online s \<and> tc_stopping s \<and> length (tc_rx s) = CHANNEL_CAPACITY \<and>
     (\<exists>rl. tc_task s = Some rl \<and> rl_running rl \<and> rl_buf rl \<noteq> [] \<and> rl_byte True rl (tc_rx s) = None)"

lemma tcp_stuck_no_step: "tcp_stuck s \<Longrightarrow> \<not> tcp_step s t"
  by (auto simp: tcp_stuck_def tcp_tx_alive_def tcp_byte_def elim!: tcp_stepE)

lemma rl_byte_rx: "rl_byte a rl rx = Some (rl', rx') \<Longrightarrow> length rx \<le> CHANNEL_CAPACITY \<Longrightarrow> length rx' \<le> CHANNEL_CAPACITY"
  by (auto simp: rl_byte_def Let_def split: list.splits prod.splits option.splits if_splits)

lemma rl_byte_running: "rl_byte True rl rx = Some (rl', rx') \<Longrightarrow> rl_running rl' = rl_running rl"
  by (auto simp: rl_byte_def Let_def split: list.splits prod.splits option.splits if_splits)

lemma rl_byte_shorter: "rl_byte True rl rx = Some (rl', rx') \<Longrightarrow> rl_buf rl \<noteq> [] \<Longrightarrow> length (rl_buf rl') < length (rl_buf rl)"
  by (auto simp: rl_byte_def Let_def split: list.splits prod.splits option.splits if_splits)

text \<open>During a session the client is online, its channel keeps its bound, and the task ends only when it
  has fed all it has read.\<close>

lemma tcp_session_open:
  assumes "tcp_session s bs fs t" and "fst (tcp_start (Inr w) s0) = s" and "\<not> tc_online s0" and "\<not> tc_stopping s0"
  shows "tc_online t \<and> \<not> tc_stopping t \<and> length (tc_rx t) \<le> CHANNEL_CAPACITY \<and>
    (\<forall>rl. tc_task t = Some rl \<longrightarrow> rl_buf rl \<noteq> [] \<longrightarrow> rl_running rl)"
  using assms
proof (induction rule: tcp_session.induct)
  case (decoded bs fs t rl t')
  then show ?case using rl_byte_rx rl_byte_running by (fastforce simp: tcp_byte_def)
next
  case (read bs fs t rl r first)
  then show ?case by (auto simp: tcp_poll_def rl_select_def)
qed (auto simp: tcp_start_def spawn_read_loop_def tcp_receive_def tcp_send_def Let_def
    split: if_splits list.splits option.splits prod.splits)

text \<open>The caller waits for a task that has more frames to hand over than the channel holds.\<close>

definition tcp_doomed :: "'w tcp_client \<Rightarrow> bool" where
  "tcp_doomed s \<longleftrightarrow> tc_online s \<and> tc_stopping s \<and> length (tc_rx s) \<le> CHANNEL_CAPACITY \<and>
     (\<exists>rl. tc_task s = Some rl \<and> rl_running rl \<and>
        CHANNEL_CAPACITY < length (tc_rx s) + length (passed (rl_decoder rl) (rl_buf rl)))"

lemma tcp_doomed_step:
  assumes "tcp_step s t" and "tcp_doomed s"
  shows "tcp_doomed t \<and> tcp_byte s = Some t"
proof -
  obtain rl where rl: "tc_task s = Some rl" "rl_running rl" "rl_buf rl \<noteq> []"
    "CHANNEL_CAPACITY < length (tc_rx s) + length (passed (rl_decoder rl) (rl_buf rl))"
    and s: "tc_online s" "tc_stopping s" "length (tc_rx s) \<le> CHANNEL_CAPACITY"
    using assms(2) by (fastforce simp: tcp_doomed_def passed_simps)
  then have b: "tcp_byte s = Some t" using assms(1) by (auto simp: tcp_tx_alive_def elim!: tcp_stepE)
  then obtain rl' rx' where r: "rl_byte True rl (tc_rx s) = Some (rl', rx')" and t: "t = s\<lparr>tc_task := Some rl', tc_rx := rx'\<rparr>"
    by (auto simp: tcp_byte_def rl)
  have "rx' @ passed (rl_decoder rl') (rl_buf rl') = tc_rx s @ passed (rl_decoder rl) (rl_buf rl)"
    using rl_byte_passed [OF r] by simp
  then have "length rx' + length (passed (rl_decoder rl') (rl_buf rl')) =
      length (tc_rx s) + length (passed (rl_decoder rl) (rl_buf rl))"
    by (metis length_append)
  then show ?thesis using rl s b rl_byte_rx [OF r] rl_byte_running [OF r] by (simp add: tcp_doomed_def t)
qed

lemma tcp_doomed_steps: "tcp_step\<^sup>*\<^sup>* s t \<Longrightarrow> tcp_doomed s \<Longrightarrow> tcp_doomed t"
  by (induction rule: rtranclp_induct) (auto dest: tcp_doomed_step)

lemma tcp_doomed_stuck: "tcp_doomed s \<Longrightarrow> \<exists>t. tcp_step\<^sup>*\<^sup>* s t \<and> tcp_stuck t"
proof (induction "length (rl_buf (the (tc_task s)))" arbitrary: s rule: less_induct)
  case less
  obtain rl where rl: "tc_task s = Some rl" "rl_running rl" "rl_buf rl \<noteq> []"
    "CHANNEL_CAPACITY < length (tc_rx s) + length (passed (rl_decoder rl) (rl_buf rl))"
    and s: "tc_online s" "tc_stopping s" "length (tc_rx s) \<le> CHANNEL_CAPACITY"
    using less.prems by (fastforce simp: tcp_doomed_def passed_simps)
  show ?case
  proof (cases "rl_byte True rl (tc_rx s)")
    case None
    then have "length (tc_rx s) = CHANNEL_CAPACITY"
      using s(3) by (auto simp: rl_byte_def Let_def split: list.splits prod.splits option.splits if_splits)
    then have "tcp_stuck s" using rl s None by (simp add: tcp_stuck_def)
    then show ?thesis by blast
  next
    case (Some x)
    then obtain rl' rx' where r: "rl_byte True rl (tc_rx s) = Some (rl', rx')" by (cases x) auto
    let ?t = "s\<lparr>tc_task := Some rl', tc_rx := rx'\<rparr>"
    have b: "tcp_step s ?t" by (rule tcp_step.byte [OF rl(1,2,3)]) (simp add: tcp_byte_def rl(1) r)
    then have "tcp_doomed ?t" using tcp_doomed_step less.prems by blast
    then obtain t where "tcp_step\<^sup>*\<^sup>* ?t t" "tcp_stuck t"
      using less.hyps [of ?t] rl_byte_shorter [OF r rl(3)] rl(1) by auto
    then show ?thesis using b converse_rtranclp_into_rtranclp by metis
  qed
qed

text \<open>C37. 
  Shutting a TCP client down can hang for ever. The read task hands decoded frames to a channel
  of 256 places and looks at the shutdown signal only between reads, while the caller waits in
  \<open>shutdown\<close> for the task to end before it drains the channel. So once the bytes a client has read carry
  more than 256 frames that were not fetched, \<open>shutdown\<close> never returns: whatever happens after the
  call, the caller still waits and the client counts as online, and it all ends in a state in which the channel
  is full, the task waits for room in it, and nothing can happen any more.
\<close>

theorem tcp_shutdown_hangs:
  assumes "\<not> tc_online s0" and "\<not> tc_stopping s0" and "tcp_session (fst (tcp_start (Inr w) s0)) bs fs t"
    and "length fs + CHANNEL_CAPACITY < length (passed kiss_new bs)" and "tcp_step\<^sup>*\<^sup>* (fst (tcp_shutdown t)) u"
  shows "tc_online u \<and> tc_stopping u \<and> (\<exists>v. tcp_step\<^sup>*\<^sup>* u v \<and> tcp_stuck v \<and> (\<nexists>x. tcp_step v x))"
proof -
  note o = tcp_session_open [OF assms(3) refl assms(1,2)]
  note f = tcp_session_frames [OF assms(3) refl assms(1)]
  obtain rl where rl: "tc_task t = Some rl" using f(2) by blast
  have "length fs + (length (tc_rx t) + length (passed (rl_decoder rl) (rl_buf rl))) = length (passed kiss_new bs)"
    using f(1) [symmetric] by (simp add: tcp_left_def rl)
  then have n: "CHANNEL_CAPACITY < length (tc_rx t) + length (passed (rl_decoder rl) (rl_buf rl))" using assms(4) by simp
  then have "rl_buf rl \<noteq> []" using o by (auto simp: passed_simps)
  then have "tcp_doomed (fst (tcp_shutdown t))" using o n by (simp add: tcp_doomed_def tcp_shutdown_def rl)
  then have u: "tcp_doomed u" using tcp_doomed_steps assms(5) by blast
  then show ?thesis using tcp_doomed_stuck [OF u] tcp_stuck_no_step by (auto simp: tcp_doomed_def)
qed

text \<open>A client that has read 257 empty frames at once.\<close>

lemma demo_flood:
  fixes s0 :: "unit tcp_client"
  assumes "\<not> tc_online s0"
  shows "\<exists>t. tcp_session (fst (tcp_start (Inr ()) s0)) (concat (replicate 257 (kiss_encode []))) [] t"
proof -
  let ?s = "fst (tcp_start (Inr ()) s0)" and ?bs = "concat (replicate 257 (kiss_encode []))"
  have s: "tc_task ?s = Some spawn_read_loop" using assms by (simp add: tcp_start_def)
  have "length ?bs = 771" by (simp add: kiss_encode_def length_concat sum_list_replicate)
  then have "tcp_session ?s ([] @ ?bs) [] (tcp_poll True (Some (ReadBytes ?bs)) ?s)"
    by (intro tcp_session.read [OF tcp_session.opened s]) (simp_all add: spawn_read_loop_def)
  then show ?thesis by auto
qed

theorem tcp_shutdown_hangs_witness:
  "\<exists>t v. tcp_session (fst (tcp_start (Inr ()) (tcp_client_new [] [] 0))) (concat (replicate 257 (kiss_encode []))) [] t \<and>
     tcp_step\<^sup>*\<^sup>* (fst (tcp_shutdown t)) v \<and> length (tc_rx v) = 256 \<and> tc_stopping v \<and> (\<nexists>x. tcp_step v x)"
proof -
  let ?s0 = "tcp_client_new [] [] 0 :: unit tcp_client"
  have s0: "\<not> tc_online ?s0" "\<not> tc_stopping ?s0" by (simp_all add: tcp_client_new_def)
  obtain t where t: "tcp_session (fst (tcp_start (Inr ()) ?s0)) (concat (replicate 257 (kiss_encode []))) [] t"
    using demo_flood [OF s0(1)] by blast
  have "length ([] :: bytes list) + CHANNEL_CAPACITY < length (passed kiss_new (concat (replicate 257 (kiss_encode []))))"
    by (simp only: passed_empty_frames) simp
  from tcp_shutdown_hangs [OF s0 t this] obtain v where
    "tcp_step\<^sup>*\<^sup>* (fst (tcp_shutdown t)) v" "tcp_stuck v" "\<nexists>x. tcp_step v x" by blast
  then show ?thesis using t by (auto simp: tcp_stuck_def)
qed

section \<open>What the server hears\<close>

text \<open>Invariant of the server: while it runs nothing is left of an earlier start.\<close>

definition server_inv :: "tcp_server \<Rightarrow> bool" where
  "server_inv s \<longleftrightarrow> (\<not> ts_online s \<longrightarrow> \<not> ts_accept_task s \<and> \<not> list_ex rl_running (ts_readers s) \<and> ts_rx s = []) \<and>
     (\<not> ts_accept_task s \<longrightarrow> \<not> list_ex rl_running (ts_readers s)) \<and>
     length (ts_rx s) \<le> CHANNEL_CAPACITY"

lemma list_ex_running: "i < length rs \<Longrightarrow> rl_running (rs ! i) \<Longrightarrow> list_ex rl_running rs"
  by (auto simp: list_ex_iff)

lemma server_inv_step: "server_inv s \<Longrightarrow> server_step s t \<Longrightarrow> server_inv t"
  by (erule server_stepE)
    (auto simp: server_inv_def server_start_def server_receive_def server_send_def server_shutdown_def
      server_shutdown_joined_def server_accept_def server_accept_end_def server_poll_def server_byte_def
      dest: rl_byte_rx list_ex_running split: option.splits list.splits sum.splits)

interpretation server_machine: invariant_machine
  "\<lambda>s. \<exists>name host port. s = tcp_server_new name host port" server_step server_inv
proof unfold_locales
  fix s assume "\<exists>name host port. s = tcp_server_new name host port"
  then show "server_inv s" by (auto simp: server_inv_def tcp_server_new_def)
qed (rule server_inv_step)

text \<open>A read task that has ended stays ended until the server is started again.\<close>

definition reader_ended :: "nat \<Rightarrow> tcp_server \<Rightarrow> bool" where
  "reader_ended i s \<longleftrightarrow> i < length (ts_readers s) \<and> \<not> rl_running (ts_readers s ! i)"

lemma reader_ended_step:
  "server_step s t \<Longrightarrow> ts_online s \<Longrightarrow> reader_ended i s \<Longrightarrow> reader_ended i t"
  by (erule server_stepE)
    (auto simp: reader_ended_def server_start_def server_receive_def server_send_def server_shutdown_def
      server_shutdown_joined_def server_accept_def server_accept_end_def server_poll_def server_byte_def
      nth_append nth_list_update split: option.splits list.splits sum.splits if_splits)

text \<open>
  A TCP server hears its clients only by chance. The shutdown sender of a connection is dropped as
  soon as its read task is started, which the task takes for a signal to stop: polled once
  while no bytes have arrived, it ends, and nothing the client sends afterwards is read as
  long as the server stays online.
\<close>

theorem server_reader_gives_up:
  assumes "i < length (ts_readers s)"
    and "(\<lambda>s t. ts_online s \<and> server_step s t)\<^sup>*\<^sup>* (server_poll i first None s) u"
  shows "reader_ended i u"
  using assms(2)
proof (induction rule: rtranclp_induct)
  case base
  then show ?case using assms(1) by (simp add: reader_ended_def server_poll_def rl_select_def)
qed (auto intro: reader_ended_step)

theorem server_reader_gives_up_witness:
  "let s = server_accept False (Some (Inr ())) (fst (server_start None (tcp_server_new [] [] 0)))
   in length (ts_readers s) = 1 \<and> reader_ended 0 (server_accept False (Some (Inr ())) (server_poll 0 False None s))"
proof -
  let ?s = "server_accept False (Some (Inr ())) (fst (server_start None (tcp_server_new [] [] 0)))"
  have s: "length (ts_readers ?s) = 1" "ts_accept_task ?s" "ts_accepting ?s" "ts_online ?s"
    by (simp_all add: server_accept_def server_start_def tcp_server_new_def)
  have "server_step (server_poll 0 False None ?s) (server_accept False (Some (Inr ())) (server_poll 0 False None ?s))"
    by (rule server_step.accept) (simp_all add: server_poll_def s)
  then have "reader_ended 0 (server_accept False (Some (Inr ())) (server_poll 0 False None ?s))"
    by (intro server_reader_gives_up [of 0 ?s False]) (auto simp: s server_poll_def)
  then show ?thesis using s(1) by (simp add: Let_def)
qed

text \<open>In every reachable state the server's channel keeps its bound, a server that is not online has
  no tasks, and what is sent through it goes nowhere.\<close>

lemma server_reachable_inv:
  assumes "server_step\<^sup>*\<^sup>* (tcp_server_new name host port) s"
  shows "server_inv s" and "ts_online s \<Longrightarrow> server_send data s = (s, Inr ())"
  using server_machine.reachable_inv [OF _ assms] by (auto simp: server_send_def)

end
