(* ===== verification/Rust_Text.thy ===== *)
theory Rust_Text
  imports Rust_Prelude "HOL-Library.Sublist"
begin

text \<open>
  Text in the style of Rust: a string is the list of its UTF-8 bytes, written as characters. The theory
  has the operations of \<open>str\<close> that the components use, and their lemmas.
\<close>

section \<open>Operations\<close>

abbreviation (input) newline :: char where "newline \<equiv> CHR 0x0A"

definition char_ws :: "char \<Rightarrow> bool" where
  "char_ws c \<longleftrightarrow> (9 \<le> (of_char c :: nat) \<and> (of_char c :: nat) \<le> 13) \<or> c = CHR '' ''"

text \<open>\<open>str::split\<close> at a character, \<open>str::lines\<close>, \<open>str::trim\<close>, \<open>str::splitn(2, c)\<close>.\<close>

fun split_char :: "char \<Rightarrow> string \<Rightarrow> string list" where
  "split_char c [] = [[]]"
| "split_char c (x # xs) =
     (if x = c then [] # split_char c xs
      else case split_char c xs of [] \<Rightarrow> [[x]] | l # ls \<Rightarrow> (x # l) # ls)"

definition str_lines :: "string \<Rightarrow> string list" where
  "str_lines s =
     (let ls = split_char newline s;
          ls = (if last ls = [] then butlast ls else ls)
      in map (\<lambda>l. if l \<noteq> [] \<and> last l = CHR 0x0D then butlast l else l) ls)"

text \<open>White space beyond ASCII, as UTF-8: U+0085, U+00A0, U+1680, U+2000 to U+200A, U+2028, U+2029, U+202F,
  U+205F, U+3000. In well-formed text such a sequence is a character wherever it occurs.\<close>

definition wide_ws :: "string list" where
  "wide_ws = [[CHR 0xC2, CHR 0x85], [CHR 0xC2, CHR 0xA0], [CHR 0xE1, CHR 0x9A, CHR 0x80]] @
     map (\<lambda>c. [CHR 0xE2, CHR 0x80, c])
       [CHR 0x80, CHR 0x81, CHR 0x82, CHR 0x83, CHR 0x84, CHR 0x85, CHR 0x86, CHR 0x87, CHR 0x88, CHR 0x89, CHR 0x8A,
        CHR 0xA8, CHR 0xA9, CHR 0xAF] @
     [[CHR 0xE2, CHR 0x81, CHR 0x9F], [CHR 0xE3, CHR 0x80, CHR 0x80]]"

function trim_left :: "string list \<Rightarrow> string \<Rightarrow> string" where
  "trim_left wide s =
     (if s \<noteq> [] \<and> char_ws (hd s) then trim_left wide (tl s)
      else if 2 \<le> length s \<and> take 2 s \<in> set wide then trim_left wide (drop 2 s)
      else if 3 \<le> length s \<and> take 3 s \<in> set wide then trim_left wide (drop 3 s)
      else s)"
  by pat_completeness auto
termination by (relation "measure (length \<circ> snd)") auto

declare trim_left.simps [simp del]

definition str_trim :: "string \<Rightarrow> string" where
  "str_trim s = rev (trim_left (map rev wide_ws) (rev (trim_left wide_ws s)))"

text \<open>ASCII without white space.\<close>

definition char_plain :: "char \<Rightarrow> bool" where
  "char_plain c \<longleftrightarrow> (of_char c :: nat) < 128 \<and> \<not> char_ws c"

definition splitn2 :: "char \<Rightarrow> string \<Rightarrow> string list" where
  "splitn2 c s =
     (let a = takeWhile (\<lambda>x. x \<noteq> c) s
      in if a = s then [s] else [a, drop (Suc (length a)) s])"

definition str_bytes :: "string \<Rightarrow> bytes" where
  "str_bytes s = map (\<lambda>c. of_nat (of_char c)) s"

definition bytes_str :: "bytes \<Rightarrow> string" where
  "bytes_str b = map (\<lambda>x. char_of (unat x)) b"

fun str_join :: "string \<Rightarrow> string list \<Rightarrow> string" where
  "str_join sep [] = []"
| "str_join sep [s] = s"
| "str_join sep (s # ss) = s @ sep @ str_join sep ss"

text \<open>\<open>str::find\<close> of a pattern.\<close>

fun find_sub :: "string \<Rightarrow> string \<Rightarrow> nat option" where
  "find_sub pat [] = (if pat = [] then Some 0 else None)"
| "find_sub pat (c # s) = (if prefix pat (c # s) then Some 0 else map_option Suc (find_sub pat s))"

text \<open>\<open>str::from_utf8\<close>: the well-formed byte sequences of UTF-8.\<close>

definition utf8_cont :: "u8 \<Rightarrow> bool" where
  "utf8_cont b \<longleftrightarrow> 0x80 \<le> b \<and> b \<le> 0xBF"

definition utf8_second :: "u8 \<Rightarrow> u8 \<Rightarrow> bool" where
  "utf8_second a b \<longleftrightarrow>
     (if a = 0xE0 then 0xA0 \<le> b \<and> b \<le> 0xBF
      else if a = 0xED then 0x80 \<le> b \<and> b \<le> 0x9F
      else if a = 0xF0 then 0x90 \<le> b \<and> b \<le> 0xBF
      else if a = 0xF4 then 0x80 \<le> b \<and> b \<le> 0x8F
      else utf8_cont b)"

fun utf8_valid :: "bytes \<Rightarrow> bool" where
  "utf8_valid [] = True"
| "utf8_valid (a # bs) =
     (if a < 0x80 then utf8_valid bs
      else case bs of
          [] \<Rightarrow> False
        | b # cs \<Rightarrow>
            if 0xC2 \<le> a \<and> a \<le> 0xDF then utf8_cont b \<and> utf8_valid cs
            else (case cs of
                [] \<Rightarrow> False
              | c # ds \<Rightarrow>
                  if 0xE0 \<le> a \<and> a \<le> 0xEF then utf8_second a b \<and> utf8_cont c \<and> utf8_valid ds
                  else (case ds of
                      [] \<Rightarrow> False
                    | d # es \<Rightarrow>
                        0xF0 \<le> a \<and> a \<le> 0xF4 \<and> utf8_second a b \<and> utf8_cont c \<and> utf8_cont d \<and> utf8_valid es)))"

section \<open>Lemmas\<close>

lemma split_char_append_no:
  "c \<notin> set a \<Longrightarrow> split_char c (a @ c # s) = a # split_char c s"
  by (induction a) auto

lemma split_char_not_Nil [simp]: "split_char c s \<noteq> []"
  by (induction s) (simp_all split: list.splits)

lemma split_lines:
  "list_all (\<lambda>l. newline \<notin> set l) ls \<Longrightarrow>
     split_char newline (concat (map (\<lambda>l. l @ [newline]) ls)) = ls @ [[]]"
  by (induction ls) (simp_all add: split_char_append_no)

lemma str_lines_lines:
  "list_all (\<lambda>l. newline \<notin> set l \<and> CHR 0x0D \<notin> set l) ls \<Longrightarrow>
     str_lines (concat (map (\<lambda>l. l @ [newline]) ls)) = ls"
proof -
  assume a: "list_all (\<lambda>l. newline \<notin> set l \<and> CHR 0x0D \<notin> set l) ls"
  then have "list_all (\<lambda>l. newline \<notin> set l) ls" by (induction ls) simp_all
  moreover have "map (\<lambda>l. if l \<noteq> [] \<and> last l = CHR 0x0D then butlast l else l) ls = ls"
    using a by (induction ls) (auto dest: last_in_set)
  ultimately show ?thesis by (simp add: str_lines_def split_lines Let_def)
qed

lemma trim_left_plain:
  assumes "s = [] \<or> char_plain (hd s)" and "list_all (\<lambda>w. w \<noteq> [] \<and> \<not> char_plain (hd w)) wide"
  shows "trim_left wide s = s"
proof -
  have "take n s \<notin> set wide" if "0 < n" "n \<le> length s" for n
    using assms that by (cases s) (auto simp: list_all_iff take_Cons')
  then show ?thesis using assms(1) by (subst trim_left.simps) (auto simp: char_plain_def)
qed

lemma wide_ws_not_plain:
  "list_all (\<lambda>w. w \<noteq> [] \<and> \<not> char_plain (hd w)) wide_ws"
  "list_all (\<lambda>w. w \<noteq> [] \<and> \<not> char_plain (hd w)) (map rev wide_ws)"
  by (simp_all add: wide_ws_def char_plain_def)

lemma str_trim_ends: "s = [] \<or> char_plain (hd s) \<and> char_plain (last s) \<Longrightarrow> str_trim s = s"
  using trim_left_plain [of s wide_ws] trim_left_plain [of "rev s" "map rev wide_ws"] wide_ws_not_plain
  by (auto simp: str_trim_def hd_rev)

lemma str_trim_id: "(\<forall>c \<in> set s. char_plain c) \<Longrightarrow> str_trim s = s"
  by (rule str_trim_ends) (auto dest: last_in_set hd_in_set)

lemma splitn2_two: "c \<notin> set a \<Longrightarrow> splitn2 c (a @ c # b) = [a, b]"
proof -
  assume "c \<notin> set a"
  then have "takeWhile (\<lambda>x. x \<noteq> c) (a @ c # b) = a" by (induction a) auto
  then show ?thesis by (simp add: splitn2_def)
qed

lemma hex_digit_plain:
  "c \<in> set ''0123456789abcdef'' \<Longrightarrow> char_plain c \<and> c \<noteq> newline \<and> c \<noteq> CHR 0x0D \<and> c \<noteq> CHR '':'' \<and>
     c \<noteq> CHR ''#''"
  by (auto simp: char_ws_def char_plain_def)

lemma str_bytes_str [simp]: "str_bytes (bytes_str b) = b"
  by (induction b) (simp_all add: str_bytes_def bytes_str_def of_char_of mod_less [OF unat_u8_less])

lemma find_sub_skip:
  "c \<notin> set a \<Longrightarrow> find_sub (c # p) (a @ s) = map_option ((+) (length a)) (find_sub (c # p) s)"
  by (cases "find_sub (c # p) s"; induction a) auto

lemma find_sub_here: "c \<notin> set a \<Longrightarrow> find_sub (c # p) (a @ (c # p) @ b) = Some (length a)"
  by (simp add: find_sub_skip)

lemma find_sub_absent: "c \<notin> set s \<Longrightarrow> find_sub (c # p) s = None"
  using find_sub_skip [of c s p "[]"] by simp

lemma split_char_word: "c \<notin> set w \<Longrightarrow> split_char c w = [w]"
  by (induction w) auto

lemma split_char_concat:
  "c \<notin> set w \<Longrightarrow> list_all (\<lambda>v. c \<notin> set v) ws \<Longrightarrow>
     split_char c (w @ concat (map (\<lambda>v. c # v) ws)) = w # ws"
  by (induction ws arbitrary: w) (simp_all add: split_char_word split_char_append_no)

lemma bytes_str_bytes [simp]: "bytes_str (str_bytes s) = s"
proof (induction s)
  case (Cons c s)
  have "of_char c < (256 :: nat)" by (cases c) simp
  then show ?case using Cons by (simp add: bytes_str_def str_bytes_def unat_of_nat)
qed (simp add: bytes_str_def str_bytes_def)

end
