(* ===== verification/External.thy ===== *)
theory External
  imports Rust_Text
begin

text \<open>
  The packages the program calls but does not contain, as one record of functions that every
  definition using them takes as an argument: the hash functions of \<open>sha2\<close> and \<open>blake3\<close>, the
  \<open>hmac\<close> and \<open>hkdf\<close> crates, AES-128-CBC with PKCS#7 padding from \<open>aes\<close>/\<open>cbc\<close>, X25519 from
  \<open>x25519_dalek\<close>, Ed25519 from \<open>ed25519_dalek\<close> and the \<open>hex\<close> crate. Nothing is assumed of
  them globally. What a theorem needs of their documented behaviour it takes as one of the
  predicates \<open>hash_ok\<close>, \<open>aes_ok\<close>, \<open>dh_ok\<close>, \<open>sig_ok\<close>, \<open>conv_ok\<close>, \<open>hex_ok\<close>; \<open>ext_toy\<close> is a concrete
  record that satisfies them all, used by the witnesses.
\<close>

record ext =
  sha256 :: "bytes \<Rightarrow> bytes"
  sha512 :: "bytes \<Rightarrow> bytes"
  blake3 :: "bytes \<Rightarrow> bytes"
  \<comment> \<open>\<open>Hmac::<Sha256>\<close>: key, message\<close>
  hmac_sha256 :: "bytes \<Rightarrow> bytes \<Rightarrow> bytes"
  \<comment> \<open>\<open>Hkdf::<Sha256>::new(Some(salt), ikm).expand(info, len)\<close>\<close>
  hkdf_expand :: "bytes \<Rightarrow> bytes \<Rightarrow> bytes \<Rightarrow> nat \<Rightarrow> bytes"
  \<comment> \<open>AES-128-CBC with PKCS#7 padding: key, iv, text; decryption fails on bad padding or a
     length that is no multiple of the block size\<close>
  aes_cbc_enc :: "bytes \<Rightarrow> bytes \<Rightarrow> bytes \<Rightarrow> bytes"
  aes_cbc_dec :: "bytes \<Rightarrow> bytes \<Rightarrow> bytes \<Rightarrow> bytes option"
  \<comment> \<open>X25519: public key of a secret, shared secret of a secret and a public key\<close>
  x25519_pub :: "bytes \<Rightarrow> bytes"
  x25519_dh :: "bytes \<Rightarrow> bytes \<Rightarrow> bytes"
  \<comment> \<open>Ed25519: verifying key of a seed, signature, \<open>VerifyingKey::from_bytes\<close>, \<open>verify\<close> and
     \<open>verify_strict\<close>, the Montgomery form of a verifying key\<close>
  ed_pub :: "bytes \<Rightarrow> bytes"
  ed_sign :: "bytes \<Rightarrow> bytes \<Rightarrow> bytes"
  ed_key_valid :: "bytes \<Rightarrow> bool"
  ed_verify :: "bytes \<Rightarrow> bytes \<Rightarrow> bytes \<Rightarrow> bool"
  ed_verify_strict :: "bytes \<Rightarrow> bytes \<Rightarrow> bytes \<Rightarrow> bool"
  ed_montgomery :: "bytes \<Rightarrow> bytes"
  \<comment> \<open>\<open>hex::encode\<close>, \<open>hex::decode\<close> with the text of its error on the left\<close>
  hex_encode :: "bytes \<Rightarrow> string"
  hex_decode :: "string \<Rightarrow> string + bytes"
  \<comment> \<open>the texts of two library errors that the program copies into its own\<close>
  ed_key_error :: "bytes \<Rightarrow> string"
  unpad_error :: string

section \<open>Documented behaviour\<close>

text \<open>
  HKDF as RFC 5869 defines it over a keyed hash: extract, then the blocks
  \<open>T(i) = HMAC(PRK, T(i-1) || info || i)\<close>, and the first \<open>n\<close> bytes of their concatenation.
\<close>

fun rfc5869_T :: "(bytes \<Rightarrow> bytes \<Rightarrow> bytes) \<Rightarrow> bytes \<Rightarrow> bytes \<Rightarrow> nat \<Rightarrow> bytes" where
  "rfc5869_T mac prk info 0 = []"
| "rfc5869_T mac prk info (Suc i) =
     mac prk (rfc5869_T mac prk info i @ info @ [of_nat (Suc i)])"

definition rfc5869 ::
  "(bytes \<Rightarrow> bytes \<Rightarrow> bytes) \<Rightarrow> bytes \<Rightarrow> bytes \<Rightarrow> bytes \<Rightarrow> nat \<Rightarrow> bytes" where
  "rfc5869 mac salt ikm info n =
     take n (concat (map (rfc5869_T mac (mac salt ikm) info) [1..<Suc ((n + 31) div 32)]))"

text \<open>\<open>clamp\<close> is the adjustment of a scalar that RFC 7748 prescribes.\<close>

definition clamp :: "bytes \<Rightarrow> bytes" where
  "clamp s = s[0 := s ! 0 AND 248, 31 := (s ! 31 AND 127) OR 64]"

definition hash_ok :: "ext \<Rightarrow> bool" where
  "hash_ok E \<longleftrightarrow> (\<forall>m. length (sha256 E m) = 32) \<and> (\<forall>m. length (sha512 E m) = 64) \<and>
     (\<forall>m. length (blake3 E m) = 32) \<and> (\<forall>k m. length (hmac_sha256 E k m) = 32) \<and>
     (\<forall>s k i n. n \<le> 8160 \<longrightarrow> hkdf_expand E s k i n = rfc5869 (hmac_sha256 E) s k i n)"

definition aes_ok :: "ext \<Rightarrow> bool" where
  "aes_ok E \<longleftrightarrow> (\<forall>k iv p. length k = 16 \<longrightarrow> length iv = 16 \<longrightarrow>
     aes_cbc_dec E k iv (aes_cbc_enc E k iv p) = Some p \<and>
     length (aes_cbc_enc E k iv p) = (length p div 16 + 1) * 16)"

definition dh_ok :: "ext \<Rightarrow> bool" where
  "dh_ok E \<longleftrightarrow> (\<forall>a b. length a = 32 \<longrightarrow> length b = 32 \<longrightarrow>
     x25519_dh E a (x25519_pub E b) = x25519_dh E b (x25519_pub E a)) \<and>
     (\<forall>a. length a = 32 \<longrightarrow> length (x25519_pub E a) = 32) \<and>
     (\<forall>a p. length a = 32 \<longrightarrow> length p = 32 \<longrightarrow> length (x25519_dh E a p) = 32)"

definition sig_ok :: "ext \<Rightarrow> bool" where
  "sig_ok E \<longleftrightarrow> (\<forall>s. length s = 32 \<longrightarrow>
     length (ed_pub E s) = 32 \<and> ed_key_valid E (ed_pub E s) \<and>
     (\<forall>m. length (ed_sign E s m) = 64 \<and> ed_verify E (ed_pub E s) m (ed_sign E s m) \<and>
       ed_verify_strict E (ed_pub E s) m (ed_sign E s m)))"

text \<open>The birational map between the two curves: the Montgomery form of an Ed25519 key is the
  X25519 key of the clamped scalar, the first half of the SHA-512 of the seed.\<close>

definition conv_ok :: "ext \<Rightarrow> bool" where
  "conv_ok E \<longleftrightarrow> (\<forall>s. length s = 32 \<longrightarrow>
     ed_montgomery E (ed_pub E s) = x25519_pub E (clamp (take 32 (sha512 E s))))"

definition hex_ok :: "ext \<Rightarrow> bool" where
  "hex_ok E \<longleftrightarrow> (\<forall>b. hex_decode E (hex_encode E b) = Inr b \<and>
     length (hex_encode E b) = 2 * length b \<and>
     set (hex_encode E b) \<subseteq> set ''0123456789abcdef'')"

lemmas ext_ok_defs = hash_ok_def aes_ok_def dh_ok_def sig_ok_def conv_ok_def hex_ok_def

lemma hex_facts:
  assumes "hex_ok E"
  shows "hex_decode E (hex_encode E b) = Inr b" "length (hex_encode E b) = 2 * length b"
    "c \<in> set (hex_encode E b) \<Longrightarrow> c \<in> set ''0123456789abcdef''"
  using assms unfolding hex_ok_def by (simp_all only: subset_iff simp_thms)

lemma hex_plain:
  "hex_ok E \<Longrightarrow> c \<in> set (hex_encode E b) \<Longrightarrow>
     char_plain c \<and> c \<noteq> newline \<and> c \<noteq> CHR 0x0D \<and> c \<noteq> CHR '':'' \<and> c \<noteq> CHR ''#''"
proof -
  assume "hex_ok E" "c \<in> set (hex_encode E b)"
  then have "c \<in> set ''0123456789abcdef''" unfolding hex_ok_def by blast
  then show ?thesis by (rule hex_digit_plain)
qed

lemma rfc5869_T_length:
  "(\<And>k m. length (mac k m) = 32) \<Longrightarrow> 0 < i \<Longrightarrow> length (rfc5869_T mac prk info i) = 32"
  by (cases i) simp_all

lemma length_concat_blocks:
  "(\<And>i. i \<in> set is \<Longrightarrow> length (f i) = n) \<Longrightarrow> length (concat (map f is)) = n * length is"
  by (induction "is") auto

lemma length_rfc5869:
  assumes "\<And>k m. length (mac k m) = 32"
  shows "length (rfc5869 mac salt ikm info n) = n"
proof -
  let ?T = "rfc5869_T mac (mac salt ikm) info" and ?N = "(n + 31) div 32"
  have "length (concat (map ?T [1..<Suc ?N])) = 32 * length [1..<Suc ?N]"
    using assms by (intro length_concat_blocks rfc5869_T_length) auto
  moreover have "n \<le> 32 * ?N" by presburger
  ultimately show ?thesis by (simp add: rfc5869_def del: upt_Suc)
qed

lemma hash_lengths:
  assumes "hash_ok E"
  shows "length (sha256 E m) = 32" and "length (sha512 E m) = 64"
    and "length (blake3 E m) = 32" and "length (hmac_sha256 E k m) = 32"
    and "n \<le> 8160 \<Longrightarrow> length (hkdf_expand E s k i n) = n"
  using assms by (simp_all add: hash_ok_def length_rfc5869)

lemma length_clamp [simp]: "length (clamp s) = length s"
  by (simp add: clamp_def)

lemma aes_dec_enc:
  "aes_ok E \<Longrightarrow> length k = 16 \<Longrightarrow> length iv = 16 \<Longrightarrow>
     aes_cbc_dec E k iv (aes_cbc_enc E k iv p) = Some p"
  by (simp add: aes_ok_def)

lemma aes_enc_length:
  "aes_ok E \<Longrightarrow> length k = 16 \<Longrightarrow> length iv = 16 \<Longrightarrow>
     length (aes_cbc_enc E k iv p) = (length p div 16 + 1) * 16"
  by (simp add: aes_ok_def)

lemma dh_agree:
  "dh_ok E \<Longrightarrow> length a = 32 \<Longrightarrow> length b = 32 \<Longrightarrow>
     x25519_dh E a (x25519_pub E b) = x25519_dh E b (x25519_pub E a)"
  by (simp add: dh_ok_def)

lemma dh_lengths:
  "dh_ok E \<Longrightarrow> length a = 32 \<Longrightarrow> length (x25519_pub E a) = 32"
  "dh_ok E \<Longrightarrow> length a = 32 \<Longrightarrow> length p = 32 \<Longrightarrow> length (x25519_dh E a p) = 32"
  by (simp_all add: dh_ok_def)

lemma sig_facts:
  assumes "sig_ok E" and "length s = 32"
  shows "length (ed_pub E s) = 32" and "ed_key_valid E (ed_pub E s)"
    and "length (ed_sign E s m) = 64" and "ed_verify E (ed_pub E s) m (ed_sign E s m)"
    and "ed_verify_strict E (ed_pub E s) m (ed_sign E s m)"
  using assms by (simp_all add: sig_ok_def)

section \<open>A concrete instance\<close>

text \<open>
  Padding, truncation and exclusive or in place of the real primitives. It satisfies the
  documented behaviour above and computes, which is all the witnesses need; it is not secure and
  no theorem speaks about it.
\<close>

definition toy_fit :: "nat \<Rightarrow> bytes \<Rightarrow> bytes" where
  "toy_fit n m = take n (m @ replicate n 0)"

definition toy_pad :: "bytes \<Rightarrow> bytes" where
  "toy_pad p = (let k = 16 - length p mod 16 in p @ replicate k (of_nat k))"

definition toy_unpad :: "bytes \<Rightarrow> bytes option" where
  "toy_unpad c = (if c = [] \<or> length c mod 16 \<noteq> 0 \<or> unat (last c) > 16 then None
     else Some (take (length c - unat (last c)) c))"

abbreviation hex_digits :: string where
  "hex_digits \<equiv> ''0123456789abcdef''"

fun toy_hex :: "bytes \<Rightarrow> string" where
  "toy_hex [] = []"
| "toy_hex (b # bs) = hex_digits ! (unat b div 16) # hex_digits ! (unat b mod 16) # toy_hex bs"

definition toy_nibble :: "char \<Rightarrow> nat" where
  "toy_nibble c = length (takeWhile (\<lambda>d. d \<noteq> c) hex_digits)"

fun toy_unhex :: "string \<Rightarrow> string + bytes" where
  "toy_unhex [] = Inr []"
| "toy_unhex [c] = Inl ''Odd number of digits''"
| "toy_unhex (c # d # s) =
     (if toy_nibble c < 16 \<and> toy_nibble d < 16
      then (case toy_unhex s of
          Inl e \<Rightarrow> Inl e
        | Inr bs \<Rightarrow> Inr (of_nat (16 * toy_nibble c + toy_nibble d) # bs))
      else Inl ''Invalid character'')"

definition ext_toy :: ext where
  "ext_toy = \<lparr> sha256 = toy_fit 32, sha512 = toy_fit 64, blake3 = toy_fit 32,
     hmac_sha256 = (\<lambda>k m. toy_fit 32 (k @ m)),
     hkdf_expand = rfc5869 (\<lambda>k m. toy_fit 32 (k @ m)),
     aes_cbc_enc = (\<lambda>k iv p. toy_pad p), aes_cbc_dec = (\<lambda>k iv c. toy_unpad c),
     x25519_pub = toy_fit 32, x25519_dh = (\<lambda>a p. map2 (XOR) (toy_fit 32 a) (toy_fit 32 p)),
     ed_pub = toy_fit 32, ed_sign = (\<lambda>s m. toy_fit 64 (toy_fit 32 s @ m)),
     ed_key_valid = (\<lambda>k. length k = 32),
     ed_verify = (\<lambda>k m s. s = toy_fit 64 (k @ m)),
     ed_verify_strict = (\<lambda>k m s. s = toy_fit 64 (k @ m)),
     ed_montgomery = (\<lambda>k. clamp (toy_fit 32 k)), hex_encode = toy_hex, hex_decode = toy_unhex,
     ed_key_error = (\<lambda>k. ''signature error''), unpad_error = ''Unpad Error'' \<rparr>"

lemma length_toy_fit [simp]: "length (toy_fit n m) = n"
  by (simp add: toy_fit_def)

lemma toy_fit_id: "length m = n \<Longrightarrow> toy_fit n m = m"
  by (simp add: toy_fit_def)

lemma toy_unpad_pad: "toy_unpad (toy_pad p) = Some p"
proof -
  obtain k where k: "k = 16 - length p mod 16" by simp
  then have k0: "0 < k" "k \<le> 16" by simp_all
  have pad: "toy_pad p = p @ replicate k (of_nat k)" by (simp add: toy_pad_def k Let_def)
  have u: "unat (of_nat k :: u8) = k" using k0 by (simp add: unat_of_nat)
  have l: "(length p + k) mod 16 = 0" unfolding k by presburger
  show ?thesis using k0 u l by (simp add: toy_unpad_def pad)
qed

lemma length_toy_pad: "length (toy_pad p) = (length p div 16 + 1) * 16"
  by (simp add: toy_pad_def Let_def) presburger

lemma toy_nibble_digit: "n < 16 \<Longrightarrow> toy_nibble (hex_digits ! n) = n"
proof -
  have "\<forall>n \<in> set [0..<16]. toy_nibble (hex_digits ! n) = n" unfolding toy_nibble_def by code_simp
  then show "n < 16 \<Longrightarrow> ?thesis" by simp
qed

lemma toy_unhex_hex: "toy_unhex (toy_hex b) = Inr b"
proof (induction b)
  case (Cons x b)
  have "unat x div 16 < 16" using unat_u8_less [of x] by simp
  then show ?case using Cons by (simp add: toy_nibble_digit)
qed simp

lemma toy_hex_chars: "length (toy_hex b) = 2 * length b \<and> set (toy_hex b) \<subseteq> set hex_digits"
proof (induction b)
  case (Cons x b)
  have "unat x div 16 < length hex_digits" "unat x mod 16 < length hex_digits"
    using unat_u8_less [of x] by simp_all
  then have "hex_digits ! (unat x div 16) \<in> set hex_digits"
    "hex_digits ! (unat x mod 16) \<in> set hex_digits" by (simp_all only: nth_mem)
  with Cons show ?case by (simp only: toy_hex.simps) (auto simp del: nth_Cons_numeral)
qed simp

lemma hex_ok_toy: "hex_ok ext_toy"
  using toy_hex_chars by (simp add: hex_ok_def ext_toy_def toy_unhex_hex)

lemma toy_fit_fit: "n \<le> k \<Longrightarrow> take n (toy_fit k m) = toy_fit n m"
  by (simp add: toy_fit_def min_def)

lemma ext_toy_ok [simp]:
  "hash_ok ext_toy" "aes_ok ext_toy" "dh_ok ext_toy" "sig_ok ext_toy" "conv_ok ext_toy"
  "hex_ok ext_toy"
  by (simp_all add: hex_ok_toy, simp_all add: ext_ok_defs ext_toy_def toy_unpad_pad
      length_toy_pad toy_fit_id toy_fit_fit map2_commute [of "(XOR)"] xor.commute)

section \<open>A toy serialisation\<close>

text \<open>Byte strings and lists of them with their length in unary, the base of the concrete instances of
  the serialisation crates.\<close>

definition toy_put :: "bytes \<Rightarrow> bytes" where
  "toy_put bs = replicate (length bs) 1 @ 0 # bs"

definition toy_get :: "bytes \<Rightarrow> bytes \<times> bytes" where
  "toy_get xs = (let n = length (takeWhile (\<lambda>x. x = 1) xs); r = drop (Suc n) xs in (take n r, drop n r))"

fun toy_gets :: "nat \<Rightarrow> bytes \<Rightarrow> bytes list" where
  "toy_gets 0 xs = []"
| "toy_gets (Suc n) xs = (let (b, r) = toy_get xs in b # toy_gets n r)"

definition toy_puts :: "bytes list \<Rightarrow> bytes" where
  "toy_puts bss = toy_put (replicate (length bss) 0) @ concat (map toy_put bss)"

definition toy_read :: "bytes \<Rightarrow> bytes list" where
  "toy_read xs = (let (n, r) = toy_get xs in toy_gets (length n) r)"

lemma takeWhile_ones: "takeWhile (\<lambda>x. x = (1 :: u8)) (replicate n 1 @ 0 # r) = replicate n 1"
  by (induction n) simp_all

lemma toy_get_put [simp]: "toy_get (toy_put bs @ ys) = (bs, ys)"
  by (simp add: toy_get_def toy_put_def takeWhile_ones)

lemma toy_gets_put: "toy_gets (length bss) (concat (map toy_put bss)) = bss"
  by (induction bss) simp_all

lemma toy_read_puts [simp]: "toy_read (toy_puts bss) = bss"
  by (simp add: toy_read_def toy_puts_def toy_gets_put)

lemma toy_nat [simp]: "of_nat (be_val (be_bytes 8 (unat (w :: u64)))) = w"
  "of_nat (be_val (be_bytes 8 (unat (v :: u32)))) = v"
proof -
  have "unat w < 256 ^ 8" "unat v < 256 ^ 8" using unat_u64_less [of w] unat_u32_less [of v] by simp_all
  then show "of_nat (be_val (be_bytes 8 (unat (w :: u64)))) = w" "of_nat (be_val (be_bytes 8 (unat (v :: u32)))) = v"
    by (simp_all add: be_val_be_bytes)
qed

end
