(* ===== verification/Ratchet_Store.thy ===== *)
theory Ratchet_Store
  imports External
begin

text \<open>
  \<open>crates/identity/src/ratchet_store.rs\<close>: the persistent map from identity hashes to ratchet keys
  and its text format, one \<open>hash:key\<close> line in hexadecimal per entry. Strings are lists of ASCII
  characters. The file is the environment: reading it gives an optional text, writing it
  succeeds or fails. A poisoned lock is an argument \<open>poisoned\<close>. The order in which the hash map is
  written is unspecified, so the printer takes the list of entries it visits.
\<close>

section \<open>The store\<close>

datatype RatchetStoreError = RsLock | RsIo string

type_synonym ratchet_map = "bytes \<rightharpoonup> bytes"

definition ratchet_line :: "ext \<Rightarrow> string \<Rightarrow> ratchet_map \<Rightarrow> ratchet_map option" where
  "ratchet_line E raw m =
     (let line = str_trim raw
      in if line = [] \<or> hd line = CHR ''#'' then Some m
         else case splitn2 (CHR '':'') line of
             [a, b] \<Rightarrow> (case hex_decode E a of
                 Inl _ \<Rightarrow> None
               | Inr hash_bytes \<Rightarrow> (case hex_decode E b of
                     Inl _ \<Rightarrow> None
                   | Inr key_bytes \<Rightarrow>
                       if length hash_bytes \<noteq> 16 \<or> length key_bytes \<noteq> 32 then Some m
                       else Some (m(hash_bytes \<mapsto> key_bytes))))
           | _ \<Rightarrow> Some m)"

fun ratchet_parse_lines :: "ext \<Rightarrow> string list \<Rightarrow> ratchet_map \<Rightarrow> ratchet_map option" where
  "ratchet_parse_lines E [] m = Some m"
| "ratchet_parse_lines E (l # ls) m = (case ratchet_line E l m of
       None \<Rightarrow> None | Some m' \<Rightarrow> ratchet_parse_lines E ls m')"

definition ratchet_parse :: "ext \<Rightarrow> string \<Rightarrow> ratchet_map option" where
  "ratchet_parse E data = ratchet_parse_lines E (str_lines data) Map.empty"

definition ratchet_header :: string where
  "ratchet_header = ''# Ratchet keys: identity_hash(32 hex):ratchet_key(64 hex)''"

definition ratchet_flush_text :: "ext \<Rightarrow> (bytes \<times> bytes) list \<Rightarrow> string" where
  "ratchet_flush_text E entries = ratchet_header @ [newline] @
     concat (map (\<lambda>(hash, key). hex_encode E hash @ '':'' @ hex_encode E key @ [newline]) entries)"

definition ratchet_open :: "ext \<Rightarrow> string option \<Rightarrow> ratchet_map" where
  "ratchet_open E file = (case file of
       None \<Rightarrow> Map.empty
     | Some s \<Rightarrow> (case ratchet_parse E s of None \<Rightarrow> Map.empty | Some m \<Rightarrow> m))"

text \<open>\<open>write\<close> is the result of writing the file; the cache keeps the change when it fails.\<close>

definition ratchet_store ::
  "bool \<Rightarrow> string + unit \<Rightarrow> bytes \<Rightarrow> bytes \<Rightarrow> ratchet_map \<Rightarrow> ratchet_map \<times> (RatchetStoreError + unit)" where
  "ratchet_store poisoned write identity_hash ratchet_key cache =
     (if poisoned then (cache, Inl RsLock)
      else (cache(identity_hash \<mapsto> ratchet_key),
            case write of Inl e \<Rightarrow> Inl (RsIo e) | Inr _ \<Rightarrow> Inr ()))"

definition ratchet_lookup :: "bool \<Rightarrow> bytes \<Rightarrow> ratchet_map \<Rightarrow> bytes option" where
  "ratchet_lookup poisoned identity_hash cache = (if poisoned then None else cache identity_hash)"

definition ratchet_remove ::
  "bool \<Rightarrow> string + unit \<Rightarrow> bytes \<Rightarrow> ratchet_map \<Rightarrow> ratchet_map \<times> (RatchetStoreError + unit)" where
  "ratchet_remove poisoned write identity_hash cache =
     (if poisoned then (cache, Inl RsLock)
      else (cache(identity_hash := None),
            case write of Inl e \<Rightarrow> Inl (RsIo e) | Inr _ \<Rightarrow> Inr ()))"

section \<open>Lemmas\<close>

abbreviation ratchet_entry :: "ext \<Rightarrow> bytes \<Rightarrow> bytes \<Rightarrow> string" where
  "ratchet_entry E hash key \<equiv> hex_encode E hash @ '':'' @ hex_encode E key"

lemma ratchet_line_entry:
  assumes E: "hex_ok E" and l: "length hash = 16" "length key = 32"
  shows "ratchet_line E (ratchet_entry E hash key) m = Some (m(hash \<mapsto> key))"
proof -
  have colon: "CHR '':'' \<notin> set (hex_encode E hash)" using hex_plain [OF E] by blast
  have "\<forall>c \<in> set (ratchet_entry E hash key). char_plain c"
    using hex_plain [OF E] by (auto simp: char_plain_def char_ws_def)
  then have trim: "str_trim (ratchet_entry E hash key) = ratchet_entry E hash key"
    by (rule str_trim_id)
  have "length (hex_encode E hash) = 32" using E l by (simp add: hex_ok_def)
  then have ne: "hex_encode E hash \<noteq> []" by auto
  then have "hd (ratchet_entry E hash key) \<noteq> CHR ''#''"
    using hex_plain [OF E, of "hd (hex_encode E hash)" hash] by simp
  with trim ne colon E l show ?thesis
    by (simp add: ratchet_line_def Let_def splitn2_two hex_ok_def)
qed

lemma ratchet_parse_entries:
  assumes "hex_ok E" and "list_all (\<lambda>(h, k). length h = 16 \<and> length k = 32) es"
  shows "ratchet_parse_lines E (map (\<lambda>(h, k). ratchet_entry E h k) es) m = Some (m ++ map_of (rev es))"
  using assms(2)
proof (induction es arbitrary: m)
  case (Cons e es)
  obtain h k where "e = (h, k)" by (cases e)
  with Cons ratchet_line_entry [OF assms(1), of h k m] show ?case by simp
qed simp


text \<open>The store survives a restart: whatever order the entries are written in, opening the
  written file gives back exactly the map, for 16-byte hashes with 32-byte keys.\<close>

theorem ratchet_file_roundtrip:
  assumes E: "hex_ok E" and es: "distinct (map fst es)"
    and wf: "list_all (\<lambda>(h, k). length h = 16 \<and> length k = 32) es"
  shows "ratchet_open E (Some (ratchet_flush_text E es)) = map_of es"
proof -
  let ?ls = "ratchet_header # map (\<lambda>(h, k). ratchet_entry E h k) es"
  have ft: "ratchet_flush_text E es = concat (map (\<lambda>l. l @ [newline]) ?ls)"
    by (simp add: ratchet_flush_text_def comp_def case_prod_unfold)
  have hdr: "newline \<notin> set ratchet_header" "CHR 0x0D \<notin> set ratchet_header"
    by (simp_all add: ratchet_header_def)
  have "list_all (\<lambda>l. newline \<notin> set l \<and> CHR 0x0D \<notin> set l) ?ls"
    using hex_plain [OF E] hdr by (auto simp: list_all_iff)
  then have "str_lines (ratchet_flush_text E es) = ?ls" unfolding ft by (rule str_lines_lines)
  moreover have "ratchet_line E ratchet_header m = Some m" for m
    by (simp add: ratchet_line_def ratchet_header_def str_trim_ends char_plain_def char_ws_def Let_def)
  ultimately have "ratchet_parse E (ratchet_flush_text E es) = Some (map_of (rev es))"
    using ratchet_parse_entries [OF E wf, of Map.empty] by (simp add: ratchet_parse_def)
  moreover have "map_of (rev es) = map_of es" 
    using es map_of_inject_set [of "rev es" es] by (simp add: rev_map [symmetric])
  ultimately show ?thesis by (simp add: ratchet_open_def)
qed

theorem ratchet_file_roundtrip_witness:
  "ratchet_open ext_toy (Some (ratchet_flush_text ext_toy [(replicate 16 1, replicate 32 2)])) =
     map_of [(replicate 16 1, replicate 32 2)]"
  by (rule ratchet_file_roundtrip) simp_all

lemma ratchet_lookup_store:
  "ratchet_lookup False h (fst (ratchet_store False w h' k m)) =
     (if h = h' then Some k else ratchet_lookup False h m)"
  by (simp add: ratchet_lookup_def ratchet_store_def)

lemma ratchet_lookup_remove:
  "ratchet_lookup False h (fst (ratchet_remove False w h' m)) =
     (if h = h' then None else ratchet_lookup False h m)"
  by (simp add: ratchet_lookup_def ratchet_remove_def)

end
