(* ===== verification/Address.thy ===== *)
theory Address
  imports External
begin

text \<open>
  \<open>crates/identity\<close>: the error type (\<open>error.rs\<close>), the 32-byte native address (\<open>address.rs\<close>)
  and the 16-byte Reticulum address (\<open>rns_address.rs\<close>). A fixed-size array \<open>[u8; N]\<close> is a byte
  list; that it has N elements is a predicate the constructors are proved to establish.
\<close>

section \<open>Errors and lengths\<close>

datatype IdentityError =
    InvalidLength string nat nat
  | SignatureMismatch
  | ClockDrift int nat
  | Serde string

definition show_int :: "int \<Rightarrow> string" where
  "show_int i = (if i < 0 then CHR ''-'' # show_nat (nat (- i)) else show_nat (nat i))"

definition identity_error_text :: "IdentityError \<Rightarrow> string" where
  "identity_error_text e = (case e of
       InvalidLength n expected got \<Rightarrow>
         ''invalid length for '' @ n @ '': expected '' @ show_nat expected @ '', got '' @ show_nat got
     | SignatureMismatch \<Rightarrow> ''signature verification failed''
     | ClockDrift delta_secs threshold_secs \<Rightarrow>
         ''clock drift '' @ show_int delta_secs @ ''s exceeds '' @ show_nat threshold_secs @ ''s''
     | Serde s \<Rightarrow> ''serialization: '' @ s)"

abbreviation (input) ADDRESS_LEN :: nat where "ADDRESS_LEN \<equiv> 32"
abbreviation (input) RNS_ADDRESS_LEN :: nat where "RNS_ADDRESS_LEN \<equiv> 16"
abbreviation (input) IDENTITY_KEY_LEN :: nat where "IDENTITY_KEY_LEN \<equiv> 32"
abbreviation (input) ENCRYPTION_KEY_LEN :: nat where "ENCRYPTION_KEY_LEN \<equiv> 32"
abbreviation (input) FULL_PUBLIC_KEY_LEN :: nat where "FULL_PUBLIC_KEY_LEN \<equiv> 64"
abbreviation (input) SIGNATURE_LEN :: nat where "SIGNATURE_LEN \<equiv> 64"

section \<open>Address\<close>

type_synonym addr = bytes

definition addr_from_identity_key :: "ext \<Rightarrow> bytes \<Rightarrow> addr" where
  "addr_from_identity_key E key = blake3 E key"

definition addr_from_bytes :: "bytes \<Rightarrow> IdentityError + addr" where
  "addr_from_bytes bs =
     (if length bs = ADDRESS_LEN then Inr bs
      else Inl (InvalidLength ''Address'' ADDRESS_LEN (length bs)))"

definition addr_to_string :: "ext \<Rightarrow> addr \<Rightarrow> string" where
  "addr_to_string E a = hex_encode E a"

definition addr_try_from_str :: "ext \<Rightarrow> string \<Rightarrow> IdentityError + addr" where
  "addr_try_from_str E s = (case hex_decode E s of
       Inl e \<Rightarrow> Inl (Serde e)
     | Inr bs \<Rightarrow> addr_from_bytes bs)"

section \<open>RnsAddress\<close>

type_synonym rns_address = bytes

definition rns_from_identity_key :: "ext \<Rightarrow> bytes \<Rightarrow> rns_address" where
  "rns_from_identity_key E key = take RNS_ADDRESS_LEN (sha256 E key)"

definition rns_from_full_key :: "ext \<Rightarrow> bytes \<Rightarrow> rns_address" where
  "rns_from_full_key E key = take RNS_ADDRESS_LEN (sha256 E key)"

definition rns_from_bytes :: "bytes \<Rightarrow> IdentityError + rns_address" where
  "rns_from_bytes bs =
     (if length bs = RNS_ADDRESS_LEN then Inr bs
      else Inl (InvalidLength ''RnsAddress'' RNS_ADDRESS_LEN (length bs)))"

definition rns_to_string :: "ext \<Rightarrow> rns_address \<Rightarrow> string" where
  "rns_to_string E a = hex_encode E a"

definition rns_try_from_str :: "ext \<Rightarrow> string \<Rightarrow> IdentityError + rns_address" where
  "rns_try_from_str E s = (case hex_decode E s of
       Inl e \<Rightarrow> Inl (Serde e)
     | Inr bs \<Rightarrow> rns_from_bytes bs)"

section \<open>Lemmas\<close>

lemma length_rns_from_key [simp, wire_len]:
  "hash_ok E \<Longrightarrow> length (rns_from_identity_key E k) = 16"
  "hash_ok E \<Longrightarrow> length (rns_from_full_key E k) = 16"
  "hash_ok E \<Longrightarrow> length (addr_from_identity_key E k) = 32"
  by (simp_all add: rns_from_identity_key_def rns_from_full_key_def addr_from_identity_key_def
      hash_lengths)

lemma rns_from_bytes_Inr [simp]: "rns_from_bytes bs = Inr a \<longleftrightarrow> a = bs \<and> length bs = 16"
  by (auto simp: rns_from_bytes_def)

lemma addr_from_bytes_Inr [simp]: "addr_from_bytes bs = Inr a \<longleftrightarrow> a = bs \<and> length bs = 32"
  by (auto simp: addr_from_bytes_def)

text \<open>The byte forms of both addresses are canonical codecs over their lengths.\<close>

interpretation addr_codec: canonical_codec "\<lambda>a. a" addr_from_bytes "\<lambda>a. length a = 32"
  by unfold_locales auto

interpretation rns_codec: canonical_codec "\<lambda>a. a" rns_from_bytes "\<lambda>a. length a = 16"
  by unfold_locales auto

lemma addr_str_roundtrip:
  "hex_ok E \<Longrightarrow> length a = 32 \<Longrightarrow> addr_try_from_str E (addr_to_string E a) = Inr a"
  by (simp add: addr_try_from_str_def addr_to_string_def hex_ok_def)

lemma rns_str_roundtrip:
  "hex_ok E \<Longrightarrow> length a = 16 \<Longrightarrow> rns_try_from_str E (rns_to_string E a) = Inr a"
  by (simp add: rns_try_from_str_def rns_to_string_def hex_ok_def)

end
