(* ===== verification/Crypto.thy ===== *)
theory Crypto
  imports External
begin

text \<open>
  \<open>crates/crypto\<close>: the hand-written HKDF (\<open>hkdf.rs\<close>) and the encrypt-then-MAC token (\<open>token.rs\<close>).
  The random initialisation vector is an argument of the encryption. The theory also states the
  interface all three authenticated ciphers of the program share, \<open>sealed_box\<close>.
\<close>

section \<open>HKDF\<close>

text \<open>The counter of the expansion loop is an \<open>u8\<close>: the range is \<open>1..=n as u8\<close>.\<close>

fun hkdf_loop :: "ext \<Rightarrow> bytes \<Rightarrow> bytes \<Rightarrow> u8 list \<Rightarrow> bytes \<Rightarrow> bytes \<Rightarrow> bytes" where
  "hkdf_loop E prk ctx [] t_prev output = output"
| "hkdf_loop E prk ctx (i # is) t_prev output =
     (let t_i = hmac_sha256 E prk (t_prev @ ctx @ [i])
      in hkdf_loop E prk ctx is t_i (output @ t_i))"

definition hkdf_sha256 :: "ext \<Rightarrow> nat \<Rightarrow> bytes \<Rightarrow> bytes option \<Rightarrow> bytes option \<Rightarrow> bytes" where
  "hkdf_sha256 E len derive_from salt ctx =
     (let salt = (case salt of Some s \<Rightarrow> if s \<noteq> [] then s else replicate 32 0
                             | None \<Rightarrow> replicate 32 0);
          ctx = (case ctx of Some c \<Rightarrow> c | None \<Rightarrow> []);
          prk = hmac_sha256 E salt derive_from;
          n = (len + 31) div 32;
          output = hkdf_loop E prk ctx (map of_nat [1..<Suc (unat (of_nat n :: u8))]) [] []
      in take len output)"

section \<open>Token\<close>

datatype TokenError = TooShort | BadHmac | DecryptionFailed

definition token_encrypt :: "ext \<Rightarrow> bytes \<Rightarrow> bytes \<Rightarrow> bytes \<Rightarrow> bytes" where
  "token_encrypt E key iv plaintext =
     (let signing_key = take 16 key; encryption_key = drop 16 key;
          ciphertext = aes_cbc_enc E encryption_key iv plaintext;
          hmac = hmac_sha256 E signing_key (iv @ ciphertext)
      in iv @ ciphertext @ hmac)"

definition token_decrypt :: "ext \<Rightarrow> bytes \<Rightarrow> bytes \<Rightarrow> TokenError + bytes" where
  "token_decrypt E key token =
     (if length token < 48 then Inl TooShort
      else let ciphertext_len = length token - 48;
               iv = take 16 token;
               ciphertext = slice 16 (16 + ciphertext_len) token;
               expected_hmac = drop (16 + ciphertext_len) token;
               computed_hmac = hmac_sha256 E (take 16 key) (iv @ ciphertext)
           in if computed_hmac \<noteq> expected_hmac then Inl BadHmac
              else case aes_cbc_dec E (drop 16 key) iv ciphertext of
                  None \<Rightarrow> Inl DecryptionFailed
                | Some plaintext \<Rightarrow> Inr plaintext)"

section \<open>HKDF: lemmas\<close>

lemma hkdf_loop_T:
  "hkdf_loop E prk ctx (map of_nat [Suc k..<Suc n]) (rfc5869_T (hmac_sha256 E) prk ctx k) out =
     out @ concat (map (rfc5869_T (hmac_sha256 E) prk ctx) [Suc k..<Suc n])"
proof (induction "n - k" arbitrary: k out)
  case (Suc d)
  then have "[Suc k..<Suc n] = Suc k # [Suc (Suc k)..<Suc n]"
    by (intro upt_conv_Cons) simp
  with Suc.hyps(1) [of "Suc k" "out @ rfc5869_T (hmac_sha256 E) prk ctx (Suc k)"] Suc.hyps(2)
  show ?case by (simp add: Let_def del: upt_Suc)
qed simp

lemma hkdf_sha256_eq:
  assumes "len \<le> 8160"
  shows "hkdf_sha256 E len ikm salt ctx =
    rfc5869 (hmac_sha256 E)
      (case salt of Some s \<Rightarrow> if s \<noteq> [] then s else replicate 32 0 | None \<Rightarrow> replicate 32 0)
      ikm (case ctx of Some c \<Rightarrow> c | None \<Rightarrow> []) len"
proof -
  have n: "(len + 31) div 32 < 256" using assms by simp
  then have u: "unat (of_nat ((len + 31) div 32) :: u8) = (len + 31) div 32"
    by (simp add: unat_of_nat)
  show ?thesis
    using hkdf_loop_T [of E _ _ 0]
    by (simp add: hkdf_sha256_def rfc5869_def Let_def u del: upt_Suc)
qed

text \<open>C26. \<open>hkdf_sha256\<close> is RFC 5869 HKDF-SHA256 for every output length the RFC allows (up to
  255 blocks of 32 bytes), with 32 zero bytes for a missing or empty salt.\<close>

theorem hkdf_sha256_rfc5869:
  "len \<le> 8160 \<Longrightarrow> hkdf_sha256 E len ikm salt ctx =
    rfc5869 (hmac_sha256 E)
      (case salt of Some s \<Rightarrow> if s \<noteq> [] then s else replicate 32 0 | None \<Rightarrow> replicate 32 0)
      ikm (case ctx of Some c \<Rightarrow> c | None \<Rightarrow> []) len"
  by (rule hkdf_sha256_eq)

theorem hkdf_sha256_rfc5869_witness:
  "hkdf_sha256 ext_toy 42 [1, 2, 3] None (Some [9]) =
     rfc5869 (hmac_sha256 ext_toy) (replicate 32 0) [1, 2, 3] [9] 42"
  using hkdf_sha256_rfc5869 [of 42 ext_toy "[1, 2, 3]" None "Some [9]"] by simp

text \<open>Past the limit of the RFC the block counter wraps: for 8161 to 8192 output bytes the
  256 blocks become zero blocks and the function returns an empty key instead of an error.\<close>

theorem hkdf_sha256_wraps:
  assumes "8160 < len" and "len \<le> 8192"
  shows "hkdf_sha256 E len ikm salt ctx = []"
proof -
  have n: "(len + 31) div 32 = 256" using assms by (intro div_nat_eqI) simp_all
  show ?thesis by (simp add: hkdf_sha256_def Let_def n u8_of_256 del: of_nat_numeral)
qed

theorem hkdf_sha256_wraps_witness: "hkdf_sha256 ext_toy 8161 [1] None None = []"
  by (rule hkdf_sha256_wraps) simp_all

lemma length_hkdf_sha256:
  "hash_ok E \<Longrightarrow> len \<le> 8160 \<Longrightarrow> length (hkdf_sha256 E len ikm salt ctx) = len"
  by (simp add: hkdf_sha256_eq length_rfc5869 hash_lengths)

section \<open>Authenticated ciphers\<close>

text \<open>
  What the program relies on in its ciphers: opening a sealed message gives the plaintext back,
  a message that opens ends in the MAC of what precedes it, and a sealed message has a length
  that depends on that of the plaintext only.
\<close>

locale sealed_box =
  fixes ok :: "ext \<Rightarrow> bool"
    and key_ok :: "'k \<Rightarrow> bool"
    and iv_ok :: "'v \<Rightarrow> bool"
    and seal :: "ext \<Rightarrow> 'k \<Rightarrow> 'v \<Rightarrow> bytes \<Rightarrow> bytes"
    and unseal :: "ext \<Rightarrow> 'k \<Rightarrow> bytes \<Rightarrow> 'e + bytes"
    and mac :: "ext \<Rightarrow> 'k \<Rightarrow> bytes \<Rightarrow> bytes"
    and overhead :: nat
  assumes unseal_seal:
      "ok E \<Longrightarrow> key_ok k \<Longrightarrow> iv_ok iv \<Longrightarrow> unseal E k (seal E k iv p) = Inr p"
    and unseal_mac:
      "unseal E k t = Inr p \<Longrightarrow> drop (length t - 32) t = mac E k (take (length t - 32) t)"
    and seal_length:
      "ok E \<Longrightarrow> key_ok k \<Longrightarrow> iv_ok iv \<Longrightarrow>
         length (seal E k iv p) = overhead + (length p div 16 + 1) * 16"
begin

lemma seal_inject:
  "ok E \<Longrightarrow> key_ok k \<Longrightarrow> iv_ok iv \<Longrightarrow> seal E k iv p = seal E k iv q \<longleftrightarrow> p = q"
  by (metis unseal_seal Inr_inject)

lemma tag_determined:
  assumes "unseal E k t = Inr p" and "unseal E k t' = Inr q"
    and "length t = length t'" and "take (length t - 32) t = take (length t' - 32) t'"
  shows "t = t'"
  using unseal_mac [OF assms(1)] unseal_mac [OF assms(2)] assms(3,4)
  by (metis append_take_drop_id)

lemma tampered_tag:
  assumes "ok E" "key_ok k" "iv_ok iv"
    and "length t = length (seal E k iv p)" and "t \<noteq> seal E k iv p"
    and "take (length t - 32) t = take (length t - 32) (seal E k iv p)"
  shows "\<exists>e. unseal E k t = Inl e"
proof (cases "unseal E k t")
  case (Inr q)
  with tag_determined [OF this unseal_seal [OF assms(1-3)]] assms(4-6) show ?thesis by simp
qed simp

end

section \<open>Token: lemmas\<close>

lemma token_decrypt_encrypt:
  assumes "hash_ok E \<and> aes_ok E" "length key = 32" "length iv = 16"
  shows "token_decrypt E key (token_encrypt E key iv p) = Inr p"
  using assms
  by (simp add: token_decrypt_def token_encrypt_def Let_def hash_lengths aes_enc_length
      aes_dec_enc)

lemma token_mac:
  assumes "token_decrypt E key t = Inr p"
  shows "drop (length t - 32) t = hmac_sha256 E (take 16 key) (take (length t - 32) t)"
proof -
  have l: "48 \<le> length t"
    using assms by (auto simp: token_decrypt_def split: if_splits)
  then have "take (length t - 32) t = take 16 t @ take (length t - 48) (drop 16 t)"
    using take_add [of 16 "length t - 48" t] by simp
  moreover have "16 + (length t - 48) = length t - 32" using l by simp
  ultimately show ?thesis using assms l
    by (auto simp: token_decrypt_def Let_def split: if_splits option.splits)
qed

interpretation token_box: sealed_box "\<lambda>E. hash_ok E \<and> aes_ok E" "\<lambda>k. length k = 32"
  "\<lambda>iv. length iv = 16" token_encrypt token_decrypt "\<lambda>E k. hmac_sha256 E (take 16 k)" 48
proof unfold_locales
  fix E and k iv p :: bytes
  assume "hash_ok E \<and> aes_ok E" "length k = 32" "length iv = 16"
  then show "length (token_encrypt E k iv p) = 48 + (length p div 16 + 1) * 16"
    by (simp add: token_encrypt_def Let_def hash_lengths aes_enc_length)
qed (simp_all add: token_decrypt_encrypt token_mac)

text \<open>C27. Tokens are authenticated: decryption gives back what was encrypted, and a token that
  differs from an encrypted one in its MAC only is rejected.\<close>

theorem token_authenticated:
  assumes "hash_ok E" "aes_ok E" "length key = 32" "length iv = 16"
  shows "token_decrypt E key (token_encrypt E key iv p) = Inr p \<and>
    (\<forall>tag. length tag = 32 \<longrightarrow>
       tag \<noteq> hmac_sha256 E (take 16 key) (iv @ aes_cbc_enc E (drop 16 key) iv p) \<longrightarrow>
       token_decrypt E key (iv @ aes_cbc_enc E (drop 16 key) iv p @ tag) = Inl BadHmac)"
  using assms token_box.unseal_seal [of E key iv p]
  by (auto simp: token_decrypt_def Let_def aes_enc_length)

theorem token_authenticated_witness:
  "token_decrypt ext_toy (replicate 32 7) (token_encrypt ext_toy (replicate 32 7) (replicate 16 9) [1, 2]) =
     Inr [1, 2]"
  using token_authenticated [of ext_toy "replicate 32 7" "replicate 16 9" "[1, 2]"] by simp

end
