(* ===== verification/Identity.thy ===== *)
theory Identity
  imports Address Crypto
begin

text \<open>
  \<open>crates/identity\<close>: key bundles (\<open>keys.rs\<close>), key derivation, the Fernet cipher and both packet
  encryption pipelines (\<open>crypto.rs\<close>), and signed identity announcements
  (\<open>identity_announce.rs\<close>). Secrets are byte lists of their 32 bytes; random keys and vectors
  are arguments.
\<close>

section \<open>Keys\<close>

record keys =
  key_signing :: bytes
  key_encryption :: bytes

definition keys_from_secrets :: "bytes \<Rightarrow> bytes \<Rightarrow> keys" where
  "keys_from_secrets signing_bytes encryption_bytes =
     \<lparr> key_signing = signing_bytes, key_encryption = encryption_bytes \<rparr>"

definition identity_key_bytes :: "ext \<Rightarrow> keys \<Rightarrow> bytes" where
  "identity_key_bytes E k = ed_pub E (key_signing k)"

definition encryption_key :: "ext \<Rightarrow> keys \<Rightarrow> bytes" where
  "encryption_key E k = x25519_pub E (key_encryption k)"

definition keys_sign :: "ext \<Rightarrow> keys \<Rightarrow> bytes \<Rightarrow> bytes" where
  "keys_sign E k message = ed_sign E (key_signing k) message"

definition keys_verify :: "ext \<Rightarrow> keys \<Rightarrow> bytes \<Rightarrow> bytes \<Rightarrow> bool" where
  "keys_verify E k message signature = ed_verify E (ed_pub E (key_signing k)) message signature"

definition keys_address :: "ext \<Rightarrow> keys \<Rightarrow> addr" where
  "keys_address E k = addr_from_identity_key E (identity_key_bytes E k)"

definition full_public_key_bytes :: "ext \<Rightarrow> keys \<Rightarrow> bytes" where
  "full_public_key_bytes E k = encryption_key E k @ identity_key_bytes E k"

definition keys_rns_address :: "ext \<Rightarrow> keys \<Rightarrow> rns_address" where
  "keys_rns_address E k = rns_from_full_key E (full_public_key_bytes E k)"

definition keys_wf :: "keys \<Rightarrow> bool" where
  "keys_wf k \<longleftrightarrow> length (key_signing k) = 32 \<and> length (key_encryption k) = 32"

lemmas keys_defs = identity_key_bytes_def encryption_key_def keys_sign_def keys_verify_def
  keys_address_def full_public_key_bytes_def keys_rns_address_def

section \<open>Derived keys and Fernet\<close>

datatype CryptoError = Encryption | Decryption string | Rng

abbreviation (input) AES_KEY_SIZE :: nat where "AES_KEY_SIZE \<equiv> 16"
abbreviation (input) HMAC_OUT_SIZE :: nat where "HMAC_OUT_SIZE \<equiv> 32"
abbreviation (input) AES_BLOCK_SIZE :: nat where "AES_BLOCK_SIZE \<equiv> 16"
abbreviation (input) FERNET_OVERHEAD :: nat where "FERNET_OVERHEAD \<equiv> 48"
abbreviation (input) EPHEMERAL_KEY_LEN :: nat where "EPHEMERAL_KEY_LEN \<equiv> 32"
abbreviation (input) DERIVED_KEY_LEN :: nat where "DERIVED_KEY_LEN \<equiv> 32"

type_synonym derived_key = bytes

definition derived_key_new :: "ext \<Rightarrow> bytes \<Rightarrow> bytes option \<Rightarrow> derived_key" where
  "derived_key_new E shared_key salt =
     hkdf_expand E (case salt of Some s \<Rightarrow> s | None \<Rightarrow> replicate 32 0) shared_key [] DERIVED_KEY_LEN"

definition derived_from_static :: "ext \<Rightarrow> bytes \<Rightarrow> bytes \<Rightarrow> derived_key" where
  "derived_from_static E our_key their_key =
     derived_key_new E (x25519_dh E our_key their_key) None"

definition derived_key_empty :: derived_key where
  "derived_key_empty = replicate DERIVED_KEY_LEN 0"

record fernet =
  fer_sign_key :: bytes
  fer_enc_key :: bytes

definition fernet_from_derived_key :: "derived_key \<Rightarrow> fernet" where
  "fernet_from_derived_key derived =
     \<lparr> fer_sign_key = take AES_KEY_SIZE derived, fer_enc_key = drop AES_KEY_SIZE derived \<rparr>"

definition fernet_encrypt :: "ext \<Rightarrow> fernet \<Rightarrow> bytes \<Rightarrow> bytes \<Rightarrow> bytes" where
  "fernet_encrypt E f iv plaintext =
     (let body = iv @ aes_cbc_enc E (fer_enc_key f) iv plaintext
      in body @ hmac_sha256 E (fer_sign_key f) body)"

definition fernet_decrypt :: "ext \<Rightarrow> fernet \<Rightarrow> bytes \<Rightarrow> CryptoError + bytes" where
  "fernet_decrypt E f token =
     (if length token < FERNET_OVERHEAD + 1 then Inl (Decryption ''token too short'')
      else let ct_end = length token - HMAC_OUT_SIZE;
               expected_tag = drop ct_end token
           in if hmac_sha256 E (fer_sign_key f) (take ct_end token) \<noteq> expected_tag
              then Inl (Decryption ''hmac verification failed'')
              else case aes_cbc_dec E (fer_enc_key f) (take AES_BLOCK_SIZE token)
                          (slice AES_BLOCK_SIZE ct_end token) of
                  None \<Rightarrow> Inl (Decryption ''decryption failed'')
                | Some plaintext \<Rightarrow> Inr plaintext)"

section \<open>Encryption to an identity\<close>

definition encrypt_for :: "ext \<Rightarrow> bytes \<Rightarrow> bytes \<Rightarrow> bytes \<Rightarrow> bytes \<Rightarrow> bytes \<Rightarrow> bytes" where
  "encrypt_for E ephemeral iv recipient_public recipient_hash plaintext =
     (let derived = derived_key_new E (x25519_dh E ephemeral recipient_public) (Some recipient_hash);
          token = fernet_encrypt E (fernet_from_derived_key derived) iv plaintext
      in x25519_pub E ephemeral @ token)"

definition decrypt_from :: "ext \<Rightarrow> keys \<Rightarrow> bytes \<Rightarrow> CryptoError + bytes" where
  "decrypt_from E k ciphertext =
     (if length ciphertext < EPHEMERAL_KEY_LEN + FERNET_OVERHEAD + 1
      then Inl (Decryption ''ciphertext too short for ephemeral key + token'')
      else let their_ephemeral = take EPHEMERAL_KEY_LEN ciphertext;
               token = drop EPHEMERAL_KEY_LEN ciphertext;
               shared = x25519_dh E (key_encryption k) their_ephemeral;
               derived = derived_key_new E shared (Some (keys_rns_address E k))
           in fernet_decrypt E (fernet_from_derived_key derived) token)"

definition ed25519_pub_to_x25519 :: "ext \<Rightarrow> bytes \<Rightarrow> CryptoError + bytes" where
  "ed25519_pub_to_x25519 E ed25519_pub =
     (if ed_key_valid E ed25519_pub then Inr (ed_montgomery E ed25519_pub) else Inl Encryption)"

definition ed25519_secret_to_x25519 :: "ext \<Rightarrow> bytes \<Rightarrow> bytes" where
  "ed25519_secret_to_x25519 E ed25519_seed =
     (let hash = sha512 E ed25519_seed; scalar = take 32 hash;
          scalar = scalar[0 := scalar ! 0 AND 248];
          scalar = scalar[31 := scalar ! 31 AND 127]
      in scalar[31 := scalar ! 31 OR 64])"

definition ecdh :: "ext \<Rightarrow> bytes \<Rightarrow> bytes \<Rightarrow> bytes" where
  "ecdh E secret pub = x25519_dh E secret pub"

definition encrypt_packet ::
  "ext \<Rightarrow> bytes \<Rightarrow> bytes \<Rightarrow> bytes \<Rightarrow> bytes \<Rightarrow> bytes \<Rightarrow> CryptoError + bytes" where
  "encrypt_packet E ephemeral_secret iv plaintext recipient_ed25519_pub recipient_hash =
     (case ed25519_pub_to_x25519 E recipient_ed25519_pub of
        Inl e \<Rightarrow> Inl e
      | Inr recipient_x25519_pub \<Rightarrow>
          let shared_secret = ecdh E ephemeral_secret recipient_x25519_pub;
              derived_key = hkdf_sha256 E 32 shared_secret (Some recipient_hash) None;
              token = token_encrypt E (take 32 derived_key) iv plaintext
          in Inr (x25519_pub E ephemeral_secret @ token))"

definition token_error_text :: "TokenError \<Rightarrow> string" where
  "token_error_text e = (case e of
       TooShort \<Rightarrow> ''token is too short (must be at least 48 bytes)''
     | BadHmac \<Rightarrow> ''HMAC verification failed''
     | DecryptionFailed \<Rightarrow> ''decryption failed (bad padding or ciphertext)'')"

definition decrypt_packet :: "ext \<Rightarrow> bytes \<Rightarrow> keys \<Rightarrow> bytes \<Rightarrow> CryptoError + bytes" where
  "decrypt_packet E encrypted recipient_keys recipient_hash =
     (if length encrypted < 32 + 1 then Inl (Decryption ''ciphertext too short'')
      else let ephemeral_pub = take 32 encrypted;
               token_bytes = drop 32 encrypted;
               x25519_private = ed25519_secret_to_x25519 E (key_signing recipient_keys);
               shared = x25519_dh E x25519_private ephemeral_pub;
               derived_key = hkdf_sha256 E 32 shared (Some recipient_hash) None
           in case token_decrypt E (take 32 derived_key) token_bytes of
                Inl e \<Rightarrow> Inl (Decryption (token_error_text e))
              | Inr plaintext \<Rightarrow> Inr plaintext)"

section \<open>Identity announcements\<close>

abbreviation (input) MAX_CLOCK_DRIFT :: nat where "MAX_CLOCK_DRIFT \<equiv> 300"

record identity_announce =
  ia_identity_key :: bytes
  ia_encryption_key :: bytes
  ia_created_at :: u64
  ia_signature :: bytes

definition ia_payload :: "bytes \<Rightarrow> bytes \<Rightarrow> u64 \<Rightarrow> bytes" where
  "ia_payload ik ek ts = ik @ ek @ le_bytes 8 (unat ts)"

definition ia_sign :: "ext \<Rightarrow> u64 \<Rightarrow> keys \<Rightarrow> identity_announce" where
  "ia_sign E now k =
     \<lparr> ia_identity_key = identity_key_bytes E k, ia_encryption_key = encryption_key E k,
       ia_created_at = now,
       ia_signature = keys_sign E k (ia_payload (identity_key_bytes E k) (encryption_key E k) now) \<rparr>"

text \<open>\<open>verify\<close>; \<open>None\<close> is the overflow of the subtraction of the two \<open>i64\<close> times, which panics in
  a build with overflow checks.\<close>

definition ia_verify :: "ext \<Rightarrow> u64 \<Rightarrow> identity_announce \<Rightarrow> (IdentityError + unit) option" where
  "ia_verify E now a =
     (if \<not> ed_key_valid E (ia_identity_key a) then Some (Inl SignatureMismatch)
      else if \<not> ed_verify E (ia_identity_key a)
            (ia_payload (ia_identity_key a) (ia_encryption_key a) (ia_created_at a)) (ia_signature a)
      then Some (Inl SignatureMismatch)
      else let delta = sint (ia_created_at a) - sint now
           in if delta < - (2 ^ 63) \<or> 2 ^ 63 \<le> delta then None
              else if nat \<bar>delta\<bar> > MAX_CLOCK_DRIFT
              then Some (Inl (ClockDrift delta MAX_CLOCK_DRIFT))
              else Some (Inr ()))"

section \<open>Key derivation: lemmas\<close>

lemma keys_lengths [wire_len]:
  "sig_ok E \<Longrightarrow> keys_wf k \<Longrightarrow> length (identity_key_bytes E k) = 32"
  "dh_ok E \<Longrightarrow> keys_wf k \<Longrightarrow> length (encryption_key E k) = 32"
  "hash_ok E \<Longrightarrow> length (keys_rns_address E k) = 16"
  by (simp_all add: keys_defs keys_wf_def sig_facts dh_lengths)

lemma length_derived_key [simp]: "hash_ok E \<Longrightarrow> length (derived_key_new E s salt) = 32"
  by (simp add: derived_key_new_def hash_lengths)

text \<open>The two key derivations of the program agree: \<open>DerivedKey::new\<close>, on the \<open>hkdf\<close> crate,
  gives the same key as the crate's own \<open>hkdf_sha256\<close> for every non-empty salt and for none.\<close>

theorem derived_key_is_hkdf_sha256:
  assumes "hash_ok E" and "salt \<noteq> Some []"
  shows "derived_key_new E shared salt = hkdf_sha256 E 32 shared salt None"
  using assms by (auto simp: derived_key_new_def hkdf_sha256_eq hash_ok_def split: option.splits)

theorem derived_key_is_hkdf_sha256_witness:
  "derived_key_new ext_toy [1] (Some [2]) = hkdf_sha256 ext_toy 32 [1] (Some [2]) None"
  by (rule derived_key_is_hkdf_sha256) simp_all

section \<open>Fernet is a sealed box\<close>

text \<open>The wire form is that of \<open>bincode\<close>, a pair of functions; a failure carries its message.\<close>

definition ia_to_bytes :: "(identity_announce \<Rightarrow> bytes) \<Rightarrow> identity_announce \<Rightarrow> bytes" where
  "ia_to_bytes ser a = ser a"

definition ia_from_bytes :: "(bytes \<Rightarrow> string + identity_announce) \<Rightarrow> bytes \<Rightarrow> IdentityError + identity_announce" where
  "ia_from_bytes de data = (case de data of Inl e \<Rightarrow> Inl (Serde e) | Inr a \<Rightarrow> Inr a)"

definition fernet_wf :: "fernet \<Rightarrow> bool" where
  "fernet_wf f \<longleftrightarrow> length (fer_enc_key f) = 16"

lemma fernet_from_derived_wf [simp]: "length d = 32 \<Longrightarrow> fernet_wf (fernet_from_derived_key d)"
  by (simp add: fernet_wf_def fernet_from_derived_key_def)

lemma fernet_length:
  "hash_ok E \<Longrightarrow> aes_ok E \<Longrightarrow> fernet_wf f \<Longrightarrow> length iv = 16 \<Longrightarrow>
     length (fernet_encrypt E f iv p) = 48 + (length p div 16 + 1) * 16"
  by (simp add: fernet_encrypt_def fernet_wf_def Let_def hash_lengths aes_enc_length)

lemma fernet_decrypt_encrypt:
  "hash_ok E \<Longrightarrow> aes_ok E \<Longrightarrow> fernet_wf f \<Longrightarrow> length iv = 16 \<Longrightarrow>
     fernet_decrypt E f (fernet_encrypt E f iv p) = Inr p"
  by (simp add: fernet_decrypt_def fernet_encrypt_def fernet_wf_def Let_def hash_lengths
      aes_enc_length aes_dec_enc)

lemma fernet_mac:
  "fernet_decrypt E f t = Inr p \<Longrightarrow>
     drop (length t - 32) t = hmac_sha256 E (fer_sign_key f) (take (length t - 32) t)"
  by (auto simp: fernet_decrypt_def Let_def split: if_splits option.splits)

interpretation fernet_box: sealed_box "\<lambda>E. hash_ok E \<and> aes_ok E" fernet_wf
  "\<lambda>iv. length iv = 16" fernet_encrypt fernet_decrypt "\<lambda>E f. hmac_sha256 E (fer_sign_key f)" 48
  by unfold_locales (simp_all add: fernet_decrypt_encrypt fernet_mac fernet_length)

text \<open>The two ciphers write the same bytes.\<close>

lemma fernet_is_token: "fernet_encrypt E (fernet_from_derived_key d) iv p = token_encrypt E d iv p"
  by (simp add: fernet_encrypt_def fernet_from_derived_key_def token_encrypt_def Let_def)

section \<open>Encryption to an identity: lemmas\<close>

definition crypto_ok :: "ext \<Rightarrow> bool" where
  "crypto_ok E \<longleftrightarrow> hash_ok E \<and> aes_ok E \<and> dh_ok E"

lemma crypto_ok_toy [simp]: "crypto_ok ext_toy"
  by (simp add: crypto_ok_def)

lemma decrypt_encrypt_for:
  assumes E: "crypto_ok E" and l: "keys_wf k" "length eph = 32" "length iv = 16"
  shows "decrypt_from E k (encrypt_for E eph iv (encryption_key E k) (keys_rns_address E k) p) = Inr p"
proof -
  have ok: "hash_ok E" "aes_ok E" "dh_ok E" using E by (simp_all add: crypto_ok_def)
  have pub: "length (x25519_pub E eph) = 32" using ok l by (simp add: dh_lengths)
  have dh: "x25519_dh E (key_encryption k) (x25519_pub E eph) =
      x25519_dh E eph (encryption_key E k)"
    using ok l by (simp add: dh_agree keys_wf_def encryption_key_def)
  show ?thesis using ok l pub
    by (simp add: decrypt_from_def encrypt_for_def Let_def fernet_length fernet_decrypt_encrypt dh)
qed

text \<open>C28. Encryption to an identity is inverted by its owner: for every key bundle, ephemeral
  secret and vector, \<open>decrypt_from\<close> recovers what \<open>encrypt_for\<close> encrypted to the bundle's public
  key and Reticulum address. The Diffie-Hellman agreement of X25519 is what makes the two
  derived keys equal.\<close>

theorem encrypt_for_decrypt_from:
  assumes "crypto_ok E" "keys_wf k" "length eph = 32" "length iv = 16"
  shows "decrypt_from E k (encrypt_for E eph iv (encryption_key E k) (keys_rns_address E k) p) = Inr p"
  using assms by (rule decrypt_encrypt_for)

theorem encrypt_for_decrypt_from_witness:
  "let k = keys_from_secrets (replicate 32 1) (replicate 32 2)
   in decrypt_from ext_toy k (encrypt_for ext_toy (replicate 32 3) (replicate 16 4)
        (encryption_key ext_toy k) (keys_rns_address ext_toy k) [5, 6]) = Inr [5, 6]"
  using encrypt_for_decrypt_from [of ext_toy "keys_from_secrets (replicate 32 1) (replicate 32 2)"
      "replicate 32 3" "replicate 16 4" "[5, 6]"]
  by (simp add: Let_def keys_wf_def keys_from_secrets_def)

lemma secret_conversion:
  "hash_ok E \<Longrightarrow> ed25519_secret_to_x25519 E s = clamp (take 32 (sha512 E s))"
  by (simp add: ed25519_secret_to_x25519_def clamp_def Let_def hash_lengths)

text \<open>The packet pipeline, which encrypts to an Ed25519 key through its Montgomery form, is
  inverted by the owner of the signing seed under any non-empty salt hash: the clamped SHA-512
  scalar of \<open>ed25519_secret_to_x25519\<close> matches the converted public key.\<close>

theorem encrypt_packet_decrypt_packet:
  assumes E: "crypto_ok E" "sig_ok E" "conv_ok E"
    and l: "keys_wf k" "length eph = 32" "length iv = 16"
  shows "\<exists>c. encrypt_packet E eph iv p (identity_key_bytes E k) h = Inr c \<and>
    decrypt_packet E c k h = Inr p"
proof -
  have ok: "hash_ok E" "aes_ok E" "dh_ok E" using E by (simp_all add: crypto_ok_def)
  let ?x = "ed25519_secret_to_x25519 E (key_signing k)"
  have x: "length ?x = 32" using ok by (simp add: secret_conversion hash_lengths)
  have conv: "ed25519_pub_to_x25519 E (identity_key_bytes E k) = Inr (x25519_pub E ?x)"
    using E l ok
    by (simp add: ed25519_pub_to_x25519_def identity_key_bytes_def keys_wf_def sig_facts
        conv_ok_def secret_conversion)
  have dh: "x25519_dh E ?x (x25519_pub E eph) = x25519_dh E eph (x25519_pub E ?x)"
    using ok l x by (simp add: dh_agree)
  have key: "length (hkdf_sha256 E 32 s salt c) = 32" for s salt c
    using ok by (simp add: length_hkdf_sha256)
  have pub: "length (x25519_pub E eph) = 32" using ok l by (simp add: dh_lengths)
  have len: "32 < length (token_encrypt E q iv p) + 32" if "length q = 32" for q
    using token_box.seal_length [of E q iv p] ok l that by simp
  show ?thesis using ok l conv dh key pub len token_box.unseal_seal [of E _ iv p]
    by (simp add: encrypt_packet_def decrypt_packet_def ecdh_def Let_def)
qed

theorem encrypt_packet_decrypt_packet_witness:
  "\<exists>c. encrypt_packet ext_toy (replicate 32 3) (replicate 16 4) [7]
         (identity_key_bytes ext_toy (keys_from_secrets (replicate 32 1) (replicate 32 2))) [8] = Inr c \<and>
       decrypt_packet ext_toy c (keys_from_secrets (replicate 32 1) (replicate 32 2)) [8] = Inr [7]"
  by (rule encrypt_packet_decrypt_packet) (simp_all add: keys_wf_def keys_from_secrets_def)

section \<open>Identity announcements: lemmas\<close>

lemma sint_range: "- (2 ^ 63) \<le> sint (x :: u64)" "sint (x :: u64) < 2 ^ 63"
  using sint_ge [of x] sint_lt [of x] by simp_all

text \<open>A signed announcement is accepted exactly within the drift window: read at a time
  \<open>now\<close> it verifies if and only if the two clocks, read as signed 64-bit seconds, differ by at
  most 300 seconds. A panic needs clocks that are more than \<open>2^63\<close> seconds apart.\<close>

theorem ia_verify_signed:
  assumes "sig_ok E" and "keys_wf k"
  shows "(ia_verify E now (ia_sign E ts k) = Some (Inr ()) \<longleftrightarrow> \<bar>sint ts - sint now\<bar> \<le> 300) \<and>
    (\<bar>sint ts - sint now\<bar> < 2 ^ 63 \<longrightarrow> ia_verify E now (ia_sign E ts k) \<noteq> None)"
  using assms sig_facts [OF assms(1), of "key_signing k"]
  by (auto simp: ia_verify_def ia_sign_def Let_def keys_defs keys_wf_def)

theorem ia_verify_signed_witness:
  "ia_verify ext_toy 1000 (ia_sign ext_toy 1200 (keys_from_secrets (replicate 32 1) (replicate 32 2))) =
     Some (Inr ())"
  using ia_verify_signed [of ext_toy "keys_from_secrets (replicate 32 1) (replicate 32 2)" 1000 1200]
  by (simp add: keys_wf_def keys_from_secrets_def)

text \<open>An announce that went over the wire is judged as the one that was signed.\<close>

theorem ia_wire:
  assumes "\<forall>a. de (ser a) = Inr a" and "sig_ok E" and "keys_wf k" and "\<bar>sint ts - sint now\<bar> \<le> 300"
  shows "\<exists>a. ia_from_bytes de (ia_to_bytes ser (ia_sign E ts k)) = Inr a \<and> ia_verify E now a = Some (Inr ()) \<and>
    ia_identity_key a = identity_key_bytes E k \<and> ia_encryption_key a = encryption_key E k"
  using ia_verify_signed [OF assms(2,3), of now ts] assms(1,4)
  by (simp add: ia_from_bytes_def ia_to_bytes_def) (simp add: ia_sign_def)

lemma ia_verify_sound:
  "ia_verify E now a = Some (Inr ()) \<Longrightarrow>
     ed_verify E (ia_identity_key a)
       (ia_payload (ia_identity_key a) (ia_encryption_key a) (ia_created_at a)) (ia_signature a)"
  by (auto simp: ia_verify_def Let_def split: if_splits)

lemma ia_payload_inject:
  "length ik = 32 \<Longrightarrow> length ik' = 32 \<Longrightarrow> length ek = 32 \<Longrightarrow> length ek' = 32 \<Longrightarrow>
     ia_payload ik ek ts = ia_payload ik' ek' ts' \<longleftrightarrow> ik = ik' \<and> ek = ek' \<and> ts = ts'"
proof -
  have "le_bytes 8 (unat ts) = le_bytes 8 (unat ts') \<longleftrightarrow> ts = ts'"
    by (metis le_bytes_def rev_rev_ident u64_be_rt)
  then show "length ik = 32 \<Longrightarrow> length ik' = 32 \<Longrightarrow> length ek = 32 \<Longrightarrow> length ek' = 32 \<Longrightarrow> ?thesis"
    by (simp add: ia_payload_def)
qed

end
