(* ===== verification/Packet.thy ===== *)
theory Packet
  imports Address
begin

text \<open>
  \<open>crates/packet/src/packet.rs\<close>: the Reticulum wire packet, its bit-packed flags byte, its
  constructors, time-to-live and the two directions of the wire format. The main result is that
  \<open>to_bytes\<close> and \<open>from_bytes\<close> form a canonical codec: the accepted byte strings and the
  well-formed packets are in bijection.
\<close>

section \<open>Constants\<close>

abbreviation (input) DATA :: u8 where "DATA \<equiv> 0x00"
abbreviation (input) ANNOUNCE :: u8 where "ANNOUNCE \<equiv> 0x01"
abbreviation (input) LINKREQUEST :: u8 where "LINKREQUEST \<equiv> 0x02"
abbreviation (input) PROOF :: u8 where "PROOF \<equiv> 0x03"

abbreviation (input) HEADER_1 :: u8 where "HEADER_1 \<equiv> 0x00"
abbreviation (input) HEADER_2 :: u8 where "HEADER_2 \<equiv> 0x01"

abbreviation (input) NONE :: u8 where "NONE \<equiv> 0x00"
abbreviation (input) RESOURCE :: u8 where "RESOURCE \<equiv> 0x01"
abbreviation (input) CHANNEL :: u8 where "CHANNEL \<equiv> 0x0E"
abbreviation (input) RATCHET :: u8 where "RATCHET \<equiv> 0x0F"
abbreviation (input) PATH_REQUEST :: u8 where "PATH_REQUEST \<equiv> 0x10"
abbreviation (input) PATH_RESPONSE :: u8 where "PATH_RESPONSE \<equiv> 0x0B"
abbreviation (input) KEEPALIVE :: u8 where "KEEPALIVE \<equiv> 0xFA"
abbreviation (input) LINKCLOSE :: u8 where "LINKCLOSE \<equiv> 0xFC"
abbreviation (input) LRRTT :: u8 where "LRRTT \<equiv> 0xFE"
abbreviation (input) LRPROOF :: u8 where "LRPROOF \<equiv> 0xFF"

abbreviation (input) DEST_SINGLE :: u8 where "DEST_SINGLE \<equiv> 0x00"
abbreviation (input) DEST_LINK :: u8 where "DEST_LINK \<equiv> 0x01"
abbreviation (input) FLAG_UNSET :: u8 where "FLAG_UNSET \<equiv> 0x00"
abbreviation (input) FLAG_SET :: u8 where "FLAG_SET \<equiv> 0x01"
abbreviation (input) TRANSPORT_BROADCAST :: u8 where "TRANSPORT_BROADCAST \<equiv> 0x00"
abbreviation (input) TRANSPORT_UNICAST :: u8 where "TRANSPORT_UNICAST \<equiv> 0x01"

abbreviation (input) HASH_LENGTH :: nat where "HASH_LENGTH \<equiv> 16"
abbreviation (input) HEADER_MINSIZE :: nat where "HEADER_MINSIZE \<equiv> 19"
abbreviation (input) HEADER_MAXSIZE :: nat where "HEADER_MAXSIZE \<equiv> 35"
abbreviation (input) MAX_HOPS :: u8 where "MAX_HOPS \<equiv> 64"

section \<open>Data\<close>

datatype PacketError = PInvalid string | PSerde string

definition packet_error_text :: "PacketError \<Rightarrow> string" where
  "packet_error_text e = (case e of
       PInvalid s \<Rightarrow> ''invalid packet: '' @ s | PSerde s \<Rightarrow> ''serialization: '' @ s)"

record packet =
  pkt_header_type :: u8
  pkt_context_flag :: u8
  pkt_transport_type :: u8
  pkt_destination_type :: u8
  pkt_packet_type :: u8
  pkt_hops :: u8
  pkt_destination_hash :: bytes
  pkt_transport_id :: "bytes option"
  pkt_context :: u8
  pkt_data :: bytes

section \<open>Flags\<close>

definition pack_flags :: "u8 \<Rightarrow> u8 \<Rightarrow> u8 \<Rightarrow> u8 \<Rightarrow> u8 \<Rightarrow> u8" where
  "pack_flags header_type context_flag transport_type destination_type packet_type =
     push_bit 6 (header_type AND 0x03) OR push_bit 5 (context_flag AND 0x01) OR
     push_bit 4 (transport_type AND 0x01) OR push_bit 2 (destination_type AND 0x03) OR
     (packet_type AND 0x03)"

definition unpack_flags :: "u8 \<Rightarrow> u8 \<times> u8 \<times> u8 \<times> u8 \<times> u8" where
  "unpack_flags flags =
     (drop_bit 6 flags AND 0x03, drop_bit 5 flags AND 0x01, drop_bit 4 flags AND 0x01,
      drop_bit 2 flags AND 0x03, flags AND 0x03)"

section \<open>Constructors and time to live\<close>

definition new_data :: "rns_address \<Rightarrow> bytes \<Rightarrow> packet" where
  "new_data destination data = \<lparr> pkt_header_type = HEADER_1, pkt_context_flag = FLAG_UNSET,
     pkt_transport_type = TRANSPORT_BROADCAST, pkt_destination_type = DEST_SINGLE,
     pkt_packet_type = DATA, pkt_hops = MAX_HOPS, pkt_destination_hash = destination,
     pkt_transport_id = None, pkt_context = NONE, pkt_data = data \<rparr>"

definition new_announce :: "rns_address \<Rightarrow> bytes \<Rightarrow> packet" where
  "new_announce destination data = \<lparr> pkt_header_type = HEADER_1, pkt_context_flag = FLAG_SET,
     pkt_transport_type = TRANSPORT_BROADCAST, pkt_destination_type = DEST_SINGLE,
     pkt_packet_type = ANNOUNCE, pkt_hops = 1, pkt_destination_hash = destination,
     pkt_transport_id = None, pkt_context = NONE, pkt_data = data \<rparr>"

definition new_link_request :: "rns_address \<Rightarrow> bytes \<Rightarrow> packet" where
  "new_link_request destination data = \<lparr> pkt_header_type = HEADER_1,
     pkt_context_flag = FLAG_UNSET, pkt_transport_type = TRANSPORT_BROADCAST,
     pkt_destination_type = DEST_SINGLE, pkt_packet_type = LINKREQUEST, pkt_hops = MAX_HOPS,
     pkt_destination_hash = destination, pkt_transport_id = None, pkt_context = NONE,
     pkt_data = data \<rparr>"

definition new_proof :: "rns_address \<Rightarrow> u8 \<Rightarrow> bytes \<Rightarrow> packet" where
  "new_proof destination ctx data = \<lparr> pkt_header_type = HEADER_1, pkt_context_flag = FLAG_SET,
     pkt_transport_type = TRANSPORT_UNICAST, pkt_destination_type = DEST_SINGLE,
     pkt_packet_type = PROOF, pkt_hops = MAX_HOPS, pkt_destination_hash = destination,
     pkt_transport_id = None, pkt_context = ctx, pkt_data = data \<rparr>"

definition new_transport :: "rns_address \<Rightarrow> bytes \<Rightarrow> bytes \<Rightarrow> packet" where
  "new_transport destination transport_id data = \<lparr> pkt_header_type = HEADER_2,
     pkt_context_flag = FLAG_UNSET, pkt_transport_type = TRANSPORT_UNICAST,
     pkt_destination_type = DEST_SINGLE, pkt_packet_type = DATA, pkt_hops = MAX_HOPS,
     pkt_destination_hash = destination, pkt_transport_id = Some transport_id,
     pkt_context = NONE, pkt_data = data \<rparr>"

lemmas packet_constructors =
  new_data_def new_announce_def new_link_request_def new_proof_def new_transport_def

definition is_expired :: "packet \<Rightarrow> bool" where
  "is_expired p \<longleftrightarrow> pkt_hops p = 0"

definition decrement_ttl :: "packet \<Rightarrow> packet" where
  "decrement_ttl p = p\<lparr>pkt_hops := (if pkt_hops p = 0 then 0 else pkt_hops p - 1)\<rparr>"

definition packet_destination :: "packet \<Rightarrow> PacketError + rns_address" where
  "packet_destination p = (case rns_from_bytes (pkt_destination_hash p) of
       Inl _ \<Rightarrow> Inl (PInvalid ''invalid destination hash'')
     | Inr a \<Rightarrow> Inr a)"

section \<open>Wire format\<close>

definition packet_to_bytes :: "packet \<Rightarrow> bytes" where
  "packet_to_bytes p =
     [pack_flags (pkt_header_type p) (pkt_context_flag p) (pkt_transport_type p)
        (pkt_destination_type p) (pkt_packet_type p),
      pkt_hops p] @
     (if pkt_header_type p = HEADER_2
      then (case pkt_transport_id p of Some tid \<Rightarrow> tid | None \<Rightarrow> []) else []) @
     pkt_destination_hash p @ [pkt_context p] @ pkt_data p"

definition packet_from_bytes :: "bytes \<Rightarrow> PacketError + packet" where
  "packet_from_bytes data =
     (if length data < 3 then Inl (PInvalid ''packet too short (< 3 bytes)'')
      else
        let flags = data ! 0; hops = data ! 1;
            (header_type, context_flag, transport_type, destination_type, packet_type) =
              unpack_flags flags;
            build = (\<lambda>transport_id pos.
              Inr \<lparr> pkt_header_type = header_type, pkt_context_flag = context_flag,
                pkt_transport_type = transport_type, pkt_destination_type = destination_type,
                pkt_packet_type = packet_type, pkt_hops = hops,
                pkt_destination_hash = slice pos (pos + HASH_LENGTH) data,
                pkt_transport_id = transport_id, pkt_context = data ! (pos + HASH_LENGTH),
                pkt_data = drop (pos + HASH_LENGTH + 1) data \<rparr>)
        in if header_type = HEADER_2 then
             (if length data < 2 + HASH_LENGTH + HASH_LENGTH + 1
              then Inl (PInvalid
                ''HEADER_2 packet too short for transport_id + dest_hash + context'')
              else build (Some (slice 2 (2 + HASH_LENGTH) data)) (2 + HASH_LENGTH))
           else
             (if length data < 2 + HASH_LENGTH + 1
              then Inl (PInvalid ''HEADER_1 packet too short for dest_hash + context'')
              else build None 2))"

section \<open>Well-formed packets\<close>

text \<open>
  The header fields fit their bits of the flags byte, the hashes have 16 bytes and the transport
  id is there exactly with \<open>HEADER_2\<close>.
\<close>

definition packet_wf :: "packet \<Rightarrow> bool" where
  "packet_wf p \<longleftrightarrow>
     pkt_header_type p AND 0x03 = pkt_header_type p \<and>
     pkt_context_flag p AND 0x01 = pkt_context_flag p \<and>
     pkt_transport_type p AND 0x01 = pkt_transport_type p \<and>
     pkt_destination_type p AND 0x03 = pkt_destination_type p \<and>
     pkt_packet_type p AND 0x03 = pkt_packet_type p \<and>
     length (pkt_destination_hash p) = HASH_LENGTH \<and>
     (if pkt_header_type p = HEADER_2
      then (case pkt_transport_id p of Some tid \<Rightarrow> length tid = HASH_LENGTH | None \<Rightarrow> False)
      else pkt_transport_id p = None)"

section \<open>Flags: lemmas\<close>

lemma unpack_pack_flags:
  "unpack_flags (pack_flags h c t d k) = (h AND 3, c AND 1, t AND 1, d AND 3, k AND 3)"
  by (auto intro!: u8_eqI simp: unpack_flags_def pack_flags_def bit_simps)

lemma pack_unpack_flags:
  "unpack_flags f = (h, c, t, d, k) \<Longrightarrow> pack_flags h c t d k = f"
  by (auto intro!: u8_eqI simp: unpack_flags_def pack_flags_def bit_simps)

lemma unpack_flags_masked:
  "unpack_flags f = (h, c, t, d, k) \<Longrightarrow>
     h AND 3 = h \<and> c AND 1 = c \<and> t AND 1 = t \<and> d AND 3 = d \<and> k AND 3 = k"
  by (auto simp: unpack_flags_def and.assoc)

section \<open>The wire format is a canonical codec\<close>

lemma packet_length [wire_len]:
  "packet_wf p \<Longrightarrow> length (packet_to_bytes p) =
     (if pkt_header_type p = HEADER_2 then HEADER_MAXSIZE else HEADER_MINSIZE) + length (pkt_data p)"
  by (auto simp: packet_to_bytes_def packet_wf_def split: option.splits if_splits)

lemma packet_dec_enc: "packet_wf p \<Longrightarrow> packet_from_bytes (packet_to_bytes p) = Inr p"
  using packet_length [of p]
  by (cases p) (auto simp: packet_from_bytes_def packet_to_bytes_def packet_wf_def
      unpack_pack_flags Let_def nth_append split: option.splits if_splits)

lemma slice_nth_drop:
  "n + k < length xs \<Longrightarrow> slice n (n + k) xs @ xs ! (n + k) # drop (Suc (n + k)) xs = drop n xs"
proof -
  assume len: "n + k < length xs"
  then have "xs ! (n + k) # drop (Suc (n + k)) xs = drop (n + k) xs"
    by (rule Cons_nth_drop_Suc)
  moreover have "drop (n + k) xs = drop k (drop n xs)" by (simp add: add.commute)
  ultimately show ?thesis by (simp only: add_diff_cancel_left' append_take_drop_id)
qed

lemma two_heads: "2 \<le> length xs \<Longrightarrow> xs ! 0 # xs ! 1 # drop 2 xs = xs"
  by (cases xs; cases "tl xs") auto

lemma packet_enc_dec:
  assumes "packet_from_bytes bs = Inr p"
  shows "packet_wf p \<and> packet_to_bytes p = bs"
proof -
  obtain h c t d k where u: "unpack_flags (bs ! 0) = (h, c, t, d, k)"
    by (cases "unpack_flags (bs ! 0)") auto
  note m = unpack_flags_masked [OF u] and f = pack_unpack_flags [OF u]
  have l: "3 \<le> length bs" using assms by (auto simp: packet_from_bytes_def split: if_splits)
  note th = two_heads [of bs]
  show ?thesis
  proof (cases "h = HEADER_2")
    case True
    with assms u l have "35 \<le> length bs"
      by (auto simp: packet_from_bytes_def split: if_splits)
    with assms u l True m f th slice_nth_drop [of 18 16 bs] show ?thesis
      using append_take_drop_id [of 16 "drop 2 bs"]
      by (auto simp: packet_from_bytes_def packet_wf_def packet_to_bytes_def)
  next
    case False
    with assms u l have "19 \<le> length bs"
      by (auto simp: packet_from_bytes_def split: if_splits)
    with assms u l False m f th slice_nth_drop [of 2 16 bs] show ?thesis
      by (auto simp: packet_from_bytes_def packet_wf_def packet_to_bytes_def)
  qed
qed

interpretation packet_codec: canonical_codec packet_to_bytes packet_from_bytes packet_wf
  by unfold_locales (simp_all add: packet_dec_enc packet_enc_dec)

text \<open>C1. The packet wire format is exact: \<open>Packet::from_bytes\<close> accepts a byte string if and only
  if it is \<open>to_bytes\<close> of a well-formed packet, and then returns that packet.\<close>

theorem packet_from_bytes_iff:
  "packet_from_bytes bs = Inr p \<longleftrightarrow> packet_wf p \<and> bs = packet_to_bytes p"
  by (rule packet_codec.dec_iff)

lemma constructors_wf:
  assumes "length a = HASH_LENGTH"
  shows "packet_wf (new_data a d)" "packet_wf (new_announce a d)"
    "packet_wf (new_link_request a d)" "packet_wf (new_proof a c d)"
    "length tid = HASH_LENGTH \<Longrightarrow> packet_wf (new_transport a tid d)"
  using assms by (simp_all add: packet_wf_def packet_constructors)

lemma packet_destination_wf: "packet_wf p \<Longrightarrow> packet_destination p = Inr (pkt_destination_hash p)"
  by (simp add: packet_destination_def packet_wf_def rns_from_bytes_def)

lemma unat_decrement_ttl: "unat (pkt_hops (decrement_ttl p)) = unat (pkt_hops p) - 1"
  by (simp add: decrement_ttl_def unat_sub_if' unat_eq_zero [symmetric] Suc_le_eq)

lemma decrement_ttl_wf [simp]: "packet_wf (decrement_ttl p) = packet_wf p"
  by (simp add: decrement_ttl_def packet_wf_def)

lemma decrement_ttl_iter: "unat (pkt_hops ((decrement_ttl ^^ n) p)) = unat (pkt_hops p) - n"
  by (induction n) (simp_all add: unat_decrement_ttl)

text \<open>The hop limit bounds forwarding: after n decrements a packet is expired exactly if its
  hop count was at most n, and a freshly built data packet expires after \<open>MAX_HOPS\<close> of them and
  not before.\<close>

theorem ttl_bound:
  "(is_expired ((decrement_ttl ^^ n) p) \<longleftrightarrow> unat (pkt_hops p) \<le> n) \<and>
   (is_expired ((decrement_ttl ^^ n) (new_data a d)) \<longleftrightarrow> 64 \<le> n)"
proof -
  have *: "is_expired q \<longleftrightarrow> unat (pkt_hops q) = 0" for q
    by (simp add: is_expired_def unat_eq_zero)
  show ?thesis by (simp add: * decrement_ttl_iter new_data_def)
qed

end
