(* ===== verification/Destination.thy ===== *)
theory Destination
  imports Identity Packet
begin

text \<open>
  \<open>crates/destination\<close> (application endpoints and their hashes), \<open>crates/transport/src/error.rs\<close>
  and \<open>crates/transport/src/proof.rs\<close> (the 96-byte signed proofs of the link handshake). Names
  are ASCII strings; \<open>as_bytes\<close> takes a string to the bytes of its characters.
\<close>

section \<open>Destination\<close>

abbreviation (input) NAME_HASH_LENGTH :: nat where "NAME_HASH_LENGTH \<equiv> 10"

record destination =
  dst_keys :: keys
  dst_hash :: rns_address
  dst_type :: u8
  dst_app_name :: string
  dst_aspects :: "string list"
  dst_name :: string
  dst_mtu :: u16

definition expand_name :: "string \<Rightarrow> string list \<Rightarrow> string" where
  "expand_name app_name aspects =
     (if aspects = [] then app_name else app_name @ ''.'' @ str_join ''.'' aspects)"

definition compute_hash :: "ext \<Rightarrow> keys \<Rightarrow> string \<Rightarrow> string list \<Rightarrow> rns_address" where
  "compute_hash E k app_name aspects =
     (let full_name = expand_name app_name aspects;
          name_hash = take NAME_HASH_LENGTH (sha256 E (str_bytes full_name));
          result = sha256 E (name_hash @ keys_rns_address E k)
      in take HASH_LENGTH result)"

definition destination_new :: "ext \<Rightarrow> keys \<Rightarrow> string \<Rightarrow> string list \<Rightarrow> u8 \<Rightarrow> destination" where
  "destination_new E k app_name aspects dest_type =
     (let expanded = expand_name app_name aspects; hash = compute_hash E k app_name aspects
      in \<lparr> dst_keys = k, dst_hash = hash, dst_type = dest_type, dst_app_name = app_name,
           dst_aspects = aspects, dst_name = expanded @ ''.'' @ hex_encode E hash,
           dst_mtu = 500 \<rparr>)"

definition destination_singleton :: "ext \<Rightarrow> keys \<Rightarrow> string \<Rightarrow> string list \<Rightarrow> destination" where
  "destination_singleton E k app_name aspects = destination_new E k app_name aspects 0x00"

definition destination_set_mtu :: "u16 \<Rightarrow> destination \<Rightarrow> destination" where
  "destination_set_mtu mtu d = d\<lparr>dst_mtu := mtu\<rparr>"

lemma length_compute_hash [simp, wire_len]: "hash_ok E \<Longrightarrow> length (compute_hash E k a as) = 16"
  by (simp add: compute_hash_def Let_def hash_lengths)

lemma destination_new_fields [simp]:
  "dst_hash (destination_new E k a as t) = compute_hash E k a as"
  "dst_keys (destination_new E k a as t) = k"
  by (simp_all add: destination_new_def Let_def)

section \<open>Transport errors\<close>

datatype TransportError =
    LinkNotEstablished
  | LinkAlreadyEstablished
  | LinkClosed
  | InvalidLinkState string
  | TProofError string
  | SignatureVerification
  | TPacketError PacketError
  | UnknownResource string
  | ResourceInProgress string
  | ResourceSegmentOrder u32 u32
  | InvalidChunkSize nat
  | TIo string
  | TOther string

definition transport_error_text :: "TransportError \<Rightarrow> string" where
  "transport_error_text e = (case e of
       LinkNotEstablished \<Rightarrow> ''link not established''
     | LinkAlreadyEstablished \<Rightarrow> ''link already established''
     | LinkClosed \<Rightarrow> ''link closed''
     | InvalidLinkState s \<Rightarrow> ''invalid link state: '' @ s
     | TProofError s \<Rightarrow> ''proof error: '' @ s
     | SignatureVerification \<Rightarrow> ''signature verification failed''
     | TPacketError p \<Rightarrow> ''packet error: '' @ packet_error_text p
     | UnknownResource s \<Rightarrow> ''unknown resource: '' @ s
     | ResourceInProgress s \<Rightarrow> ''resource transfer already in progress: '' @ s
     | ResourceSegmentOrder e g \<Rightarrow> ''resource segment out of order: expected '' @
         show_nat (unat e) @ '', got '' @ show_nat (unat g)
     | InvalidChunkSize n \<Rightarrow> ''invalid chunk size: '' @ show_nat n
     | TIo s \<Rightarrow> ''I/O error: '' @ s
     | TOther s \<Rightarrow> ''transport error: '' @ s)"

section \<open>Proofs\<close>

abbreviation (input) PROOF_LEN :: nat where "PROOF_LEN \<equiv> 96"
abbreviation (input) PROOF_HASH_LEN :: nat where "PROOF_HASH_LEN \<equiv> 32"
abbreviation (input) PROOF_SIG_LEN :: nat where "PROOF_SIG_LEN \<equiv> 64"

datatype ProofError =
    InvalidFormat string
  | PrSerialization string
  | PrSignatureMismatch
  | HashMismatch

definition proof_error_text :: "ProofError \<Rightarrow> string" where
  "proof_error_text e = (case e of
       InvalidFormat s \<Rightarrow> ''invalid proof format: '' @ s
     | PrSerialization s \<Rightarrow> ''proof serialization failed: '' @ s
     | PrSignatureMismatch \<Rightarrow> ''signature mismatch''
     | HashMismatch \<Rightarrow> ''packet hash mismatch'')"

record lproof =
  prf_packet_hash :: bytes
  prf_signature :: bytes

definition proof_to_bytes :: "lproof \<Rightarrow> bytes" where
  "proof_to_bytes p = prf_packet_hash p @ prf_signature p"

definition proof_from_bytes :: "bytes \<Rightarrow> ProofError + lproof" where
  "proof_from_bytes bs =
     (if length bs \<noteq> PROOF_LEN
      then Inl (InvalidFormat (''expected '' @ show_nat PROOF_LEN @ '' bytes, got '' @
        show_nat (length bs)))
      else Inr \<lparr> prf_packet_hash = take PROOF_HASH_LEN bs, prf_signature = drop PROOF_HASH_LEN bs \<rparr>)"

definition generate_proof :: "ext \<Rightarrow> keys \<Rightarrow> bytes \<Rightarrow> lproof" where
  "generate_proof E k message =
     \<lparr> prf_packet_hash = sha256 E message, prf_signature = keys_sign E k message \<rparr>"

definition verify_proof_with_public_key :: "ext \<Rightarrow> bytes \<Rightarrow> bytes \<Rightarrow> lproof \<Rightarrow> ProofError + unit" where
  "verify_proof_with_public_key E public_key message p =
     (if sha256 E message \<noteq> prf_packet_hash p then Inl HashMismatch
      else if \<not> ed_key_valid E public_key
      then Inl (InvalidFormat (''invalid public key: '' @ ed_key_error E public_key))
      else if ed_verify_strict E public_key message (prf_signature p) then Inr ()
      else Inl PrSignatureMismatch)"

definition verify_proof :: "ext \<Rightarrow> keys \<Rightarrow> bytes \<Rightarrow> lproof \<Rightarrow> ProofError + unit" where
  "verify_proof E k message p = verify_proof_with_public_key E (identity_key_bytes E k) message p"

definition proof_wf :: "lproof \<Rightarrow> bool" where
  "proof_wf p \<longleftrightarrow> length (prf_packet_hash p) = PROOF_HASH_LEN \<and> length (prf_signature p) = PROOF_SIG_LEN"

interpretation proof_codec: canonical_codec proof_to_bytes proof_from_bytes proof_wf
  by unfold_locales
    (auto simp: proof_to_bytes_def proof_from_bytes_def proof_wf_def split: if_splits)

lemma generate_proof_wf [simp]:
  "hash_ok E \<Longrightarrow> sig_ok E \<Longrightarrow> keys_wf k \<Longrightarrow> proof_wf (generate_proof E k m)"
  by (simp add: proof_wf_def generate_proof_def hash_lengths keys_sign_def keys_wf_def sig_facts)

lemma verify_generated:
  "sig_ok E \<Longrightarrow> keys_wf k \<Longrightarrow> verify_proof E k m (generate_proof E k m) = Inr ()"
  by (simp add: verify_proof_def verify_proof_with_public_key_def generate_proof_def
      keys_defs keys_wf_def sig_facts)

lemma verify_sound:
  "verify_proof_with_public_key E pk m p = Inr () \<longleftrightarrow>
     prf_packet_hash p = sha256 E m \<and> ed_key_valid E pk \<and> ed_verify_strict E pk m (prf_signature p)"
  by (auto simp: verify_proof_with_public_key_def)

lemma proof_dec_generated:
  "hash_ok E \<Longrightarrow> sig_ok E \<Longrightarrow> keys_wf k \<Longrightarrow>
     proof_from_bytes (proof_to_bytes (generate_proof E k m)) = Inr (generate_proof E k m)"
  by (simp add: proof_codec.roundtrip)

text \<open>Proofs on the wire: a byte string is accepted as a proof exactly if it is the 96-byte
  encoding of one, and the encoding of a generated proof is accepted and verifies under the
  public key of the keys that made it, for the same message.\<close>

theorem proof_wire:
  assumes "hash_ok E" "sig_ok E" "keys_wf k"
  shows "(proof_from_bytes bs = Inr p \<longleftrightarrow> proof_wf p \<and> bs = proof_to_bytes p) \<and>
    (\<exists>q. proof_from_bytes (proof_to_bytes (generate_proof E k m)) = Inr q \<and>
       verify_proof_with_public_key E (identity_key_bytes E k) m q = Inr ())"
  using assms verify_generated [OF assms(2,3), of m]
  by (simp add: proof_codec.dec_iff proof_dec_generated verify_proof_def)

theorem proof_wire_witness:
  "\<exists>q. proof_from_bytes (proof_to_bytes (generate_proof ext_toy
          (keys_from_secrets (replicate 32 1) (replicate 32 2)) [3])) = Inr q \<and>
       verify_proof_with_public_key ext_toy (identity_key_bytes ext_toy
          (keys_from_secrets (replicate 32 1) (replicate 32 2))) [3] q = Inr ()"
  by (rule proof_wire [THEN conjunct2]) (simp_all add: keys_wf_def keys_from_secrets_def)

end
