(* ===== verification/Link.thy ===== *)
theory Link
  imports Destination
begin

text \<open>
  \<open>crates/transport/src/link.rs\<close>: the link between two destinations, its proof handshake, its
  encryption and its message buffers. Every method is a function from a link to a link and a
  result; the time, the initialisation vector and the ephemeral secret that a method draws are
  arguments. \<open>Arc<Destination>\<close> is the destination itself: nothing changes it after a link is
  made. The counter \<open>establishment_attempts\<close> wraps on overflow, as it does in a release build.
\<close>

section \<open>Configuration and state\<close>

record link_config =
  lc_mtu :: u16
  lc_max_retries :: u32
  lc_handshake_timeout_ms :: u64

definition link_config_default :: link_config where
  "link_config_default = \<lparr> lc_mtu = 500, lc_max_retries = 3, lc_handshake_timeout_ms = 30000 \<rparr>"

definition link_config_build :: "u16 option \<Rightarrow> u32 option \<Rightarrow> u64 option \<Rightarrow> link_config" where
  "link_config_build mtu max_retries handshake_timeout_ms =
     \<lparr> lc_mtu = (case mtu of Some m \<Rightarrow> m | None \<Rightarrow> 500),
       lc_max_retries = (case max_retries of Some r \<Rightarrow> r | None \<Rightarrow> 3),
       lc_handshake_timeout_ms = (case handshake_timeout_ms of Some t \<Rightarrow> t | None \<Rightarrow> 30000) \<rparr>"

datatype link_state = Closed | Handshaking | Established

record link =
  lnk_local :: destination
  lnk_remote :: rns_address
  lnk_remote_encryption_key :: "bytes option"
  lnk_remote_signing_key :: "bytes option"
  lnk_shared_key :: "bytes option"
  lnk_config :: link_config
  lnk_state :: link_state
  lnk_transport_id :: bytes
  lnk_link_id :: bytes
  lnk_initiator :: bool
  lnk_inbound :: "bytes list"
  lnk_outbound :: "packet list"
  lnk_last_inbound :: instant
  lnk_last_outbound :: instant
  lnk_keepalive_enabled :: bool
  lnk_rtt :: "f64 option"
  lnk_established_at :: instant
  lnk_establishment_cost :: "f64 option"
  lnk_establishment_attempts :: u32
  lnk_ratchet_priv :: "bytes option"
  lnk_peer_ratchet_key :: "bytes option"
  lnk_ratchet_sequence :: u32
  lnk_ratchet_pending_send :: bool

abbreviation (input) LINKPROOF :: u8 where "LINKPROOF \<equiv> 0xFD"

definition derive_transport_id :: "rns_address \<Rightarrow> rns_address \<Rightarrow> bytes" where
  "derive_transport_id local remote = map (\<lambda>i. local ! i XOR remote ! i) [0..<16]"

definition link_with_config ::
  "instant \<Rightarrow> destination \<Rightarrow> rns_address \<Rightarrow> link_config \<Rightarrow> link" where
  "link_with_config now local remote config =
     \<lparr> lnk_local = local, lnk_remote = remote, lnk_remote_encryption_key = None,
       lnk_remote_signing_key = None, lnk_shared_key = None, lnk_config = config,
       lnk_state = Closed, lnk_transport_id = derive_transport_id (dst_hash local) remote,
       lnk_link_id = replicate 16 0, lnk_initiator = False, lnk_inbound = [], lnk_outbound = [],
       lnk_last_inbound = now, lnk_last_outbound = now, lnk_keepalive_enabled = True,
       lnk_rtt = None, lnk_established_at = now, lnk_establishment_cost = None,
       lnk_establishment_attempts = 0, lnk_ratchet_priv = None, lnk_peer_ratchet_key = None,
       lnk_ratchet_sequence = 0, lnk_ratchet_pending_send = False \<rparr>"

definition link_new :: "instant \<Rightarrow> destination \<Rightarrow> rns_address \<Rightarrow> link" where
  "link_new now local remote = link_with_config now local remote link_config_default"

section \<open>Accessors that change the link\<close>

definition link_set_link_id :: "bytes \<Rightarrow> link \<Rightarrow> link" where
  "link_set_link_id i l = l\<lparr>lnk_link_id := i\<rparr>"

definition link_set_initiator :: "bool \<Rightarrow> link \<Rightarrow> link" where
  "link_set_initiator b l = l\<lparr>lnk_initiator := b\<rparr>"

definition link_set_remote_encryption_key :: "bytes \<Rightarrow> link \<Rightarrow> link" where
  "link_set_remote_encryption_key k l = l\<lparr>lnk_remote_encryption_key := Some k\<rparr>"

definition link_set_remote_signing_key :: "bytes \<Rightarrow> link \<Rightarrow> link" where
  "link_set_remote_signing_key k l = l\<lparr>lnk_remote_signing_key := Some k\<rparr>"

definition link_is_encrypted :: "link \<Rightarrow> bool" where
  "link_is_encrypted l \<longleftrightarrow> lnk_remote_encryption_key l \<noteq> None \<or> lnk_shared_key l \<noteq> None"

definition link_set_keepalive_enabled :: "bool \<Rightarrow> link \<Rightarrow> link" where
  "link_set_keepalive_enabled b l = l\<lparr>lnk_keepalive_enabled := b\<rparr>"

definition link_set_rtt :: "f64 option \<Rightarrow> link \<Rightarrow> link" where
  "link_set_rtt r l = l\<lparr>lnk_rtt := r\<rparr>"

definition link_set_establishment_cost :: "f64 option \<Rightarrow> link \<Rightarrow> link" where
  "link_set_establishment_cost c l = l\<lparr>lnk_establishment_cost := c\<rparr>"

definition link_record_establishment_attempt :: "link \<Rightarrow> link" where
  "link_record_establishment_attempt l =
     l\<lparr>lnk_establishment_attempts := lnk_establishment_attempts l + 1\<rparr>"

definition link_set_ratchet_priv :: "bytes \<Rightarrow> link \<Rightarrow> link" where
  "link_set_ratchet_priv k l = l\<lparr>lnk_ratchet_priv := Some k\<rparr>"

definition link_set_peer_ratchet_key :: "bytes \<Rightarrow> link \<Rightarrow> link" where
  "link_set_peer_ratchet_key k l = l\<lparr>lnk_peer_ratchet_key := Some k\<rparr>"

definition link_increment_ratchet_sequence :: "link \<Rightarrow> link \<times> u32" where
  "link_increment_ratchet_sequence l =
     (let s = lnk_ratchet_sequence l + 1 in (l\<lparr>lnk_ratchet_sequence := s\<rparr>, s))"

definition link_set_ratchet_pending_send :: "bool \<Rightarrow> link \<Rightarrow> link" where
  "link_set_ratchet_pending_send b l = l\<lparr>lnk_ratchet_pending_send := b\<rparr>"

definition link_set_shared_key :: "bytes \<Rightarrow> link \<Rightarrow> link" where
  "link_set_shared_key k l = l\<lparr>lnk_shared_key := Some k\<rparr>"

definition link_set_state :: "link_state \<Rightarrow> link \<Rightarrow> link" where
  "link_set_state s l = l\<lparr>lnk_state := s\<rparr>"

lemmas link_setters = link_set_link_id_def link_set_initiator_def
  link_set_remote_encryption_key_def link_set_remote_signing_key_def
  link_set_keepalive_enabled_def link_set_rtt_def link_set_establishment_cost_def
  link_record_establishment_attempt_def link_set_ratchet_priv_def link_set_peer_ratchet_key_def
  link_set_ratchet_pending_send_def link_set_shared_key_def link_set_state_def

section \<open>Link encryption\<close>

definition link_key_context :: bytes where
  "link_key_context = str_bytes ''ReticulumLinkKey''"

definition encrypt_link_data :: "ext \<Rightarrow> bytes \<Rightarrow> bytes \<Rightarrow> bytes \<Rightarrow> bytes" where
  "encrypt_link_data E plaintext shared_key link_id =
     (let derived = hkdf_sha256 E 32 shared_key (Some link_id) (Some link_key_context);
          enc_key = take 16 derived; iv = slice 16 32 derived;
          buf = aes_cbc_enc E enc_key iv plaintext
      in buf @ hmac_sha256 E enc_key buf)"

definition decrypt_link_data :: "ext \<Rightarrow> bytes \<Rightarrow> bytes \<Rightarrow> bytes \<Rightarrow> string + bytes" where
  "decrypt_link_data E ciphertext_with_hmac shared_key link_id =
     (if length ciphertext_with_hmac < 32 then Inl ''ciphertext too short''
      else let ciphertext = take (length ciphertext_with_hmac - 32) ciphertext_with_hmac;
               hmac_received = drop (length ciphertext_with_hmac - 32) ciphertext_with_hmac;
               derived = hkdf_sha256 E 32 shared_key (Some link_id) (Some link_key_context);
               enc_key = take 16 derived; iv = slice 16 32 derived
           in if hmac_sha256 E enc_key ciphertext \<noteq> hmac_received
              then Inl ''HMAC verification failed''
              else case aes_cbc_dec E enc_key iv ciphertext of
                  None \<Rightarrow> Inl (''decryption failed: '' @ unpad_error E)
                | Some plaintext \<Rightarrow> Inr plaintext)"

section \<open>Handshake\<close>

definition link_packet :: "link \<Rightarrow> u8 \<Rightarrow> u8 \<Rightarrow> u8 \<Rightarrow> bytes \<Rightarrow> packet" where
  "link_packet l flag ptype ctx payload =
     \<lparr> pkt_header_type = HEADER_2, pkt_context_flag = flag,
       pkt_transport_type = TRANSPORT_UNICAST, pkt_destination_type = DEST_LINK,
       pkt_packet_type = ptype, pkt_hops = MAX_HOPS, pkt_destination_hash = lnk_remote l,
       pkt_transport_id = Some (lnk_transport_id l), pkt_context = ctx, pkt_data = payload \<rparr>"

definition link_establish :: "ext \<Rightarrow> link \<Rightarrow> link \<times> (TransportError + packet)" where
  "link_establish E l = (case lnk_state l of
       Closed \<Rightarrow>
         let proof_bytes = proof_to_bytes (generate_proof E (dst_keys (lnk_local l)) (lnk_transport_id l))
         in (l\<lparr>lnk_state := Handshaking\<rparr>, Inr (link_packet l FLAG_SET PROOF LINKPROOF proof_bytes))
     | Handshaking \<Rightarrow> (l, Inl LinkAlreadyEstablished)
     | Established \<Rightarrow> (l, Inl LinkAlreadyEstablished))"

definition link_complete_handshake :: "ext \<Rightarrow> bytes \<Rightarrow> link \<Rightarrow> link \<times> (TransportError + unit)" where
  "link_complete_handshake E proof_bytes l = (case lnk_state l of
       Handshaking \<Rightarrow> (case proof_from_bytes proof_bytes of
           Inl e \<Rightarrow> (l, Inl (TProofError (proof_error_text e)))
         | Inr p \<Rightarrow>
             (case (case lnk_remote_signing_key l of
                  Some remote_key \<Rightarrow> verify_proof_with_public_key E remote_key (lnk_transport_id l) p
                | None \<Rightarrow> verify_proof E (dst_keys (lnk_local l)) (lnk_transport_id l) p) of
                Inl _ \<Rightarrow> (l, Inl SignatureVerification)
              | Inr _ \<Rightarrow> (l\<lparr>lnk_state := Established\<rparr>, Inr ())))
     | Closed \<Rightarrow> (l, Inl LinkNotEstablished)
     | Established \<Rightarrow> (l, Inl LinkAlreadyEstablished))"

definition link_handle_incoming_proof ::
  "ext \<Rightarrow> keys \<Rightarrow> bytes \<Rightarrow> link \<Rightarrow> link \<times> (TransportError + packet)" where
  "link_handle_incoming_proof E remote_keys proof_bytes l =
     (if lnk_state l = Established then (l, Inl LinkAlreadyEstablished)
      else case proof_from_bytes proof_bytes of
          Inl e \<Rightarrow> (l, Inl (TProofError (proof_error_text e)))
        | Inr p \<Rightarrow> (case verify_proof E remote_keys (lnk_transport_id l) p of
              Inl _ \<Rightarrow> (l, Inl SignatureVerification)
            | Inr _ \<Rightarrow>
                let response = proof_to_bytes
                      (generate_proof E (dst_keys (lnk_local l)) (lnk_transport_id l))
                in (l\<lparr>lnk_state := Established\<rparr>,
                    Inr (link_packet l FLAG_SET PROOF LRPROOF response))))"

definition link_close :: "link \<Rightarrow> link \<times> (TransportError + unit)" where
  "link_close l =
     (if lnk_state l = Closed then (l, Inl LinkClosed)
      else (l\<lparr>lnk_state := Closed, lnk_inbound := [], lnk_outbound := []\<rparr>, Inr ()))"

section \<open>Data transfer\<close>

definition crypto_error_text :: "CryptoError \<Rightarrow> string" where
  "crypto_error_text e = (case e of
       Encryption \<Rightarrow> ''encryption failed''
     | Decryption s \<Rightarrow> ''decryption: '' @ s
     | Rng \<Rightarrow> ''random number generation failed'')"

definition link_payload :: "ext \<Rightarrow> bytes \<Rightarrow> bytes \<Rightarrow> bytes \<Rightarrow> link \<Rightarrow> bytes" where
  "link_payload E ephemeral iv data l = (case lnk_shared_key l of
       Some key \<Rightarrow> encrypt_link_data E data key (lnk_link_id l)
     | None \<Rightarrow> (case lnk_remote_encryption_key l of
           Some remote_key \<Rightarrow> encrypt_for E ephemeral iv remote_key (lnk_remote l) data
         | None \<Rightarrow> data))"

definition link_send ::
  "ext \<Rightarrow> instant \<Rightarrow> bytes \<Rightarrow> bytes \<Rightarrow> bytes \<Rightarrow> link \<Rightarrow> link \<times> (TransportError + packet)" where
  "link_send E now ephemeral iv data l =
     (if lnk_state l \<noteq> Established then (l, Inl LinkNotEstablished)
      else let payload = link_payload E ephemeral iv data l
           in if unat (lc_mtu (lnk_config l)) < length payload
              then (l, Inl (InvalidChunkSize (length payload)))
              else let packet = link_packet l FLAG_UNSET DATA NONE payload
                   in (l\<lparr>lnk_outbound := lnk_outbound l @ [packet], lnk_last_outbound := now\<rparr>,
                       Inr packet))"

definition link_open :: "ext \<Rightarrow> bytes \<Rightarrow> link \<Rightarrow> string + bytes" where
  "link_open E payload l = (case lnk_shared_key l of
       Some key \<Rightarrow> decrypt_link_data E payload key (lnk_link_id l)
     | None \<Rightarrow> (case lnk_remote_encryption_key l of
           Some _ \<Rightarrow> (case decrypt_from E (dst_keys (lnk_local l)) payload of
               Inl e \<Rightarrow> Inl (crypto_error_text e)
             | Inr d \<Rightarrow> Inr d)
         | None \<Rightarrow> Inr payload))"

definition link_deliver :: "ext \<Rightarrow> instant \<Rightarrow> packet \<Rightarrow> link \<Rightarrow> link \<times> (TransportError + unit)" where
  "link_deliver E now packet l =
     (if lnk_state l \<noteq> Established then (l, Inl LinkNotEstablished)
      else if pkt_transport_id packet \<noteq> Some (lnk_transport_id l)
      then (l, Inl (TOther ''transport ID mismatch''))
      else case link_open E (pkt_data packet) l of
          Inl e \<Rightarrow> (l, Inl (TOther (''decryption: '' @ e)))
        | Inr data \<Rightarrow>
            (l\<lparr>lnk_inbound := lnk_inbound l @ [data], lnk_last_inbound := now\<rparr>, Inr ()))"

definition link_recv :: "link \<Rightarrow> link \<times> bytes option" where
  "link_recv l = (case lnk_inbound l of
       [] \<Rightarrow> (l, None)
     | m # ms \<Rightarrow> (l\<lparr>lnk_inbound := ms\<rparr>, Some m))"

section \<open>Link encryption is a sealed box\<close>

lemma link_key_lengths:
  "hash_ok E \<Longrightarrow> length (take 16 (hkdf_sha256 E 32 k s c)) = 16 \<and>
     length (slice 16 32 (hkdf_sha256 E 32 k s c)) = 16"
  by (simp add: length_hkdf_sha256)

lemma link_data_length:
  "hash_ok E \<Longrightarrow> aes_ok E \<Longrightarrow>
     length (encrypt_link_data E p k i) = 32 + (length p div 16 + 1) * 16"
  using link_key_lengths [of E k "Some i" "Some link_key_context"]
  by (simp add: encrypt_link_data_def Let_def hash_lengths aes_enc_length)

lemma decrypt_encrypt_link_data:
  "hash_ok E \<Longrightarrow> aes_ok E \<Longrightarrow> decrypt_link_data E (encrypt_link_data E p k i) k i = Inr p"
  using link_key_lengths [of E k "Some i" "Some link_key_context"]
  by (simp add: decrypt_link_data_def encrypt_link_data_def Let_def hash_lengths aes_dec_enc)

lemma link_data_mac:
  "decrypt_link_data E t k i = Inr p \<Longrightarrow>
     drop (length t - 32) t =
       hmac_sha256 E (take 16 (hkdf_sha256 E 32 k (Some i) (Some link_key_context)))
         (take (length t - 32) t)"
  by (auto simp: decrypt_link_data_def Let_def split: if_splits option.splits)

interpretation link_box: sealed_box "\<lambda>E. hash_ok E \<and> aes_ok E" "\<lambda>k. True" "\<lambda>u :: unit. True"
  "\<lambda>E (k, i) u p. encrypt_link_data E p k i" "\<lambda>E (k, i) t. decrypt_link_data E t k i"
  "\<lambda>E (k, i). hmac_sha256 E (take 16 (hkdf_sha256 E 32 k (Some i) (Some link_key_context)))" 32
  by unfold_locales
    (auto simp: decrypt_encrypt_link_data link_data_length dest: link_data_mac)

text \<open>Link data is authenticated: both ends of a link derive the same cipher from the shared
  key and the link id, decryption returns the plaintext, and a message whose last 32 bytes were
  changed is rejected.\<close>

theorem link_data_authenticated:
  assumes "hash_ok E" "aes_ok E"
  shows "decrypt_link_data E (encrypt_link_data E p k i) k i = Inr p \<and>
    (\<forall>t. length t = length (encrypt_link_data E p k i) \<longrightarrow> t \<noteq> encrypt_link_data E p k i \<longrightarrow>
       take (length t - 32) t = take (length t - 32) (encrypt_link_data E p k i) \<longrightarrow>
       (\<exists>e. decrypt_link_data E t k i = Inl e))"
  using assms link_box.tampered_tag [where E = E and k = "(k, i)" and p = p] decrypt_encrypt_link_data [of E p k i]
  by simp

theorem link_data_authenticated_witness:
  "decrypt_link_data ext_toy (encrypt_link_data ext_toy [1, 2, 3] (replicate 32 5) (replicate 16 6))
     (replicate 32 5) (replicate 16 6) = Inr [1, 2, 3]"
  using link_data_authenticated [of ext_toy] by simp

section \<open>Handshake\<close>

lemma proof_exchange:
  assumes "hash_ok E" "sig_ok E" "keys_wf k"
  shows "\<exists>p. proof_from_bytes (proof_to_bytes (generate_proof E k m)) = Inr p \<and>
    verify_proof E k m p = Inr () \<and>
    verify_proof_with_public_key E (identity_key_bytes E k) m p = Inr ()"
  using assms verify_generated [OF assms(2,3), of m] by (simp add: proof_dec_generated verify_proof_def)

text \<open>C25. The proof handshake succeeds between honest ends: if both links have the same
  transport id and the initiator knows the responder's signing key, then the packet from
  \<open>establish\<close> is accepted by \<open>handle_incoming_proof\<close>, its answer by \<open>complete_handshake\<close>, and
  both links are established.\<close>

theorem link_handshake:
  assumes "hash_ok E" "sig_ok E"
    and "keys_wf (dst_keys (lnk_local a))" "keys_wf (dst_keys (lnk_local b))"
    and "lnk_state a = Closed" "lnk_state b = Closed"
    and "lnk_transport_id a = lnk_transport_id b"
    and "lnk_remote_signing_key a = Some (identity_key_bytes E (dst_keys (lnk_local b)))"
  shows "\<exists>a1 b1 a2 p1 p2. link_establish E a = (a1, Inr p1) \<and>
    link_handle_incoming_proof E (dst_keys (lnk_local a)) (pkt_data p1) b = (b1, Inr p2) \<and>
    link_complete_handshake E (pkt_data p2) a1 = (a2, Inr ()) \<and>
    lnk_state a2 = Established \<and> lnk_state b1 = Established"
  using assms proof_exchange [OF assms(1,2,3), of "lnk_transport_id b"]
    proof_exchange [OF assms(1,2,4), of "lnk_transport_id b"]
  by (auto simp: link_establish_def link_handle_incoming_proof_def link_complete_handshake_def
      link_packet_def Let_def)

definition demo_keys :: "u8 \<Rightarrow> keys" where
  "demo_keys n = keys_from_secrets (replicate 32 n) (replicate 32 (n + 1))"

definition demo_dest :: "u8 \<Rightarrow> destination" where
  "demo_dest n = destination_singleton ext_toy (demo_keys n) ''app'' [''aspect'']"

lemma demo_keys_wf [simp]: "keys_wf (demo_keys n)"
  by (simp add: demo_keys_def keys_wf_def keys_from_secrets_def)

lemma demo_dest_keys [simp]: "dst_keys (demo_dest n) = demo_keys n"
  by (simp add: demo_dest_def destination_singleton_def)

lemma derive_transport_id_commute: "derive_transport_id x y = derive_transport_id y x"
  by (simp add: derive_transport_id_def xor.commute)

theorem link_handshake_witness:
  "let a = link_set_remote_signing_key (identity_key_bytes ext_toy (demo_keys 3))
             (link_new 0 (demo_dest 1) (dst_hash (demo_dest 3)));
       b = link_new 0 (demo_dest 3) (dst_hash (demo_dest 1))
   in \<exists>a1 b1 a2 p1 p2. link_establish ext_toy a = (a1, Inr p1) \<and>
      link_handle_incoming_proof ext_toy (demo_keys 1) (pkt_data p1) b = (b1, Inr p2) \<and>
      link_complete_handshake ext_toy (pkt_data p2) a1 = (a2, Inr ()) \<and>
      lnk_state a2 = Established \<and> lnk_state b1 = Established"
proof -
  let ?a = "link_set_remote_signing_key (identity_key_bytes ext_toy (demo_keys 3))
    (link_new 0 (demo_dest 1) (dst_hash (demo_dest 3)))"
  let ?b = "link_new 0 (demo_dest 3) (dst_hash (demo_dest 1))"
  show ?thesis using link_handshake [of ext_toy ?a ?b]
    by (simp add: link_setters link_new_def link_with_config_def derive_transport_id_commute)
qed

text \<open>A link is established by proof only: completing the handshake makes a link established
  exactly if it was handshaking and the bytes are a proof of its transport id that verifies
  strictly under the configured remote key (under its own key if none is configured). In
  every other case the link is unchanged.\<close>

theorem complete_handshake_sound:
  "(\<exists>l'. link_complete_handshake E bs l = (l', Inr ()) \<and> lnk_state l' = Established) \<longleftrightarrow>
   lnk_state l = Handshaking \<and>
   (\<exists>p. proof_from_bytes bs = Inr p \<and> prf_packet_hash p = sha256 E (lnk_transport_id l) \<and>
     (let pk = (case lnk_remote_signing_key l of Some k \<Rightarrow> k
                | None \<Rightarrow> identity_key_bytes E (dst_keys (lnk_local l)))
      in ed_key_valid E pk \<and> ed_verify_strict E pk (lnk_transport_id l) (prf_signature p)))"
  by (cases "lnk_state l"; cases "proof_from_bytes bs"; cases "lnk_remote_signing_key l")
    (auto simp: link_complete_handshake_def verify_proof_def verify_sound Let_def
      verify_proof_with_public_key_def split: sum.splits if_splits)

lemma complete_handshake_error:
  "link_complete_handshake E bs l = (l', Inl e) \<Longrightarrow> l' = l"
  by (auto simp: link_complete_handshake_def split: link_state.splits sum.splits)

section \<open>Data transfer\<close>

text \<open>Two established ends of one link, and the data they can carry in one packet.\<close>

definition link_ends :: "link \<Rightarrow> link \<Rightarrow> bool" where
  "link_ends a b \<longleftrightarrow> lnk_state a = Established \<and> lnk_state b = Established \<and>
     lnk_transport_id a = lnk_transport_id b \<and>
     lnk_link_id a = lnk_link_id b \<and>
     (\<exists>k. lnk_shared_key a = Some k \<and> lnk_shared_key b = Some k)"

definition link_fits :: "link \<Rightarrow> bytes \<Rightarrow> bool" where
  "link_fits l m \<longleftrightarrow> 32 + (length m div 16 + 1) * 16 \<le> unat (lc_mtu (lnk_config l))"

lemma link_send_ok:
  assumes "hash_ok E" "aes_ok E" "lnk_state a = Established" "lnk_shared_key a = Some k"
    and "link_fits a m"
  shows "link_send E now eph iv m a =
    (a\<lparr>lnk_outbound := lnk_outbound a @
         [link_packet a FLAG_UNSET DATA NONE (encrypt_link_data E m k (lnk_link_id a))],
       lnk_last_outbound := now\<rparr>,
     Inr (link_packet a FLAG_UNSET DATA NONE (encrypt_link_data E m k (lnk_link_id a))))"
  using assms link_data_length [of E m k "lnk_link_id a"]
  by (simp add: link_send_def link_payload_def link_fits_def Let_def)

lemma link_deliver_sent:
  assumes "hash_ok E" "aes_ok E" "link_ends a b" "lnk_shared_key a = Some k"
  shows "link_deliver E now
      (link_packet a FLAG_UNSET DATA NONE (encrypt_link_data E m k (lnk_link_id a))) b =
    (b\<lparr>lnk_inbound := lnk_inbound b @ [m], lnk_last_inbound := now\<rparr>, Inr ())"
proof -
  have "lnk_shared_key b = Some k" using assms(3,4) by (auto simp: link_ends_def)
  with assms(1-3) show ?thesis
    by (simp add: link_deliver_def link_open_def link_packet_def link_ends_def
        decrypt_encrypt_link_data)
qed

text \<open>Sending a list of messages, each delivered to the other end, and receiving them all.\<close>

fun link_carry :: "ext \<Rightarrow> instant \<Rightarrow> bytes list \<Rightarrow> link \<Rightarrow> link \<Rightarrow> (link \<times> link) option" where
  "link_carry E now [] a b = Some (a, b)"
| "link_carry E now (m # ms) a b = (case link_send E now [] [] m a of
       (a', Inr p) \<Rightarrow> (case link_deliver E now p b of
           (b', Inr _) \<Rightarrow> link_carry E now ms a' b'
         | _ \<Rightarrow> None)
     | _ \<Rightarrow> None)"

fun link_recv_all :: "nat \<Rightarrow> link \<Rightarrow> bytes list" where
  "link_recv_all 0 l = []"
| "link_recv_all (Suc n) l = (case link_recv l of
       (l', Some m) \<Rightarrow> m # link_recv_all n l' | (l', None) \<Rightarrow> [])"

lemma link_carry_ok:
  assumes "hash_ok E" "aes_ok E" "link_ends a b" "list_all (link_fits a) ms"
  shows "\<exists>a' b'. link_carry E now ms a b = Some (a', b') \<and> lnk_inbound b' = lnk_inbound b @ ms"
  using assms(3,4)
proof (induction ms arbitrary: a b)
  case (Cons m ms)
  obtain k where k: "lnk_shared_key a = Some k" 
    using Cons.prems(1) unfolding link_ends_def by blast
  let ?p = "link_packet a FLAG_UNSET DATA NONE (encrypt_link_data E m k (lnk_link_id a))"
  let ?a = "a\<lparr>lnk_outbound := lnk_outbound a @ [?p], lnk_last_outbound := now\<rparr>"
  let ?b = "b\<lparr>lnk_inbound := lnk_inbound b @ [m], lnk_last_inbound := now\<rparr>"
  have "link_send E now [] [] m a = (?a, Inr ?p)"
    using Cons.prems k assms(1,2) by (intro link_send_ok) (simp_all add: link_ends_def)
  moreover have "link_deliver E now ?p b = (?b, Inr ())"
    using Cons.prems k assms(1,2) by (intro link_deliver_sent) simp_all
  moreover have "link_ends ?a ?b" using Cons.prems(1) by (auto simp: link_ends_def)
  moreover have "link_fits ?a = link_fits a" by (rule ext) (simp add: link_fits_def)
  ultimately show ?case using Cons.IH [of ?a ?b] Cons.prems by simp
qed simp

lemma link_recv_all_inbound: "link_recv_all (length (lnk_inbound l)) l = lnk_inbound l"
proof (induction "lnk_inbound l" arbitrary: l)
  case (Cons m ms)
  let ?l = "l\<lparr>lnk_inbound := ms\<rparr>"
  have "link_recv l = (?l, Some m)" by (simp add: link_recv_def Cons.hyps(2) [symmetric])
  moreover have "link_recv_all (length ms) ?l = ms" using Cons.hyps(1) [of ?l] by simp
  ultimately show ?case by (simp add: Cons.hyps(2) [symmetric])
qed simp

text \<open>C3. An established link carries messages end to end: any list of messages that fit the MTU
  (with the 32-byte MAC and the padding of the cipher) is sent without error, is accepted and
  decrypted by the other end, and comes out of \<open>recv\<close> in the order it was sent.\<close>

theorem link_carries:
  assumes "hash_ok E" "aes_ok E" "link_ends a b" "lnk_inbound b = []"
    and "list_all (link_fits a) ms"
  shows "\<exists>a' b'. link_carry E now ms a b = Some (a', b') \<and> link_recv_all (length ms) b' = ms"
proof -
  obtain a' b' where "link_carry E now ms a b = Some (a', b')" "lnk_inbound b' = ms"
    using link_carry_ok [OF assms(1-3,5), of now] assms(4) by auto
  then show ?thesis using link_recv_all_inbound [of b'] by auto
qed

definition demo_link :: "u8 \<Rightarrow> u8 \<Rightarrow> link" where
  "demo_link m n = link_set_state Established (link_set_shared_key (replicate 32 7)
     (link_new 0 (demo_dest m) (dst_hash (demo_dest n))))"

lemma demo_link_ends [simp]: "link_ends (demo_link 1 3) (demo_link 3 1)"
  by (simp add: link_ends_def demo_link_def link_setters link_new_def link_with_config_def
      derive_transport_id_commute)

lemma demo_link_simps [simp]:
  "lnk_inbound (demo_link m n) = []" "lnk_config (demo_link m n) = link_config_default"
  by (simp_all add: demo_link_def link_setters link_new_def link_with_config_def)

theorem link_carries_witness:
  "\<exists>a' b'. link_carry ext_toy 5 [[1, 2], []] (demo_link 1 3) (demo_link 3 1) = Some (a', b') \<and>
     link_recv_all (length [[1, 2], [] :: bytes]) b' = [[1, 2], []]"
  by (rule link_carries) (simp_all add: link_fits_def link_config_default_def)

section \<open>The link invariant\<close>

text \<open>
  The steps are all methods that change a link, setters included. Every queued packet is a well-formed
  \<open>HEADER_2\<close> packet of this link within its MTU, and messages are buffered on an established link only,
  as long as \<open>set_state\<close> does not take the link out of that state.
\<close>

definition link_queue_ok :: "link \<Rightarrow> bool" where
  "link_queue_ok l \<longleftrightarrow> length (lnk_remote l) = 16 \<and> length (lnk_transport_id l) = 16 \<and>
     (\<forall>p \<in> set (lnk_outbound l). packet_wf p \<and> pkt_transport_id p = Some (lnk_transport_id l) \<and>
        length (pkt_data p) \<le> unat (lc_mtu (lnk_config l)))"

definition link_buffers_ok :: "link \<Rightarrow> bool" where
  "link_buffers_ok l \<longleftrightarrow> (lnk_state l \<noteq> Established \<longrightarrow> lnk_inbound l = [] \<and> lnk_outbound l = [])"

inductive link_step :: "ext \<Rightarrow> link \<Rightarrow> link \<Rightarrow> bool" for E where
  establish: "link_step E l (fst (link_establish E l))"
| complete: "link_step E l (fst (link_complete_handshake E bs l))"
| incoming: "link_step E l (fst (link_handle_incoming_proof E k bs l))"
| close: "link_step E l (fst (link_close l))"
| send: "link_step E l (fst (link_send E now eph iv m l))"
| deliver: "link_step E l (fst (link_deliver E now p l))"
| recv: "link_step E l (fst (link_recv l))"
| set_state: "link_step E l (link_set_state st l)"
| set_link_id: "link_step E l (link_set_link_id bs l)"
| set_initiator: "link_step E l (link_set_initiator b l)"
| set_remote_encryption_key: "link_step E l (link_set_remote_encryption_key bs l)"
| set_remote_signing_key: "link_step E l (link_set_remote_signing_key bs l)"
| set_shared_key: "link_step E l (link_set_shared_key bs l)"
| set_keepalive_enabled: "link_step E l (link_set_keepalive_enabled b l)"
| set_rtt: "link_step E l (link_set_rtt r l)"
| set_establishment_cost: "link_step E l (link_set_establishment_cost r l)"
| record_establishment_attempt: "link_step E l (link_record_establishment_attempt l)"
| set_ratchet_priv: "link_step E l (link_set_ratchet_priv bs l)"
| set_peer_ratchet_key: "link_step E l (link_set_peer_ratchet_key bs l)"
| increment_ratchet_sequence: "link_step E l (fst (link_increment_ratchet_sequence l))"
| set_ratchet_pending_send: "link_step E l (link_set_ratchet_pending_send b l)"

inductive_cases link_stepE: "link_step E s t"

lemmas link_methods = link_establish_def link_complete_handshake_def link_handle_incoming_proof_def
  link_close_def link_deliver_def link_recv_def link_setters link_increment_ratchet_sequence_def Let_def

lemma link_packet_wf:
  "length (lnk_remote l) = 16 \<Longrightarrow> length (lnk_transport_id l) = 16 \<Longrightarrow>
     packet_wf (link_packet l FLAG_UNSET DATA c d)"
  by (simp add: packet_wf_def link_packet_def)

lemma link_queue_send: "link_queue_ok l \<Longrightarrow> link_queue_ok (fst (link_send E now eph iv m l))"
  by (auto simp: link_queue_ok_def link_send_def Let_def link_packet_wf)
    (auto simp: link_packet_def)

lemma link_queue_step: "link_queue_ok s \<Longrightarrow> link_step E s t \<Longrightarrow> link_queue_ok t"
proof (erule link_stepE)
  assume "link_queue_ok s"
  then show "t = fst (link_send E now eph iv m s) \<Longrightarrow> link_queue_ok t" for now eph iv m
    using link_queue_send by blast
qed (auto simp: link_queue_ok_def link_methods split: link_state.splits sum.splits list.splits if_splits)

lemma link_buffers_step:
  assumes "link_step E s t" and "link_buffers_ok s"
  shows "link_buffers_ok t \<or> (\<exists>st. lnk_state s = Established \<and> st \<noteq> Established \<and> t = link_set_state st s)"
  using assms
  by cases (auto simp: link_buffers_ok_def link_send_def link_methods split: link_state.splits sum.splits list.splits if_splits)

interpretation link_machine: invariant_machine
  "\<lambda>l. \<exists>now d r c. length r = 16 \<and> l = link_with_config now d r c" "link_step E" link_queue_ok
proof unfold_locales
  fix l assume "\<exists>now d r c. length r = 16 \<and> l = link_with_config now d r c"
  then show "link_queue_ok l" by (auto simp: link_queue_ok_def link_with_config_def derive_transport_id_def)
qed (rule link_queue_step)

lemma link_buffers_reach:
  assumes "(link_step E)\<^sup>*\<^sup>* i l" and "link_buffers_ok i"
  shows "link_buffers_ok l \<or> (\<exists>s st. (link_step E)\<^sup>*\<^sup>* i s \<and> lnk_state s = Established \<and> st \<noteq> Established \<and>
    (link_step E)\<^sup>*\<^sup>* (link_set_state st s) l)"
  using assms
proof (induction rule: rtranclp_induct)
  case (step s t)
  show ?case
  proof (cases "link_buffers_ok s")
    case True
    with link_buffers_step [OF step.hyps(2)] step.hyps(1) show ?thesis by blast
  next
    case False
    with step show ?thesis by (meson rtranclp.rtrancl_into_rtrancl)
  qed
qed simp

text \<open>C17. In every state a link can reach by its methods, everything in the outbound queue is a well-formed
  packet under the link's own transport id, no larger than the MTU. Messages are buffered only while the
  link is established, so closing it drops them, unless at some point \<open>set_state\<close> took the established
  link to another state: \<open>set_state\<close> leaves the buffers as they are.\<close>

theorem link_reachable_inv:
  assumes "length r = 16" and "(link_step E)\<^sup>*\<^sup>* (link_with_config now d r c) l"
  shows "link_queue_ok l \<and> (link_buffers_ok l \<or>
    (\<exists>s st. (link_step E)\<^sup>*\<^sup>* (link_with_config now d r c) s \<and> lnk_state s = Established \<and> st \<noteq> Established \<and>
       (link_step E)\<^sup>*\<^sup>* (link_set_state st s) l))"
proof
  show "link_queue_ok l" using link_machine.reachable_inv [OF _ assms(2)] assms(1) by blast
qed (use link_buffers_reach [OF assms(2)] in \<open>simp add: link_buffers_ok_def link_with_config_def\<close>)

text \<open>A link that was set established, has sent a message and received one.\<close>

definition demo_busy :: link where
  "demo_busy = fst (link_deliver ext_toy 6 (link_packet (demo_link 1 3) FLAG_UNSET DATA NONE
     (encrypt_link_data ext_toy [7] (replicate 32 7) (replicate 16 0))) (fst (link_send ext_toy 5 [] [] [1, 2] (demo_link 1 3))))"

lemma demo_busy_reached:
  "(link_step ext_toy)\<^sup>*\<^sup>* (link_with_config 0 (demo_dest 1) (dst_hash (demo_dest 3)) link_config_default) demo_busy"
  unfolding demo_busy_def demo_link_def link_new_def
  by (meson link_step.deliver link_step.send link_step.set_state link_step.set_shared_key
      converse_rtranclp_into_rtranclp rtranclp.rtrancl_refl)

lemma demo_busy_buffers: "length (lnk_outbound demo_busy) = 1" "lnk_inbound demo_busy = [[7]]"
proof -
  have a: "lnk_state (demo_link 1 3) = Established" "lnk_shared_key (demo_link 1 3) = Some (replicate 32 7)"
    "lnk_link_id (demo_link 1 3) = replicate 16 0" "lnk_outbound (demo_link 1 3) = []"
    by (simp_all add: demo_link_def link_setters link_new_def link_with_config_def)
  have s: "link_send ext_toy 5 [] [] [1, 2] (demo_link 1 3) = ((demo_link 1 3)\<lparr>lnk_outbound :=
      [link_packet (demo_link 1 3) FLAG_UNSET DATA NONE (encrypt_link_data ext_toy [1, 2] (replicate 32 7) (replicate 16 0))],
      lnk_last_outbound := 5\<rparr>, Inr (link_packet (demo_link 1 3) FLAG_UNSET DATA NONE
        (encrypt_link_data ext_toy [1, 2] (replicate 32 7) (replicate 16 0))))"
    using a by (subst link_send_ok) (simp_all add: link_fits_def link_config_default_def)
  show "length (lnk_outbound demo_busy) = 1" "lnk_inbound demo_busy = [[7]]"
    using a by (simp_all add: demo_busy_def s link_deliver_def link_open_def link_packet_def decrypt_encrypt_link_data)
qed

theorem link_reachable_inv_witness:
  "length (lnk_outbound demo_busy) = 1 \<and> lnk_inbound demo_busy = [[7]] \<and> link_queue_ok demo_busy"
proof -
  have "length (dst_hash (demo_dest 3)) = 16"
    by (simp add: demo_dest_def destination_singleton_def)
  from link_reachable_inv [OF this demo_busy_reached] demo_busy_buffers show ?thesis by simp
qed

text \<open>The exception is real: \<open>set_state\<close> leaves a closed link with messages that \<open>recv\<close> still hands out.\<close>

lemma link_set_state_keeps_buffers:
  "\<exists>l. (link_step ext_toy)\<^sup>*\<^sup>* (link_with_config 0 (demo_dest 1) (dst_hash (demo_dest 3)) link_config_default) l \<and>
     lnk_state l = Closed \<and> \<not> link_buffers_ok l \<and> snd (link_recv l) = Some [7]"
  by (rule exI [of _ "link_set_state Closed demo_busy"])
    (use demo_busy_reached demo_busy_buffers in
      \<open>auto simp: link_set_state_def link_buffers_ok_def link_recv_def intro: rtranclp.rtrancl_into_rtrancl link_step.set_state [unfolded link_set_state_def]\<close>)

text \<open>Nothing takes a packet out of the outbound queue: as long as a link stays established the queue
  only grows, whatever is called on it.\<close>

lemma link_outbound_grows:
  assumes "link_step E s t" and "lnk_state t = Established"
  shows "prefix (lnk_outbound s) (lnk_outbound t)"
  using assms
  by (auto elim!: link_stepE simp: link_send_def link_methods
      split: link_state.splits sum.splits list.splits if_splits option.splits)

end
