(* ===== verification/Channel.thy ===== *)
theory Channel
  imports Link "HOL-Library.Finite_Map"
begin

text \<open>
  \<open>crates/channel\<close>: the message envelope (\<open>message.rs\<close>) and the channel that numbers messages on
  a link and puts them back in order at the other end (\<open>lib.rs\<close>). The registered handlers are
  closures of the application: the model keeps which types have one and the calls that were made.
  A result of \<open>None\<close> stands for the arithmetic overflow of \<open>mdu()\<close> on a link with an MTU under
  six.
\<close>

section \<open>Envelopes\<close>

abbreviation (input) SMT_CHANNEL_DATA :: u16 where "SMT_CHANNEL_DATA \<equiv> 0x0000"
abbreviation (input) SMT_STREAM_DATA :: u16 where "SMT_STREAM_DATA \<equiv> 0xFF00"
abbreviation (input) ENVELOPE_HEADER_LEN :: nat where "ENVELOPE_HEADER_LEN \<equiv> 6"

datatype EnvelopeError = EnvTooShort nat

record envelope =
  env_message_type :: u16
  env_sequence_number :: u32
  env_payload :: bytes

definition envelope_pack :: "envelope \<Rightarrow> bytes" where
  "envelope_pack e =
     u16_be (env_message_type e) @ u32_be (env_sequence_number e) @ env_payload e"

definition envelope_unpack :: "bytes \<Rightarrow> EnvelopeError + envelope" where
  "envelope_unpack data =
     (if length data < ENVELOPE_HEADER_LEN then Inl (EnvTooShort (length data))
      else Inr \<lparr> env_message_type = u16_of_be (take 2 data),
                 env_sequence_number = u32_of_be (slice 2 6 data),
                 env_payload = drop ENVELOPE_HEADER_LEN data \<rparr>)"

definition envelope_error_text :: "EnvelopeError \<Rightarrow> string" where
  "envelope_error_text e = (case e of EnvTooShort n \<Rightarrow>
     ''envelope too short: '' @ show_nat n @ '' bytes, need at least '' @ show_nat ENVELOPE_HEADER_LEN)"

section \<open>Channel\<close>

datatype ChannelError =
    LinkNotReady
  | MessageTooLarge nat nat
  | ChTransport TransportError

record channel =
  ch_link :: link
  ch_outgoing_seq :: u32
  ch_incoming_seq :: u32
  ch_reorder_buffer :: "(u32, bytes) fmap"
  ch_ready :: "bytes list"
  ch_handlers :: "u16 set"
  ch_handled :: "(u16 \<times> bytes) list"   \<comment> \<open>the calls of handlers, oldest first\<close>

definition channel_new :: "link \<Rightarrow> channel" where
  "channel_new l = \<lparr> ch_link = l, ch_outgoing_seq = 0, ch_incoming_seq = 0,
     ch_reorder_buffer = fmempty, ch_ready = [], ch_handlers = {}, ch_handled = [] \<rparr>"

definition channel_mdu :: "channel \<Rightarrow> nat option" where
  "channel_mdu c = (let mtu = unat (lc_mtu (lnk_config (ch_link c)))
     in if mtu < 6 then None else Some (mtu - 6))"

definition channel_is_ready :: "channel \<Rightarrow> bool" where
  "channel_is_ready c \<longleftrightarrow> lnk_state (ch_link c) = Established"

definition channel_send_typed ::
  "ext \<Rightarrow> instant \<Rightarrow> bytes \<Rightarrow> bytes \<Rightarrow> u16 \<Rightarrow> bytes \<Rightarrow> channel \<Rightarrow>
     (channel \<times> (ChannelError + packet)) option" where
  "channel_send_typed E now eph iv msg_type payload c = (case channel_mdu c of
       None \<Rightarrow> None
     | Some mdu \<Rightarrow>
         if mdu < length payload then Some (c, Inl (MessageTooLarge (length payload) mdu))
         else let seq = ch_outgoing_seq c;
                  packed = envelope_pack \<lparr> env_message_type = msg_type,
                    env_sequence_number = seq, env_payload = payload \<rparr>;
                  (l, r) = link_send E now eph iv packed (ch_link c);
                  c' = c\<lparr>ch_outgoing_seq := seq + 1, ch_link := l\<rparr>
              in Some (c', case r of Inl e \<Rightarrow> Inl (ChTransport e) | Inr p \<Rightarrow> Inr p))"

definition channel_send ::
  "ext \<Rightarrow> instant \<Rightarrow> bytes \<Rightarrow> bytes \<Rightarrow> bytes \<Rightarrow> channel \<Rightarrow>
     (channel \<times> (ChannelError + packet)) option" where
  "channel_send E now eph iv payload c = channel_send_typed E now eph iv SMT_CHANNEL_DATA payload c"

text \<open>The inner loop of \<open>deliver\<close>: move buffered messages that are now in order to the ready
  queue. Every iteration takes an entry out of the buffer.\<close>

lemma fcard_fmdrop: "fmlookup m k = Some v \<Longrightarrow> fcard (fmdom m |-| {|k|}) < fcard (fmdom m)"
  by (metis fcard_fminus1_less fmdomI)

function channel_drain ::
  "u32 \<Rightarrow> (u32, bytes) fmap \<Rightarrow> bytes list \<Rightarrow> u32 \<times> (u32, bytes) fmap \<times> bytes list" where
  "channel_drain seq buf ready = (case fmlookup buf seq of
       None \<Rightarrow> (seq, buf, ready)
     | Some payload \<Rightarrow> channel_drain (seq + 1) (fmdrop seq buf) (ready @ [payload]))"
  by pat_completeness auto
termination
  by (relation "measure (\<lambda>(seq, buf, ready). fcard (fmdom buf))") (auto simp: fcard_fmdrop)

declare channel_drain.simps [simp del]

definition channel_accept :: "envelope \<Rightarrow> channel \<Rightarrow> channel" where
  "channel_accept env c =
     (if env_message_type env \<in> ch_handlers c
      then c\<lparr>ch_handled := ch_handled c @ [(env_message_type env, env_payload env)]\<rparr>
      else let seq = env_sequence_number env
           in if seq = ch_incoming_seq c then
                let (s, b, r) = channel_drain (ch_incoming_seq c + 1) (ch_reorder_buffer c)
                      (ch_ready c @ [env_payload env])
                in c\<lparr>ch_incoming_seq := s, ch_reorder_buffer := b, ch_ready := r\<rparr>
              else if ch_incoming_seq c < seq \<and> seq - ch_incoming_seq c < 1000
              then c\<lparr>ch_reorder_buffer := fmupd seq (env_payload env) (ch_reorder_buffer c)\<rparr>
              else c)"

text \<open>The outer loop: take the link's inbound messages one by one; an envelope that does not
  parse ends it, with the rest of the messages left in the link.\<close>

fun channel_process :: "bytes list \<Rightarrow> channel \<Rightarrow> channel \<times> (ChannelError + unit)" where
  "channel_process [] c = (c\<lparr>ch_link := (ch_link c)\<lparr>lnk_inbound := []\<rparr>\<rparr>, Inr ())"
| "channel_process (data # rest) c = (case envelope_unpack data of
       Inl e \<Rightarrow> (c\<lparr>ch_link := (ch_link c)\<lparr>lnk_inbound := rest\<rparr>\<rparr>,
                Inl (ChTransport (TOther (''envelope: '' @ envelope_error_text e))))
     | Inr env \<Rightarrow> channel_process rest (channel_accept env c))"

definition channel_deliver :: "ext \<Rightarrow> instant \<Rightarrow> packet \<Rightarrow> channel \<Rightarrow> channel \<times> (ChannelError + unit)" where
  "channel_deliver E now packet c = (case link_deliver E now packet (ch_link c) of
       (l, Inl e) \<Rightarrow> (c\<lparr>ch_link := l\<rparr>, Inl (ChTransport e))
     | (l, Inr _) \<Rightarrow> channel_process (lnk_inbound l) (c\<lparr>ch_link := l\<rparr>))"

definition channel_recv :: "channel \<Rightarrow> channel \<times> bytes option" where
  "channel_recv c = (case ch_ready c of
       [] \<Rightarrow> (c, None) | m # ms \<Rightarrow> (c\<lparr>ch_ready := ms\<rparr>, Some m))"

definition channel_register_handler :: "u16 \<Rightarrow> channel \<Rightarrow> channel" where
  "channel_register_handler msg_type c = c\<lparr>ch_handlers := insert msg_type (ch_handlers c)\<rparr>"

section \<open>Envelopes are a canonical codec\<close>

lemma envelope_dec_enc: "envelope_unpack (envelope_pack e) = Inr e"
  by (simp add: envelope_pack_def envelope_unpack_def)

lemma envelope_enc_dec: "envelope_unpack bs = Inr e \<Longrightarrow> envelope_pack e = bs"
proof -
  assume a: "envelope_unpack bs = Inr e"
  then have l: "6 \<le> length bs" by (auto simp: envelope_unpack_def split: if_splits)
  have "bs = take 2 bs @ slice 2 6 bs @ drop 6 bs"
    using take_slice_drop [of 2 bs 4] by simp
  with a l show ?thesis
    by (auto simp: envelope_unpack_def envelope_pack_def u16_be_of_be u32_be_of_be
        split: if_splits)
qed

interpretation envelope_codec: canonical_codec envelope_pack envelope_unpack "\<lambda>e. True"
  by unfold_locales (simp_all add: envelope_dec_enc envelope_enc_dec)

text \<open>The channel envelope format is exact: a byte string unpacks to an envelope exactly if it
  is its packing, which is the case for one envelope if it has six or more bytes and for none
  otherwise.\<close>

theorem envelope_exact:
  "(envelope_unpack bs = Inr e \<longleftrightarrow> bs = envelope_pack e) \<and>
   ((\<exists>e. envelope_unpack bs = Inr e) \<longleftrightarrow> 6 \<le> length bs)"
  using envelope_codec.dec_iff [of bs e] by (auto simp: envelope_unpack_def)

section \<open>Reordering\<close>

text \<open>
  The sender numbers the messages \<open>ps\<close> from \<open>s0\<close>. What the receiver has put out is the prefix of
  \<open>ps\<close> before its counter, and what it buffers are later messages under their own numbers.
\<close>

definition rx_inv :: "nat \<Rightarrow> bytes list \<Rightarrow> channel \<Rightarrow> bool" where
  "rx_inv s0 ps c \<longleftrightarrow> s0 + length ps < 2 ^ 32 \<and> s0 \<le> unat (ch_incoming_seq c) \<and>
     unat (ch_incoming_seq c) \<le> s0 + length ps \<and>
     ch_ready c = take (unat (ch_incoming_seq c) - s0) ps \<and>
     (\<forall>s p. fmlookup (ch_reorder_buffer c) s = Some p \<longrightarrow>
        unat (ch_incoming_seq c) < unat s \<and> unat s < s0 + length ps \<and> p = ps ! (unat s - s0))"

lemma unat_suc_u32: "unat (s :: u32) < 2 ^ 32 - 1 \<Longrightarrow> unat (s + 1) = Suc (unat s)"
  by (simp add: unat_word_ariths)

lemma channel_drain_inv:
  assumes "s0 + length ps < 2 ^ 32" "s0 \<le> unat s" "unat s \<le> s0 + length ps"
    and "ready = take (unat s - s0) ps"
    and "\<forall>t p. fmlookup buf t = Some p \<longrightarrow>
       unat s \<le> unat t \<and> unat t < s0 + length ps \<and> p = ps ! (unat t - s0)"
    and "channel_drain s buf ready = (s', buf', ready')"
  shows "s0 \<le> unat s' \<and> unat s' \<le> s0 + length ps \<and> ready' = take (unat s' - s0) ps \<and>
    unat s \<le> unat s' \<and> fmlookup buf' s' = None \<and>
    (\<forall>t. fmlookup buf' t = (if unat t < unat s' then None else fmlookup buf t))"
  using assms
proof (induction s buf ready rule: channel_drain.induct)
  case (1 s buf ready)
  show ?case
  proof (cases "fmlookup buf s")
    case None
    with 1(6,7) show ?thesis using 1(3-5)
      by (auto simp: channel_drain.simps [of s]) (metis leD not_None_eq)
  next
    case (Some p)
    with 1(6) have s: "unat s < s0 + length ps" "p = ps ! (unat s - s0)" by auto
    then have suc: "unat (s + 1) = Suc (unat s)" using 1(2) by (intro unat_suc_u32) simp
    have rdy: "ready @ [p] = take (unat (s + 1) - s0) ps"
      using s 1(3,5) by (simp add: suc Suc_diff_le take_Suc_conv_app_nth)
    have rest: "\<forall>t q. fmlookup (fmdrop s buf) t = Some q \<longrightarrow>
        unat (s + 1) \<le> unat t \<and> unat t < s0 + length ps \<and> q = ps ! (unat t - s0)"
      using 1(6) by (auto simp: suc Suc_le_eq le_neq_implies_less word_unat_eq_iff [symmetric])
    have "channel_drain (s + 1) (fmdrop s buf) (ready @ [p]) = (s', buf', ready')"
      using 1(7) Some by (simp add: channel_drain.simps [of s])
    from 1(1) [OF Some 1(2) _ _ rdy rest this] s 1(3) suc show ?thesis
      by (auto simp: word_unat_eq_iff)
  qed
qed

lemma channel_accept_inv:
  assumes inv: "rx_inv s0 ps c" and i: "i < length ps"
    and env: "env = \<lparr> env_message_type = mt, env_sequence_number = w, env_payload = ps ! i \<rparr>"
    and u: "unat w = s0 + i" and nh: "mt \<notin> ch_handlers c"
  shows "rx_inv s0 ps (channel_accept env c) \<and>
    unat (ch_incoming_seq c) \<le> unat (ch_incoming_seq (channel_accept env c)) \<and>
    ch_handlers (channel_accept env c) = ch_handlers c"
proof -
  let ?in = "ch_incoming_seq c"
  have b: "s0 + length ps < 2 ^ 32" using inv by (simp add: rx_inv_def)
  show ?thesis
  proof (cases "w = ?in")
    case True
    then have at: "unat ?in = s0 + i" using u by simp
    then have suc: "unat (?in + 1) = Suc (s0 + i)" using b i by (subst unat_suc_u32) simp_all
    obtain s b' r where d: "channel_drain (?in + 1) (ch_reorder_buffer c) (ch_ready c @ [ps ! i]) =
      (s, b', r)" by (cases "channel_drain (?in + 1) (ch_reorder_buffer c) (ch_ready c @ [ps ! i])")
    have "ch_ready c @ [ps ! i] = take (unat (?in + 1) - s0) ps"
      using inv i by (simp add: rx_inv_def at suc take_Suc_conv_app_nth)
    from channel_drain_inv [OF b _ _ this _ d] inv i at suc
    have r: "s0 \<le> unat s" "unat s \<le> s0 + length ps" "r = take (unat s - s0) ps"
      "Suc (s0 + i) \<le> unat s" "fmlookup b' s = None"
      "\<forall>t. fmlookup b' t = (if unat t < unat s then None else fmlookup (ch_reorder_buffer c) t)"
      by (auto simp: rx_inv_def Suc_le_eq)
    have "rx_inv s0 ps (c\<lparr>ch_incoming_seq := s, ch_reorder_buffer := b', ch_ready := r\<rparr>)"
      using inv r b
      by (auto simp: rx_inv_def split: if_splits)
        (metis linorder_neqE_nat option.distinct(1) word_unat_eq_iff)
    then show ?thesis using True d env nh at r(4)
      by (simp add: channel_accept_def Let_def)
  next
    case False
    then show ?thesis using inv i env nh u
      by (auto simp: channel_accept_def rx_inv_def Let_def word_less_nat_alt)
  qed
qed

definition data_env :: "nat \<Rightarrow> bytes list \<Rightarrow> nat \<Rightarrow> envelope" where
  "data_env s0 ps i = \<lparr> env_message_type = SMT_CHANNEL_DATA,
     env_sequence_number = of_nat (s0 + i), env_payload = ps ! i \<rparr>"

lemma unat_seq: "rx_inv s0 ps c \<Longrightarrow> i < length ps \<Longrightarrow> unat (of_nat (s0 + i) :: u32) = s0 + i"
  by (rule unat_of_nat_u32) (simp add: rx_inv_def)

lemma channel_accept_all_inv:
  assumes "rx_inv s0 ps c" "SMT_CHANNEL_DATA \<notin> ch_handlers c" "\<forall>i \<in> set is. i < length ps"
  shows "rx_inv s0 ps (fold (\<lambda>i. channel_accept (data_env s0 ps i)) is c)"
  using assms
proof (induction "is" arbitrary: c)
  case (Cons i "is")
  with channel_accept_inv [of s0 ps c i "data_env s0 ps i" SMT_CHANNEL_DATA "of_nat (s0 + i)"]
  show ?case by (simp add: data_env_def unat_seq del: of_nat_add)
qed simp

text \<open>A message that has arrived is out already or buffered, as long as all messages lie in one
  window of 1000.\<close>

definition rx_has :: "nat \<Rightarrow> channel \<Rightarrow> bool" where
  "rx_has n c \<longleftrightarrow> n < unat (ch_incoming_seq c) \<or> fmlookup (ch_reorder_buffer c) (of_nat n) \<noteq> None"

lemma channel_accept_has:
  assumes inv: "rx_inv s0 ps c" and i: "i < length ps" and w: "length ps \<le> 1000"
    and nh: "SMT_CHANNEL_DATA \<notin> ch_handlers c"
  shows "rx_has (s0 + i) (channel_accept (data_env s0 ps i) c) \<and>
    (\<forall>n < s0 + length ps. rx_has n c \<longrightarrow> rx_has n (channel_accept (data_env s0 ps i) c))"
proof -
  let ?in = "ch_incoming_seq c" and ?c = "channel_accept (data_env s0 ps i) c"
  obtain w where w: "w = (of_nat (s0 + i) :: u32)" "unat w = s0 + i"
    using unat_seq [OF inv i] by blast
  have env: "data_env s0 ps i = \<lparr> env_message_type = SMT_CHANNEL_DATA,
    env_sequence_number = w, env_payload = ps ! i \<rparr>" by (simp add: data_env_def w)
  show ?thesis
  proof (cases "w = ?in")
    case True
    then have at: "unat ?in = s0 + i" using w by simp
    have b: "s0 + length ps < 2 ^ 32" using inv by (simp add: rx_inv_def)
    have suc: "unat (?in + 1) = Suc (s0 + i)" using b i at by (subst unat_suc_u32) simp_all
    obtain s b' r where d: "channel_drain (?in + 1) (ch_reorder_buffer c) (ch_ready c @ [ps ! i]) =
      (s, b', r)" by (cases "channel_drain (?in + 1) (ch_reorder_buffer c) (ch_ready c @ [ps ! i])")
    have "ch_ready c @ [ps ! i] = take (unat (?in + 1) - s0) ps"
      using inv i by (simp add: rx_inv_def at suc take_Suc_conv_app_nth)
    from channel_drain_inv [OF b _ _ this _ d] inv i at suc
    have r: "Suc (s0 + i) \<le> unat s"
      "\<forall>t. fmlookup b' t = (if unat t < unat s then None else fmlookup (ch_reorder_buffer c) t)"
      by (auto simp: rx_inv_def Suc_le_eq)
    have c: "?c = c\<lparr>ch_incoming_seq := s, ch_reorder_buffer := b', ch_ready := r\<rparr>"
      using True d nh env by (simp add: channel_accept_def Let_def)
    have "unat (of_nat n :: u32) = n" if "n < s0 + length ps" for n
      using that b by (intro unat_of_nat_u32) simp
    then show ?thesis using r at by (auto simp: rx_has_def c)
  next
    case False
    have "unat (w - ?in) < 1000" if "?in < w"
      using that inv i w(2) assms(3)
      by (auto simp: rx_inv_def unat_sub_if' word_less_nat_alt)
    then have win: "?in < w \<Longrightarrow> w - ?in < 1000" by (simp add: word_less_nat_alt)
    have lt: "\<not> ?in < w \<Longrightarrow> s0 + i < unat ?in"
      using False w(2) by (simp add: word_less_nat_alt word_unat_eq_iff)
    show ?thesis using False nh env win lt w(1) [symmetric]
      by (auto simp: channel_accept_def rx_has_def Let_def simp del: of_nat_add)
  qed
qed

lemma channel_accept_all_has:
  assumes "rx_inv s0 ps c" "SMT_CHANNEL_DATA \<notin> ch_handlers c" "\<forall>i \<in> set is. i < length ps"
    and "length ps \<le> 1000" and "\<forall>i \<in> A. i < length ps \<and> rx_has (s0 + i) c"
  shows "\<forall>i \<in> A \<union> set is. rx_has (s0 + i) (fold (\<lambda>i. channel_accept (data_env s0 ps i)) is c)"
  using assms
proof (induction "is" arbitrary: c A)
  case (Cons i "is")
  let ?c = "channel_accept (data_env s0 ps i) c"
  have "rx_inv s0 ps ?c \<and> ch_handlers ?c = ch_handlers c"
    using channel_accept_inv [of s0 ps c i "data_env s0 ps i" SMT_CHANNEL_DATA "of_nat (s0 + i)"]
      Cons.prems by (simp add: data_env_def unat_seq del: of_nat_add)
  moreover have "\<forall>j \<in> insert i A. j < length ps \<and> rx_has (s0 + j) ?c"
    using channel_accept_has [of s0 ps c i] Cons.prems by auto
  ultimately show ?case using Cons.IH [of ?c "insert i A"] Cons.prems by auto
qed simp

lemma rx_complete:
  assumes "rx_inv s0 ps c" "\<forall>i < length ps. rx_has (s0 + i) c"
  shows "ch_ready c = ps"
proof -
  have "unat (ch_incoming_seq c) = s0 + length ps"
  proof (rule ccontr)
    assume "unat (ch_incoming_seq c) \<noteq> s0 + length ps"
    then obtain i where i: "unat (ch_incoming_seq c) = s0 + i" "i < length ps"
      using assms(1) by (auto simp: rx_inv_def) (metis add_le_cancel_left le_add_diff_inverse
          le_neq_implies_less)
    then have "of_nat (s0 + i) = ch_incoming_seq c"
      using unat_seq [OF assms(1), of i] by (simp add: word_unat_eq_iff del: of_nat_add)
    moreover have "rx_has (s0 + i) c" using assms(2) i(2) by blast
    ultimately obtain p where "fmlookup (ch_reorder_buffer c) (ch_incoming_seq c) = Some p"
      using i(1) by (auto simp: rx_has_def)
    with assms(1) show False by (auto simp: rx_inv_def)
  qed
  with assms(1) show ?thesis by (simp add: rx_inv_def)
qed

lemma channel_reorders:
  assumes "rx_inv s0 ps c" "SMT_CHANNEL_DATA \<notin> ch_handlers c" "length ps \<le> 1000"
    and "set is = {..<length ps}"
  shows "ch_ready (fold (\<lambda>i. channel_accept (data_env s0 ps i)) is c) = ps"
proof (rule rx_complete)
  show "rx_inv s0 ps (fold (\<lambda>i. channel_accept (data_env s0 ps i)) is c)"
    using assms by (intro channel_accept_all_inv) auto
  show "\<forall>i < length ps. rx_has (s0 + i) (fold (\<lambda>i. channel_accept (data_env s0 ps i)) is c)"
    using channel_accept_all_has [OF assms(1,2), of "is" "{}"] assms(3,4) by auto
qed

text \<open>A receiver that waits for message \<open>s0\<close> with nothing buffered or ready.\<close>

lemma rx_inv_start:
  "ch_incoming_seq c = of_nat s0 \<Longrightarrow> s0 + length ps < 2 ^ 32 \<Longrightarrow> ch_ready c = [] \<Longrightarrow>
     ch_reorder_buffer c = fmempty \<Longrightarrow> rx_inv s0 ps c"
  by (simp add: rx_inv_def unat_of_nat_u32)

text \<open>C16. No reordering, loss or duplication can corrupt the order: whatever envelopes of a
  numbered message list arrive, in any order and any number of times, the messages the channel
  has put out are always a prefix of that list.\<close>

theorem channel_in_order:
  assumes "ch_incoming_seq c = of_nat s0" "ch_ready c = []" "ch_reorder_buffer c = fmempty"
    and "SMT_CHANNEL_DATA \<notin> ch_handlers c" "s0 + length ps < 2 ^ 32"
    and "\<forall>i \<in> set is. i < length ps"
  shows "prefix (ch_ready (fold (\<lambda>i. channel_accept (data_env s0 ps i)) is c)) ps"
proof -
  have "rx_inv s0 ps (fold (\<lambda>i. channel_accept (data_env s0 ps i)) is c)"
    using assms by (intro channel_accept_all_inv rx_inv_start) auto
  then show ?thesis by (auto simp: rx_inv_def take_is_prefix)
qed

theorem channel_in_order_witness:
  "prefix (ch_ready (fold (\<lambda>i. channel_accept (data_env 7 [[1], [2], [3]] i)) [2, 0, 0]
      ((channel_new (demo_link 1 3))\<lparr>ch_incoming_seq := 7\<rparr>))) [[1], [2], [3]]"
  by (rule channel_in_order) (simp_all add: channel_new_def)

section \<open>End to end\<close>

fun channel_send_all ::
  "ext \<Rightarrow> instant \<Rightarrow> bytes list \<Rightarrow> channel \<Rightarrow> (channel \<times> packet list) option" where
  "channel_send_all E now [] c = Some (c, [])"
| "channel_send_all E now (p # ps) c = (case channel_send E now [] [] p c of
       Some (c', Inr pkt) \<Rightarrow> (case channel_send_all E now ps c' of
           Some (c'', pkts) \<Rightarrow> Some (c'', pkt # pkts) | None \<Rightarrow> None)
     | _ \<Rightarrow> None)"

definition env_packet :: "ext \<Rightarrow> bytes \<Rightarrow> link \<Rightarrow> envelope \<Rightarrow> packet" where
  "env_packet E k l env =
     link_packet l FLAG_UNSET DATA NONE (encrypt_link_data E (envelope_pack env) k (lnk_link_id l))"

definition channel_fits :: "channel \<Rightarrow> bytes \<Rightarrow> bool" where
  "channel_fits c p \<longleftrightarrow> 32 + ((length p + 6) div 16 + 1) * 16 \<le> unat (lc_mtu (lnk_config (ch_link c)))"

lemma channel_send_typed_ok:
  fixes mt :: u16
  assumes "hash_ok E" "aes_ok E" "lnk_state (ch_link c) = Established"
    and "lnk_shared_key (ch_link c) = Some k" "channel_fits c p"
  defines "env \<equiv> \<lparr> env_message_type = mt, env_sequence_number = ch_outgoing_seq c, env_payload = p \<rparr>"
  defines "pkt \<equiv> env_packet E k (ch_link c) env"
  shows "channel_send_typed E now eph iv mt p c =
    Some (c\<lparr>ch_outgoing_seq := ch_outgoing_seq c + 1,
            ch_link := (ch_link c)\<lparr>lnk_outbound := lnk_outbound (ch_link c) @ [pkt],
              lnk_last_outbound := now\<rparr>\<rparr>, Inr pkt)"
proof -
  let ?mtu = "unat (lc_mtu (lnk_config (ch_link c)))"
  have "length (envelope_pack env) = length p + 6" by (simp add: env_def envelope_pack_def)
  then have fit: "link_fits (ch_link c) (envelope_pack env)"
    using assms(5) by (simp add: link_fits_def channel_fits_def)
  have "length p + 6 \<le> ?mtu" using assms(5) unfolding channel_fits_def by presburger
  then have "channel_mdu c = Some (?mtu - 6)" "\<not> ?mtu - 6 < length p"
    by (simp_all add: channel_mdu_def Let_def)
  then show ?thesis
    using link_send_ok [OF assms(1-4) fit, of now eph iv]
    by (simp add: channel_send_typed_def Let_def env_def pkt_def env_packet_def)
qed

lemmas channel_send_ok = channel_send_typed_ok [where mt = SMT_CHANNEL_DATA and eph = "[]" and iv = "[]",
    folded channel_send_def]

lemma channel_send_all_ok:
  assumes "hash_ok E" "aes_ok E" "lnk_state (ch_link c) = Established"
    and "lnk_shared_key (ch_link c) = Some k" "ch_outgoing_seq c = of_nat s0"
    and "list_all (channel_fits c) ps"
  shows "\<exists>c'. channel_send_all E now ps c =
    Some (c', map (\<lambda>i. env_packet E k (ch_link c) (data_env s0 ps i)) [0..<length ps])"
  using assms(3-)
proof (induction ps arbitrary: c s0)
  case (Cons p ps)
  let ?pkt = "env_packet E k (ch_link c) (data_env s0 (p # ps) 0)"
  let ?c = "c\<lparr>ch_outgoing_seq := ch_outgoing_seq c + 1,
    ch_link := (ch_link c)\<lparr>lnk_outbound := lnk_outbound (ch_link c) @ [?pkt],
      lnk_last_outbound := now\<rparr>\<rparr>"
  have "channel_send E now [] [] p c = Some (?c, Inr ?pkt)"
    using channel_send_ok [OF assms(1,2), of c k p now] Cons.prems by (simp add: data_env_def)
  moreover have "channel_fits ?c = channel_fits c" by (rule ext) (simp add: channel_fits_def)
  moreover have "env_packet E k (ch_link ?c) = env_packet E k (ch_link c)"
    by (rule ext) (simp add: env_packet_def link_packet_def)
  moreover have "data_env s0 (p # ps) (Suc i) = data_env (Suc s0) ps i" for i
    by (simp add: data_env_def)
  ultimately show ?case using Cons.IH [of ?c "Suc s0"] Cons.prems
    by (auto simp: upt_conv_Cons map_Suc_upt [symmetric] comp_def add.commute
        simp del: upt_Suc)
qed simp

lemma channel_accept_link:
  "channel_accept env (c\<lparr>ch_link := l\<rparr>) = (channel_accept env c)\<lparr>ch_link := l\<rparr>"
  "ch_link (channel_accept env c) = ch_link c"
  by (simp_all add: channel_accept_def Let_def split: prod.splits)

lemma channel_deliver_ok:
  assumes "hash_ok E" "aes_ok E" "link_ends a (ch_link c)" "lnk_shared_key a = Some k"
    and "lnk_inbound (ch_link c) = []"
  shows "channel_deliver E now (env_packet E k a env) c =
    ((channel_accept env c)\<lparr>ch_link := (ch_link c)\<lparr>lnk_last_inbound := now\<rparr>\<rparr>, Inr ())"
proof -
  obtain l where l: "ch_link c = l" "lnk_inbound l = []" using assms(5) by simp
  have "channel_deliver E now (env_packet E k a env) c =
    channel_process [envelope_pack env] (c\<lparr>ch_link := l\<lparr>lnk_inbound := [envelope_pack env],
      lnk_last_inbound := now\<rparr>\<rparr>)"
    using link_deliver_sent [OF assms(1-4), of now "envelope_pack env"] l
    by (simp add: channel_deliver_def env_packet_def)
  also have "\<dots> = ((channel_accept env c)\<lparr>ch_link := l\<lparr>lnk_last_inbound := now\<rparr>\<rparr>, Inr ())"
    using l by (cases l) (simp add: envelope_dec_enc channel_accept_link)
  finally show ?thesis using l by simp
qed

lemma channel_deliver_fold:
  assumes "hash_ok E" "aes_ok E" "link_ends a (ch_link c)" "lnk_shared_key a = Some k"
    and "lnk_inbound (ch_link c) = []"
  shows "\<exists>t. fold (\<lambda>env c. fst (channel_deliver E now (env_packet E k a env) c)) envs c =
    (fold channel_accept envs c)\<lparr>ch_link := (ch_link c)\<lparr>lnk_last_inbound := t\<rparr>\<rparr>"
  using assms(3,5)
proof (induction envs arbitrary: c)
  case Nil
  have "c = c\<lparr>ch_link := (ch_link c)\<lparr>lnk_last_inbound := lnk_last_inbound (ch_link c)\<rparr>\<rparr>" by simp
  then show ?case by (metis fold_simps(1))
next
  case (Cons env envs)
  let ?c = "(channel_accept env c)\<lparr>ch_link := (ch_link c)\<lparr>lnk_last_inbound := now\<rparr>\<rparr>"
  have step: "fst (channel_deliver E now (env_packet E k a env) c) = ?c"
    using channel_deliver_ok [OF assms(1,2) Cons.prems(1) assms(4) Cons.prems(2)] by simp
  have "link_ends a (ch_link ?c)" "lnk_inbound (ch_link ?c) = []"
    using Cons.prems by (simp_all add: link_ends_def)
  from Cons.IH [OF this] obtain t where
    "fold (\<lambda>env c. fst (channel_deliver E now (env_packet E k a env) c)) envs ?c =
      (fold channel_accept envs ?c)\<lparr>ch_link := (ch_link ?c)\<lparr>lnk_last_inbound := t\<rparr>\<rparr>" by blast
  moreover have "fold channel_accept envs (d\<lparr>ch_link := l\<rparr>) =
    (fold channel_accept envs d)\<lparr>ch_link := l\<rparr>" for d l
    by (induction envs arbitrary: d) (simp_all add: channel_accept_link)
  ultimately show ?case by (auto simp: step)
qed

text \<open>C5. Reliable ordered delivery end to end: up to 1000 messages that fit the encrypted link are
  all sent, and if their packets reach the other end in any order, with any repetitions, as long
  as each arrives, the receiver's ready queue is exactly the list of messages in the order they
  were sent.\<close>

theorem channel_end_to_end:
  assumes "hash_ok E" "aes_ok E" "link_ends (ch_link a) (ch_link b)"
    and "ch_outgoing_seq a = of_nat s0" "ch_incoming_seq b = of_nat s0"
    and "s0 + length ps < 2 ^ 32" "length ps \<le> 1000" "list_all (channel_fits a) ps"
    and "ch_ready b = []" "ch_reorder_buffer b = fmempty" "SMT_CHANNEL_DATA \<notin> ch_handlers b"
    and "lnk_inbound (ch_link b) = []" and "set is = {..<length ps}"
  shows "\<exists>a' pkts. channel_send_all E now ps a = Some (a', pkts) \<and>
    ch_ready (fold (\<lambda>i c. fst (channel_deliver E now (pkts ! i) c)) is b) = ps"
proof -
  obtain k where k: "lnk_shared_key (ch_link a) = Some k" using assms(3) by (auto simp: link_ends_def)
  let ?pkts = "map (\<lambda>i. env_packet E k (ch_link a) (data_env s0 ps i)) [0..<length ps]"
  obtain a' where a': "channel_send_all E now ps a = Some (a', ?pkts)"
    using channel_send_all_ok [OF assms(1,2) _ k assms(4,8)] assms(3) by (auto simp: link_ends_def)
  have "fold (\<lambda>i c. fst (channel_deliver E now (?pkts ! i) c)) is b =
    fold (\<lambda>env c. fst (channel_deliver E now (env_packet E k (ch_link a) env) c))
      (map (data_env s0 ps) is) b"
    unfolding fold_map comp_def using assms(13) by (intro fold_cong) auto
  also have "ch_ready \<dots> = ch_ready (fold channel_accept (map (data_env s0 ps) is) b)"
    using channel_deliver_fold [OF assms(1-3) k assms(12), where envs = "map (data_env s0 ps) is" and now = now] by auto
  also have "\<dots> = ps"
    unfolding fold_map comp_def
    by (rule channel_reorders [OF rx_inv_start [OF assms(5,6,9,10)] assms(11,7,13)])
  finally show ?thesis using a' by blast
qed

theorem channel_end_to_end_witness:
  "\<exists>a' pkts. channel_send_all ext_toy 1 [[10], [20, 21], []] (channel_new (demo_link 1 3)) = Some (a', pkts) \<and>
     ch_ready (fold (\<lambda>i c. fst (channel_deliver ext_toy 1 (pkts ! i) c)) [2, 0, 0, 1]
       (channel_new (demo_link 3 1))) = [[10], [20, 21], []]"
  by (rule channel_end_to_end [where ?s0.0 = 0])
    (auto simp: channel_new_def channel_fits_def link_config_default_def)

section \<open>Where the numbering stalls\<close>

text \<open>A failed send still consumes its sequence number: on an encrypted link a payload within
  the advertised MDU but too large once encrypted is refused by the link, after the channel
  has counted it. The receiver then waits for a number that is never sent.\<close>

theorem channel_send_burns_sequence:
  assumes "hash_ok E" "aes_ok E" "lnk_state (ch_link c) = Established"
    and "lnk_shared_key (ch_link c) = Some k" "channel_mdu c = Some mdu"
    and "length p \<le> mdu" "\<not> channel_fits c p"
  shows "\<exists>c' n. channel_send E now eph iv p c = Some (c', Inl (ChTransport (InvalidChunkSize n))) \<and>
    ch_outgoing_seq c' = ch_outgoing_seq c + 1"
  using assms
  by (simp add: channel_send_def channel_send_typed_def link_send_def link_payload_def Let_def
      link_data_length envelope_pack_def channel_fits_def add.commute [of 6])

theorem channel_send_burns_sequence_witness:
  "\<exists>c' n. channel_send ext_toy 0 [] [] (replicate 494 1) (channel_new (demo_link 1 3)) =
      Some (c', Inl (ChTransport (InvalidChunkSize n))) \<and>
    ch_outgoing_seq c' = ch_outgoing_seq (channel_new (demo_link 1 3)) + 1"
  by (rule channel_send_burns_sequence [where k = "replicate 32 7" and mdu = 494])
    (simp_all add: channel_new_def channel_mdu_def channel_fits_def link_config_default_def
      demo_link_def link_setters link_new_def link_with_config_def)

text \<open>Messages of a handled type leave a hole: the sender numbers them with the others, but the
  receiver passes them to the handler without counting them, so a data message sent after one is
  held back and the ready queue does not grow.\<close>

theorem channel_handled_hole:
  assumes "mt \<in> ch_handlers c" "SMT_CHANNEL_DATA \<notin> ch_handlers c"
    and "unat (ch_incoming_seq c) < 2 ^ 32 - 1"
  shows "ch_ready
     (channel_accept \<lparr> env_message_type = SMT_CHANNEL_DATA,
          env_sequence_number = ch_incoming_seq c + 1, env_payload = q \<rparr>
       (channel_accept \<lparr> env_message_type = mt,
          env_sequence_number = ch_incoming_seq c, env_payload = p \<rparr> c)) = ch_ready c"
  using assms unat_suc_u32 [of "ch_incoming_seq c"]
  by (auto simp: channel_accept_def Let_def word_unat_eq_iff)

theorem channel_handled_hole_witness:
  "let c = channel_register_handler SMT_STREAM_DATA (channel_new (demo_link 3 1))
   in ch_ready
     (channel_accept \<lparr> env_message_type = SMT_CHANNEL_DATA,
          env_sequence_number = ch_incoming_seq c + 1, env_payload = [2] \<rparr>
       (channel_accept \<lparr> env_message_type = SMT_STREAM_DATA,
          env_sequence_number = ch_incoming_seq c, env_payload = [1] \<rparr> c)) = ch_ready c"
  unfolding Let_def
  by (rule channel_handled_hole) (simp_all add: channel_register_handler_def channel_new_def)

lemma channel_wrap_drops:
  "ch_incoming_seq c = 2 ^ 32 - 1 \<Longrightarrow> SMT_CHANNEL_DATA \<notin> ch_handlers c \<Longrightarrow>
     channel_accept \<lparr> env_message_type = SMT_CHANNEL_DATA, env_sequence_number = 0,
       env_payload = p \<rparr> c = c"
  by (simp add: channel_accept_def Let_def)

end
