(* ===== verification/Stream_Buffer.thy ===== *)
theory Stream_Buffer
  imports Channel
begin

text \<open>
  \<open>crates/buffer\<close>: byte streams over a channel. The writer cuts data into stream messages, the
  reader's handler appends those of its stream to a buffer that \<open>read\<close> consumes. \<open>read\<close> is async:
  \<open>None\<close> says that it waits for more data. The handler is a closure that the reader's channel calls;
  the model applies it, as \<open>reader_handle\<close>, to the calls that the channel records.
\<close>

abbreviation (input) STREAM_ID_MAX :: u16 where "STREAM_ID_MAX \<equiv> 0x3FFF"
abbreviation (input) STREAM_HEADER_LEN :: nat where "STREAM_HEADER_LEN \<equiv> 2"
abbreviation (input) FLAG_EOF :: u16 where "FLAG_EOF \<equiv> 0x8000"
abbreviation (input) FLAG_COMPRESSED :: u16 where "FLAG_COMPRESSED \<equiv> 0x4000"

section \<open>Stream messages\<close>

datatype BufferError =
    BufInvalidFormat string
  | BufChannel ChannelError
  | BufTransport TransportError
  | StreamClosed

record stream_msg =
  sm_stream_id :: u16
  sm_data :: bytes
  sm_eof :: bool
  sm_compressed :: bool

definition stream_pack :: "stream_msg \<Rightarrow> bytes" where
  "stream_pack m =
     (let header = sm_stream_id m AND STREAM_ID_MAX;
          header = (if sm_eof m then header OR FLAG_EOF else header);
          header = (if sm_compressed m then header OR FLAG_COMPRESSED else header)
      in u16_be header @ sm_data m)"

definition stream_unpack :: "bytes \<Rightarrow> BufferError + stream_msg" where
  "stream_unpack data =
     (if length data < STREAM_HEADER_LEN then Inl (BufInvalidFormat ''too short'')
      else let header = u16_of_be (take 2 data)
           in Inr \<lparr> sm_stream_id = header AND STREAM_ID_MAX,
                    sm_data = drop STREAM_HEADER_LEN data,
                    sm_eof = (header AND FLAG_EOF \<noteq> 0),
                    sm_compressed = (header AND FLAG_COMPRESSED \<noteq> 0) \<rparr>)"

definition max_data_len :: "nat \<Rightarrow> nat" where
  "max_data_len mdu = mdu - STREAM_HEADER_LEN"

section \<open>Reader\<close>

record reader =
  rd_stream_id :: u16
  rd_buffer :: bytes
  rd_eof :: bool
  rd_channel :: channel   \<comment> \<open>\<open>_channel\<close>, kept alive\<close>

definition reader_new :: "channel \<Rightarrow> u16 \<Rightarrow> reader" where
  "reader_new c stream_id = \<lparr> rd_stream_id = stream_id, rd_buffer = [], rd_eof = False,
     rd_channel = channel_register_handler SMT_STREAM_DATA c \<rparr>"

definition reader_handle :: "bytes \<Rightarrow> reader \<Rightarrow> reader" where
  "reader_handle data r = (case stream_unpack data of
       Inl _ \<Rightarrow> r
     | Inr msg \<Rightarrow>
         if sm_stream_id msg = rd_stream_id r
         then let r1 = (if sm_eof msg then r\<lparr>rd_eof := True\<rparr> else r)
              in if sm_data msg \<noteq> [] then r1\<lparr>rd_buffer := rd_buffer r1 @ sm_data msg\<rparr> else r1
         else r)"

definition reader_read :: "nat \<Rightarrow> reader \<Rightarrow> reader \<times> (BufferError + bytes) option" where
  "reader_read buf_len r =
     (let available = length (rd_buffer r)
      in if 0 < available then
           let to_read = min available buf_len
           in (r\<lparr>rd_buffer := drop to_read (rd_buffer r)\<rparr>, Some (Inr (take to_read (rd_buffer r))))
         else if rd_eof r then (r, Some (Inr []))
         else (r, None))"

definition reader_is_closed :: "reader \<Rightarrow> bool" where
  "reader_is_closed r \<longleftrightarrow> rd_eof r \<and> rd_buffer r = []"

section \<open>Writer\<close>

record writer =
  wr_stream_id :: u16
  wr_channel :: channel
  wr_max_data_len :: nat

definition writer_new :: "channel \<Rightarrow> u16 \<Rightarrow> writer option" where
  "writer_new c stream_id = (case channel_mdu c of
       None \<Rightarrow> None
     | Some mdu \<Rightarrow> Some \<lparr> wr_stream_id = stream_id, wr_channel = c,
         wr_max_data_len = max_data_len mdu \<rparr>)"

definition writer_write ::
  "ext \<Rightarrow> instant \<Rightarrow> bytes \<Rightarrow> bytes \<Rightarrow> bytes \<Rightarrow> writer \<Rightarrow> (writer \<times> (BufferError + nat)) option" where
  "writer_write E now eph iv data w =
     (if data = [] then Some (w, Inr 0)
      else let chunk = (if wr_max_data_len w < length data then take (wr_max_data_len w) data else data);
               packed = stream_pack \<lparr> sm_stream_id = wr_stream_id w, sm_data = chunk,
                 sm_eof = False, sm_compressed = False \<rparr>
           in case channel_send_typed E now eph iv SMT_STREAM_DATA packed (wr_channel w) of
                None \<Rightarrow> None
              | Some (c, r) \<Rightarrow> Some (w\<lparr>wr_channel := c\<rparr>,
                  case r of Inl e \<Rightarrow> Inl (BufChannel e) | Inr _ \<Rightarrow> Inr (length chunk)))"

definition writer_close ::
  "ext \<Rightarrow> instant \<Rightarrow> bytes \<Rightarrow> bytes \<Rightarrow> writer \<Rightarrow> (writer \<times> (BufferError + unit)) option" where
  "writer_close E now eph iv w =
     (let packed = stream_pack \<lparr> sm_stream_id = wr_stream_id w, sm_data = [], sm_eof = True,
            sm_compressed = False \<rparr>
      in case channel_send_typed E now eph iv SMT_STREAM_DATA packed (wr_channel w) of
           None \<Rightarrow> None
         | Some (c, r) \<Rightarrow> Some (w\<lparr>wr_channel := c\<rparr>,
             case r of Inl e \<Rightarrow> Inl (BufChannel e) | Inr _ \<Rightarrow> Inr ()))"

definition create_bidirectional ::
  "channel \<Rightarrow> channel \<Rightarrow> u16 \<Rightarrow> u16 \<Rightarrow> (reader \<times> writer) option" where
  "create_bidirectional recv_channel send_channel receive_id send_id =
     (case writer_new send_channel send_id of
        None \<Rightarrow> None
      | Some w \<Rightarrow> Some (reader_new recv_channel receive_id, w))"

section \<open>Stream messages are a canonical codec\<close>

definition stream_wf :: "stream_msg \<Rightarrow> bool" where
  "stream_wf m \<longleftrightarrow> sm_stream_id m AND STREAM_ID_MAX = sm_stream_id m"

definition stream_header :: "u16 \<Rightarrow> bool \<Rightarrow> bool \<Rightarrow> u16" where
  "stream_header i e c = (i AND 0x3FFF) OR (if e then 0x8000 else 0) OR (if c then 0x4000 else 0)"

lemma u16_flag_test: "(x :: u16) AND 0x8000 \<noteq> 0 \<longleftrightarrow> bit x 15" "x AND 0x4000 \<noteq> 0 \<longleftrightarrow> bit x 14"
  using and_exp_eq_0_iff_not_bit [of x 15] and_exp_eq_0_iff_not_bit [of x 14] by simp_all

lemma stream_header_parts:
  "stream_header i e c AND 0x3FFF = i AND 0x3FFF"
  "bit (stream_header i e c) 15 = e" "bit (stream_header i e c) 14 = c"
  by (auto intro!: u16_eqI simp: stream_header_def bit_simps)

lemma stream_header_split: "stream_header (h AND 0x3FFF) (bit h 15) (bit h 14) = h"
  by (auto intro!: u16_eqI simp: stream_header_def bit_simps)

lemma stream_pack_header:
  "stream_pack m = u16_be (stream_header (sm_stream_id m) (sm_eof m) (sm_compressed m)) @ sm_data m"
  by (simp add: stream_pack_def stream_header_def Let_def or.assoc)

lemma stream_dec_enc: "stream_wf m \<Longrightarrow> stream_unpack (stream_pack m) = Inr m"
  by (cases m) (simp add: stream_pack_header stream_unpack_def stream_wf_def u16_flag_test
      stream_header_parts)

lemma stream_enc_dec: "stream_unpack bs = Inr m \<Longrightarrow> stream_wf m \<and> stream_pack m = bs"
proof -
  assume a: "stream_unpack bs = Inr m"
  then have l: "2 \<le> length bs" by (auto simp: stream_unpack_def split: if_splits)
  from a l have "stream_wf m" by (auto simp: stream_unpack_def stream_wf_def Let_def and.assoc)
  moreover have "stream_pack m = take 2 bs @ drop 2 bs"
    using a l stream_header_split [of "u16_of_be (take 2 bs)"]
    by (auto simp: stream_unpack_def stream_pack_header Let_def u16_flag_test u16_be_of_be)
  ultimately show ?thesis by simp
qed

interpretation stream_codec: canonical_codec stream_pack stream_unpack stream_wf
  by unfold_locales (simp_all add: stream_dec_enc stream_enc_dec)


section \<open>Streams\<close>

text \<open>The stream message format is exact: a byte string unpacks exactly if it has two or more
  bytes, and then to the one message with a 14-bit stream id whose packing it is.\<close>

theorem stream_exact:
  "(stream_unpack bs = Inr m \<longleftrightarrow> stream_wf m \<and> bs = stream_pack m) \<and>
   ((\<exists>m. stream_unpack bs = Inr m) \<longleftrightarrow> 2 \<le> length bs)"
  using stream_codec.dec_iff [of bs m] by (auto simp: stream_unpack_def Let_def)

text \<open>The chunks a caller of \<open>write\<close> produces for some data by writing until all is consumed.\<close>

definition stream_data :: "u16 \<Rightarrow> bytes \<Rightarrow> bytes" where
  "stream_data i chunk =
     stream_pack \<lparr> sm_stream_id = i, sm_data = chunk, sm_eof = False, sm_compressed = False \<rparr>"

definition stream_end :: "u16 \<Rightarrow> bytes" where
  "stream_end i =
     stream_pack \<lparr> sm_stream_id = i, sm_data = [], sm_eof = True, sm_compressed = False \<rparr>"

lemma reader_handle_data:
  "i AND STREAM_ID_MAX = i \<Longrightarrow> reader_handle (stream_data i chunk) r =
     (if i = rd_stream_id r then r\<lparr>rd_buffer := rd_buffer r @ chunk\<rparr> else r)"
  by (simp add: reader_handle_def stream_data_def stream_dec_enc stream_wf_def Let_def)

lemma reader_handle_end:
  "i AND STREAM_ID_MAX = i \<Longrightarrow> reader_handle (stream_end i) r =
     (if i = rd_stream_id r then r\<lparr>rd_eof := True\<rparr> else r)"
  by (simp add: reader_handle_def stream_end_def stream_dec_enc stream_wf_def Let_def)

lemma reader_handle_chunks:
  assumes "\<forall>(i, chunk) \<in> set cs. i AND STREAM_ID_MAX = i"
  shows "fold (\<lambda>(i, chunk). reader_handle (stream_data i chunk)) cs r =
    r\<lparr>rd_buffer := rd_buffer r @ concat (map snd (filter (\<lambda>(i, chunk). i = rd_stream_id r) cs))\<rparr>"
  using assms by (induction cs arbitrary: r) (auto simp: reader_handle_data)

text \<open>Reading until end of stream, with reads of \<open>n > 0\<close> bytes.\<close>

function reader_drain :: "nat \<Rightarrow> reader \<Rightarrow> bytes" where
  "reader_drain n r = (if n = 0 \<or> rd_buffer r = [] then []
     else case reader_read n r of (r', Some (Inr bs)) \<Rightarrow> bs @ reader_drain n r' | _ \<Rightarrow> [])"
  by pat_completeness auto
termination
  by (relation "measure (\<lambda>(n, r). length (rd_buffer r))") (auto simp: reader_read_def Let_def)

declare reader_drain.simps [simp del]

lemma reader_drain_all: "0 < n \<Longrightarrow> reader_drain n r = rd_buffer r"
proof (induction n r rule: reader_drain.induct)
  case (1 n r)
  show ?case
  proof (cases "rd_buffer r = []")
    case False
    with 1 show ?thesis
      by (subst reader_drain.simps) (simp add: reader_read_def Let_def)
  qed (simp add: reader_drain.simps)
qed

text \<open>A stream comes out as it went in: if the handler gets, in order, the chunks of any number
  of interleaved streams and then the end of the reader's own, reading until the end gives the
  concatenation of the chunks of the reader's stream and the reader is closed afterwards.\<close>

theorem stream_roundtrip:
  assumes "\<forall>(i, chunk) \<in> set cs. i AND STREAM_ID_MAX = i" and "sid AND STREAM_ID_MAX = sid" and "0 < n"
  shows "let r = reader_handle (stream_end sid)
                   (fold (\<lambda>(i, chunk). reader_handle (stream_data i chunk)) cs (reader_new c sid))
         in reader_drain n r = concat (map snd (filter (\<lambda>(i, chunk). i = sid) cs)) \<and>
            reader_is_closed (r\<lparr>rd_buffer := []\<rparr>) \<and> reader_read n (r\<lparr>rd_buffer := []\<rparr>) =
              (r\<lparr>rd_buffer := []\<rparr>, Some (Inr []))"
  using assms by (simp add: reader_handle_chunks reader_handle_end reader_drain_all reader_new_def
      reader_is_closed_def reader_read_def Let_def)

theorem stream_roundtrip_witness:
  "let r = reader_handle (stream_end 5)
       (fold (\<lambda>(i, chunk). reader_handle (stream_data i chunk)) [(5, [1, 2]), (6, [9]), (5, [3])]
         (reader_new (channel_new (demo_link 3 1)) 5))
   in reader_drain 2 r = [1, 2, 3]"
  using stream_roundtrip [of "[(5, [1, 2]), (6, [9]), (5, [3])]" 5 2 "channel_new (demo_link 3 1)"] by (simp add: Let_def)

section \<open>End to end\<close>

fun writer_write_all :: "ext \<Rightarrow> instant \<Rightarrow> bytes list \<Rightarrow> writer \<Rightarrow> writer option" where
  "writer_write_all E now [] w = Some w"
| "writer_write_all E now (d # ds) w = (case writer_write E now [] [] d w of
       Some (w', Inr n) \<Rightarrow> if n = length d then writer_write_all E now ds w' else None
     | _ \<Rightarrow> None)"

text \<open>A chunk that the writer sends as one message and that fits the encrypted link.\<close>

definition chunk_fits :: "writer \<Rightarrow> bytes \<Rightarrow> bool" where
  "chunk_fits w d \<longleftrightarrow> d \<noteq> [] \<and> length d \<le> wr_max_data_len w \<and> channel_fits (wr_channel w) (stream_data (wr_stream_id w) d)"

definition stream_env :: "u16 \<Rightarrow> u32 \<Rightarrow> bytes \<Rightarrow> envelope" where
  "stream_env sid s d = \<lparr> env_message_type = SMT_STREAM_DATA, env_sequence_number = s, env_payload = stream_data sid d \<rparr>"

lemma writer_write_ok:
  assumes "hash_ok E" "aes_ok E" "lnk_state (ch_link (wr_channel w)) = Established"
    and "lnk_shared_key (ch_link (wr_channel w)) = Some k" "chunk_fits w d"
  defines "c \<equiv> wr_channel w"
  shows "writer_write E now eph iv d w = Some (w\<lparr>wr_channel := c\<lparr>ch_outgoing_seq := ch_outgoing_seq c + 1,
      ch_link := (ch_link c)\<lparr>lnk_outbound := lnk_outbound (ch_link c) @
        [env_packet E k (ch_link c) (stream_env (wr_stream_id w) (ch_outgoing_seq c) d)], lnk_last_outbound := now\<rparr>\<rparr>\<rparr>,
    Inr (length d))"
  using channel_send_typed_ok [OF assms(1-4), of "stream_data (wr_stream_id w) d" now eph iv SMT_STREAM_DATA] assms(5)
  by (simp add: writer_write_def chunk_fits_def stream_data_def stream_env_def c_def)

lemma writer_write_all_ok:
  assumes "hash_ok E" "aes_ok E" "lnk_state (ch_link (wr_channel w)) = Established"
    and "lnk_shared_key (ch_link (wr_channel w)) = Some k" "list_all (chunk_fits w) ds"
  shows "\<exists>w' ss. writer_write_all E now ds w = Some w' \<and> length ss = length ds \<and>
    lnk_outbound (ch_link (wr_channel w')) = lnk_outbound (ch_link (wr_channel w)) @
      map2 (\<lambda>s d. env_packet E k (ch_link (wr_channel w)) (stream_env (wr_stream_id w) s d)) ss ds"
  using assms(3-)
proof (induction ds arbitrary: w)
  case (Cons d ds)
  let ?c = "wr_channel w"
  let ?p = "env_packet E k (ch_link ?c) (stream_env (wr_stream_id w) (ch_outgoing_seq ?c) d)"
  let ?w = "w\<lparr>wr_channel := ?c\<lparr>ch_outgoing_seq := ch_outgoing_seq ?c + 1,
      ch_link := (ch_link ?c)\<lparr>lnk_outbound := lnk_outbound (ch_link ?c) @ [?p], lnk_last_outbound := now\<rparr>\<rparr>\<rparr>"
  have step: "writer_write E now [] [] d w = Some (?w, Inr (length d))"
    using writer_write_ok [OF assms(1,2) Cons.prems(1,2)] Cons.prems(3) by simp
  have "chunk_fits ?w = chunk_fits w" by (rule ext) (simp add: chunk_fits_def channel_fits_def)
  moreover have "env_packet E k (ch_link (wr_channel ?w)) = env_packet E k (ch_link ?c)"
    by (rule ext) (simp add: env_packet_def link_packet_def)
  ultimately obtain w' ss where "writer_write_all E now ds ?w = Some w'" "length ss = length ds"
    "lnk_outbound (ch_link (wr_channel w')) = (lnk_outbound (ch_link ?c) @ [?p]) @
      map2 (\<lambda>s d. env_packet E k (ch_link ?c) (stream_env (wr_stream_id w) s d)) ss ds"
    using Cons.IH [of ?w] Cons.prems by auto
  then show ?case using step by (intro exI [of _ w'] exI [of _ "ch_outgoing_seq ?c # ss"]) simp
qed simp

lemma accept_handled:
  "SMT_STREAM_DATA \<in> ch_handlers c \<Longrightarrow>
     fold channel_accept (map (\<lambda>i. stream_env sid (f i) (g i)) is) c =
     c\<lparr>ch_handled := ch_handled c @ map (\<lambda>i. (SMT_STREAM_DATA, stream_data sid (g i))) is\<rparr>"
  by (induction "is" arbitrary: c) (auto simp: channel_accept_def stream_env_def)

lemma reader_handle_calls:
  "rd_stream_id r = sid \<Longrightarrow> sid AND STREAM_ID_MAX = sid \<Longrightarrow>
     fold (\<lambda>(t, p). reader_handle p) (map (\<lambda>i. (t, stream_data sid (g i))) is) r =
     r\<lparr>rd_buffer := rd_buffer r @ concat (map g is)\<rparr>"
  by (induction "is" arbitrary: r) (auto simp: reader_handle_data)

text \<open>
  The parts of the crate fit together: were the packets that the writer leaves in its link's queue handed to
  \<open>deliver\<close> of the reader's channel, in whichever order and however often, the reader's handler would
  put into the buffer the chunks of exactly these packets in the order of arrival, since the
  sequence numbers of the channel are not used for messages with a handler. No execution of the program
  does this as it stands: \<open>write\<close> drops the packet, and both channels are private fields (\<open>reader_deaf\<close> below).
\<close>

theorem stream_end_to_end:
  assumes "hash_ok E" and "aes_ok E" and "link_ends (ch_link a) (ch_link b)" and "lnk_inbound (ch_link b) = []"
    and "writer_new a sid = Some w" and "sid AND STREAM_ID_MAX = sid" and "list_all (chunk_fits w) ds"
    and "\<forall>i \<in> set is. i < length ds" and "ch_handled b = []" and "0 < n"
  shows "\<exists>w' pkts. writer_write_all E now ds w = Some w' \<and> length pkts = length ds \<and>
    lnk_outbound (ch_link (wr_channel w')) = lnk_outbound (ch_link a) @ pkts \<and>
    (let r = reader_new b sid; c = fold (\<lambda>i c. fst (channel_deliver E now (pkts ! i) c)) is (rd_channel r)
     in reader_drain n (fold (\<lambda>(t, p). reader_handle p) (ch_handled c) r) = concat (map ((!) ds) is))"
proof -
  have w: "wr_channel w = a" "wr_stream_id w = sid" using assms(5) by (auto simp: writer_new_def split: option.splits)
  obtain k where k: "lnk_shared_key (ch_link a) = Some k" and est: "lnk_state (ch_link a) = Established"
    using assms(3) by (auto simp: link_ends_def)
  obtain w' ss where w': "writer_write_all E now ds w = Some w'" and ss: "length ss = length ds"
    and out: "lnk_outbound (ch_link (wr_channel w')) = lnk_outbound (ch_link a) @
      map2 (\<lambda>s d. env_packet E k (ch_link a) (stream_env sid s d)) ss ds"
    using writer_write_all_ok [OF assms(1,2) _ _ assms(7), of k now] k est by (auto simp: w)
  let ?pkts = "map2 (\<lambda>s d. env_packet E k (ch_link a) (stream_env sid s d)) ss ds"
  let ?r = "reader_new b sid" and ?envs = "map (\<lambda>i. stream_env sid (ss ! i) (ds ! i)) is"
  let ?c = "fold (\<lambda>i c. fst (channel_deliver E now (?pkts ! i) c)) is (rd_channel ?r)"
  have "?c = fold (\<lambda>env c. fst (channel_deliver E now (env_packet E k (ch_link a) env) c))
      ?envs (rd_channel ?r)"
    unfolding fold_map comp_def using assms(8) ss by (intro fold_cong) auto
  moreover have "link_ends (ch_link a) (ch_link (rd_channel ?r))" "lnk_inbound (ch_link (rd_channel ?r)) = []"
    using assms(3,4) by (simp_all add: reader_new_def channel_register_handler_def)
  moreover have "SMT_STREAM_DATA \<in> ch_handlers (rd_channel ?r)" "ch_handled (rd_channel ?r) = []"
    using assms(9) by (simp_all add: reader_new_def channel_register_handler_def)
  ultimately have "ch_handled ?c = map (\<lambda>i. (SMT_STREAM_DATA, stream_data sid (ds ! i))) is"
    using channel_deliver_fold [OF assms(1,2) _ k, where c = "rd_channel ?r" and now = now and envs = ?envs]
    by (auto simp: accept_handled)
  then have "reader_drain n (fold (\<lambda>(t, p). reader_handle p) (ch_handled ?c) ?r) = concat (map ((!) ds) is)"
    using reader_handle_calls [of ?r sid SMT_STREAM_DATA "(!) ds" "is"] assms(6,10)
    by (simp add: reader_drain_all) (simp add: reader_new_def)
  then show ?thesis using w' out ss by (auto simp: Let_def intro!: exI [of _ w'] exI [of _ ?pkts])
qed

text \<open>The same with a swapped pair of packets and a repeated one: the bytes come out swapped and doubled.\<close>

theorem stream_end_to_end_witness:
  "\<exists>w' pkts. writer_write_all ext_toy 3 [[1, 2], [3]] (the (writer_new (channel_new (demo_link 1 3)) 5)) = Some w' \<and>
    length pkts = 2 \<and> lnk_outbound (ch_link (wr_channel w')) = lnk_outbound (demo_link 1 3) @ pkts \<and>
    (let r = reader_new (channel_new (demo_link 3 1)) 5;
         c = fold (\<lambda>i c. fst (channel_deliver ext_toy 3 (pkts ! i) c)) [1, 0, 0] (rd_channel r)
     in reader_drain 2 (fold (\<lambda>(t, p). reader_handle p) (ch_handled c) r) = [3, 1, 2, 1, 2])"
proof -
  let ?w = "\<lparr> wr_stream_id = 5, wr_channel = channel_new (demo_link 1 3), wr_max_data_len = 492 \<rparr>"
  have w: "writer_new (channel_new (demo_link 1 3)) 5 = Some ?w"
    by (simp add: writer_new_def channel_mdu_def channel_new_def max_data_len_def link_config_default_def)
  have "list_all (chunk_fits ?w) [[1, 2], [3]]"
    by (simp add: chunk_fits_def channel_fits_def stream_data_def stream_pack_header channel_new_def link_config_default_def)
  then have "\<exists>w' pkts. writer_write_all ext_toy 3 [[1, 2], [3]] ?w = Some w' \<and> length pkts = length [[1, 2], [3 :: u8]] \<and>
    lnk_outbound (ch_link (wr_channel w')) = lnk_outbound (ch_link (channel_new (demo_link 1 3))) @ pkts \<and>
    (let r = reader_new (channel_new (demo_link 3 1)) 5;
         c = fold (\<lambda>i c. fst (channel_deliver ext_toy 3 (pkts ! i) c)) [1, 0, 0] (rd_channel r)
     in reader_drain 2 (fold (\<lambda>(t, p). reader_handle p) (ch_handled c) r) = concat (map ((!) [[1, 2], [3]]) [1, 0, 0]))"
    using w by (intro stream_end_to_end) (simp_all add: channel_new_def)
  moreover have "concat (map ((!) [[1, 2], [3]]) [1, 0, 0]) = [3, 1, 2, 1, 2 :: u8]" "length [[1, 2], [3 :: u8]] = 2"
    "ch_link (channel_new (demo_link 1 3)) = demo_link 1 3" by (simp_all add: channel_new_def)
  ultimately show ?thesis unfolding w option.sel by (simp only:)
qed

text \<open>
  The reader never hears anything: it owns its channel and its methods do not deliver packets to it, so
  however often it is read from, a new reader waits.
\<close>

theorem reader_deaf:
  "reader_read m (((\<lambda>r. fst (reader_read n r)) ^^ k) (reader_new c sid)) = (reader_new c sid, None)"
proof -
  have "((\<lambda>r. fst (reader_read n r)) ^^ k) (reader_new c sid) = reader_new c sid"
    by (induction k) (simp_all add: reader_new_def reader_read_def)
  then show ?thesis by (simp add: reader_new_def reader_read_def)
qed

text \<open>C32. 
  What \<open>write\<close> does on an established encrypted link, for every MTU and all data. It cuts the data to
  the MTU less eight bytes (six for the envelope, two for the stream header). If the encrypted envelope of this
  chunk fits the MTU, the chunk is queued as one packet, a stream message with the next sequence number, and
  its length is returned; otherwise the call fails, the link is as before, and the sequence number is lost.
  The overhead of encryption is not part of the cut, so a chunk of the maximal length never fits: data of
  that length or more is refused, however often the caller tries to write it. (On an MTU of six or seven
  bytes, where not even the stream header fits, the channel refuses it.)
\<close>

theorem writer_write_outcome:
  assumes "hash_ok E" "aes_ok E" "lnk_state (ch_link c) = Established"
    and "lnk_shared_key (ch_link c) = Some k" "writer_new c sid = Some w" "data \<noteq> []"
  defines "mtu \<equiv> unat (lc_mtu (lnk_config (ch_link c)))"
  defines "n \<equiv> min (length data) (mtu - 8)"
  defines "frame_len \<equiv> 32 + ((n + 8) div 16 + 1) * 16"
  shows "writer_write E now eph iv data w =
      (let c' = c\<lparr>ch_outgoing_seq := ch_outgoing_seq c + 1\<rparr>;
           pkt = env_packet E k (ch_link c) (stream_env sid (ch_outgoing_seq c) (take n data))
       in if frame_len \<le> mtu
          then Some (w\<lparr>wr_channel := c'\<lparr>ch_link := (ch_link c)\<lparr>lnk_outbound := lnk_outbound (ch_link c) @ [pkt],
                 lnk_last_outbound := now\<rparr>\<rparr>\<rparr>, Inr n)
          else if 8 \<le> mtu then Some (w\<lparr>wr_channel := c'\<rparr>, Inl (BufChannel (ChTransport (InvalidChunkSize frame_len))))
          else Some (w, Inl (BufChannel (MessageTooLarge 2 (mtu - 6)))))
    \<and> (mtu \<le> length data + 8 \<longrightarrow> mtu < frame_len)"
proof -
  have big: "mtu \<le> length data + 8 \<longrightarrow> mtu < frame_len" unfolding frame_len_def n_def min_def by auto
  have six: "6 \<le> mtu" and w: "w = \<lparr> wr_stream_id = sid, wr_channel = c, wr_max_data_len = mtu - 8 \<rparr>"
    using assms(5) by (auto simp: writer_new_def channel_mdu_def max_data_len_def mtu_def Let_def split: if_splits option.splits)
  let ?p = "stream_data sid (take n data)"
  have chunk: "(if mtu - 8 < length data then take (mtu - 8) data else data) = take n data"
    unfolding n_def min_def by auto
  have len: "length ?p = n + 2" "length (take n data) = n"
    by (simp_all add: stream_data_def stream_pack_header n_def)
  have sent: "writer_write E now eph iv data w = (case channel_send_typed E now eph iv SMT_STREAM_DATA ?p c of
      None \<Rightarrow> None | Some (c, r) \<Rightarrow> Some (w\<lparr>wr_channel := c\<rparr>,
        case r of Inl e \<Rightarrow> Inl (BufChannel e) | Inr _ \<Rightarrow> Inr n))"
    unfolding writer_write_def Let_def w writer.simps chunk len(2) stream_data_def using assms(6) by simp
  show ?thesis
  proof (cases "frame_len \<le> mtu")
    case True
    then have "channel_fits c ?p" unfolding channel_fits_def len frame_len_def mtu_def by (simp add: add.commute)
    from channel_send_typed_ok [OF assms(1-4) this, of now eph iv SMT_STREAM_DATA] True big show ?thesis
      unfolding sent by (simp add: stream_env_def)
  next
    case False
    have mdu: "channel_mdu c = Some (mtu - 6)" using six by (simp add: channel_mdu_def mtu_def Let_def)
    show ?thesis
    proof (cases "8 \<le> mtu")
      case True
      then have "\<not> mtu - 6 < n + 2" by (simp add: n_def)
      with False True mdu show ?thesis using assms(1-4) big unfolding sent
        by (simp add: channel_send_typed_def link_send_def link_payload_def Let_def link_data_length
            envelope_pack_def len add.commute flip: mtu_def) (simp add: frame_len_def add.commute)
    next
      case False
      then have "length ?p = 2" unfolding len by (simp add: n_def)
      moreover from this False have "mtu - 6 < length ?p" by linarith
      moreover have "w\<lparr>wr_channel := c\<rparr> = w" by (simp add: w)
      ultimately show ?thesis using False \<open>\<not> frame_len \<le> mtu\<close> mdu big unfolding sent
        by (simp add: channel_send_typed_def)
    qed
  qed
qed

text \<open>With the default MTU of 500, where the chunk is cut at 492 bytes, 455 bytes are written and 456 are not.\<close>

theorem writer_write_outcome_witness:
  "let c = channel_new (demo_link 1 3); w = the (writer_new c 3)
   in (\<exists>w'. writer_write ext_toy 0 [] [] (replicate 455 1) w = Some (w', Inr 455) \<and>
        lnk_outbound (ch_link (wr_channel w')) = [env_packet ext_toy (replicate 32 7) (demo_link 1 3) (stream_env 3 0 (replicate 455 1))]) \<and>
      writer_write ext_toy 0 [] [] (replicate 456 1) w =
        Some (w\<lparr>wr_channel := c\<lparr>ch_outgoing_seq := 1\<rparr>\<rparr>, Inl (BufChannel (ChTransport (InvalidChunkSize 512))))"
proof -
  let ?c = "channel_new (demo_link 1 3)"
  have w: "writer_new ?c 3 = Some \<lparr> wr_stream_id = 3, wr_channel = ?c, wr_max_data_len = 492 \<rparr>"
    by (simp add: writer_new_def channel_mdu_def channel_new_def max_data_len_def link_config_default_def)
  have *: "n \<noteq> 0 \<Longrightarrow> replicate n (1 :: u8) \<noteq> []" for n by simp
  have l: "lnk_state (demo_link 1 3) = Established" "lnk_shared_key (demo_link 1 3) = Some (replicate 32 7)"
    "lnk_outbound (demo_link 1 3) = []"
    by (simp_all add: demo_link_def link_setters link_new_def link_with_config_def)
  show ?thesis
    using writer_write_outcome [OF _ _ _ _ w *, of ext_toy "replicate 32 7" 455 0 "[]" "[]"]
      writer_write_outcome [OF _ _ _ _ w *, of ext_toy "replicate 32 7" 456 0 "[]" "[]"]
    by (simp add: w [unfolded channel_new_def] l channel_new_def link_config_default_def Let_def)
qed

end
