(* ===== verification/Reassembly.thy ===== *)
theory Reassembly
  imports Destination "HOL-Library.Finite_Map"
begin

text \<open>
  \<open>crates/transport/src/resource.rs\<close> (segmented transfer of large resources) and
  \<open>crates/transport/src/packet_transport.rs\<close> (fragmentation of messages over the MTU). Both
  collect indexed parts in a hash map until all are there; \<open>collector\<close> states that contract once,
  and both are instances. A result of \<open>None\<close> stands for a panic (division by zero, indexing a
  missing key).
\<close>

section \<open>Collecting indexed parts\<close>

fun run_all :: "('i \<Rightarrow> 's \<Rightarrow> 's \<times> 'r) \<Rightarrow> 'i list \<Rightarrow> 's \<Rightarrow> 's \<times> 'r list" where
  "run_all f [] s = (s, [])"
| "run_all f (i # is) s = (let (s1, r) = f i s; (s2, rs) = run_all f is s1 in (s2, r # rs))"

lemma run_all_cong:
  "(\<And>i s. i \<in> set is \<Longrightarrow> f i s = g i s) \<Longrightarrow> run_all f is s = run_all g is s"
  by (induction "is" arbitrary: s) (simp_all add: Let_def split: prod.splits)

locale collector =
  fixes inv :: "'s \<Rightarrow> bool"
    and total :: nat
    and chunk :: "nat \<Rightarrow> bytes"
    and parts :: "'s \<Rightarrow> nat \<Rightarrow> bytes option"
    and add :: "nat \<Rightarrow> 's \<Rightarrow> 's \<times> 'r"
    and more :: 'r
    and finished :: "'s \<times> 'r \<Rightarrow> bool"
  assumes add_more:
      "inv s \<Longrightarrow> i < total \<Longrightarrow> parts s i = None \<Longrightarrow> dom (parts s) \<subseteq> {..<total} \<Longrightarrow>
       Suc (card (dom (parts s))) < total \<Longrightarrow>
         \<exists>s'. add i s = (s', more) \<and> inv s' \<and> parts s' = (parts s)(i \<mapsto> chunk i)"
    and add_last:
      "inv s \<Longrightarrow> i < total \<Longrightarrow> parts s i = None \<Longrightarrow> dom (parts s) \<subseteq> {..<total} \<Longrightarrow>
       Suc (card (dom (parts s))) = total \<Longrightarrow>
       (\<And>j. j < total \<Longrightarrow> j \<noteq> i \<Longrightarrow> parts s j = Some (chunk j)) \<Longrightarrow> finished (add i s)"
begin

lemma collect_from:
  assumes "inv s" "distinct is" "is \<noteq> []" "dom (parts s) \<inter> set is = {}"
    "dom (parts s) \<union> set is = {..<total}" "\<forall>j \<in> dom (parts s). parts s j = Some (chunk j)"
  shows "\<exists>s' r. run_all add is s = (s', replicate (length is - 1) more @ [r]) \<and> finished (s', r)"
  using assms
proof (induction "is" arbitrary: s)
  case (Cons i "is")
  have i: "i < total" "parts s i = None" "dom (parts s) \<subseteq> {..<total}"
    using Cons.prems(4,5) by auto
  have "finite (dom (parts s))" using i(3) by (rule finite_subset) simp
  then have "card (dom (parts s) \<union> set (i # is)) = card (dom (parts s)) + length (i # is)"
    using Cons.prems(4) distinct_card [OF Cons.prems(2)] by (subst card_Un_disjoint) auto
  then have card: "card (dom (parts s)) + Suc (length is) = total" using Cons.prems(5) by simp
  show ?case
  proof (cases "is = []")
    case True
    then have "Suc (card (dom (parts s))) = total" using card by simp
    moreover have "parts s j = Some (chunk j)" if "j < total" "j \<noteq> i" for j
    proof -
      have "j \<in> dom (parts s)" using that Cons.prems(5) True by auto
      then show ?thesis using Cons.prems(6) by blast
    qed
    ultimately have "finished (add i s)" using add_last [OF Cons.prems(1) i] by blast
    with True show ?thesis by (cases "add i s") auto
  next
    case False
    then have "Suc (card (dom (parts s))) < total" using card by (cases "is") auto
    from add_more [OF Cons.prems(1) i this] obtain s1 where
      s1: "add i s = (s1, more)" "inv s1" "parts s1 = (parts s)(i \<mapsto> chunk i)" by blast
    have d: "dom (parts s1) = insert i (dom (parts s))" using s1(3) by simp
    have "dom (parts s1) \<inter> set is = {}" "dom (parts s1) \<union> set is = {..<total}"
      using Cons.prems(2,4,5) unfolding d by auto
    moreover have "\<forall>j \<in> dom (parts s1). parts s1 j = Some (chunk j)"
      using Cons.prems(6) s1(3) by auto
    ultimately have
      "\<exists>s' r. run_all add is s1 = (s', replicate (length is - 1) more @ [r]) \<and> finished (s', r)"
      using Cons.prems(2) False by (intro Cons.IH [OF s1(2)]) auto
    with s1 False show ?thesis by (cases "is") (auto split: prod.splits)
  qed
qed simp

text \<open>All parts, added once each in any order: every addition but the last reports that more are
  needed, the last one that the whole is there.\<close>

lemma collect:
  assumes "inv s" "parts s = Map.empty" "distinct is" "set is = {..<total}" "0 < total"
  shows "\<exists>s' r. run_all add is s = (s', replicate (total - 1) more @ [r]) \<and> finished (s', r)"
proof -
  have "length is = total" using assms(3,4) distinct_card [of "is"] by simp
  then show ?thesis using collect_from [OF assms(1,3)] assms by (cases "is") auto
qed

end

text \<open>A map from machine words as a function of the index it stands for.\<close>

definition wparts :: "('a::len word, 'b) fmap \<Rightarrow> nat \<Rightarrow> 'b option" where
  "wparts m i = (if i < 2 ^ LENGTH('a) then fmlookup m (of_nat i) else None)"

definition fmap_len :: "('a, 'b) fmap \<Rightarrow> nat" where
  "fmap_len m = fcard (fmdom m)"

lemma dom_wparts:
  fixes m :: "('a::len word, 'b) fmap"
  shows "dom (wparts m) = unat ` fset (fmdom m)"
proof (intro equalityI subsetI)
  fix i assume "i \<in> dom (wparts m)"
  then have "i = unat (of_nat i :: 'a word)" "(of_nat i :: 'a word) \<in> fset (fmdom m)"
    by (auto simp: wparts_def unat_of_nat fmdomI split: if_splits)
  then show "i \<in> unat ` fset (fmdom m)" by (rule image_eqI)
next
  fix i assume "i \<in> unat ` fset (fmdom m)"
  then show "i \<in> dom (wparts m)" by (auto simp: wparts_def fmlookup_dom_iff)
qed

lemma card_wparts: "card (dom (wparts m)) = fmap_len m"
  unfolding dom_wparts fmap_len_def
  by (subst card_image) (auto simp: inj_on_def word_unat_eq_iff fcard.rep_eq)

lemma wparts_upd:
  fixes m :: "('a::len word, 'b) fmap"
  assumes i: "i < 2 ^ LENGTH('a)"
  shows "wparts (fmupd (of_nat i) x m) = (wparts m)(i \<mapsto> x)"
proof
  fix j
  have "(of_nat i :: 'a word) = of_nat j \<longleftrightarrow> i = j" if "j < 2 ^ LENGTH('a)"
    using i that by (simp add: word_unat_eq_iff unat_of_nat)
  then show "wparts (fmupd (of_nat i) x m) j = ((wparts m)(i \<mapsto> x)) j"
    using i by (auto simp: wparts_def)
qed

section \<open>Resources: segments\<close>

abbreviation (input) DEFAULT_SEGMENT_SIZE :: nat where "DEFAULT_SEGMENT_SIZE \<equiv> 1024"

record resource_config =
  rc_segment_size :: nat
  rc_max_concurrent :: nat

definition resource_config_default :: resource_config where
  "resource_config_default = \<lparr> rc_segment_size = DEFAULT_SEGMENT_SIZE, rc_max_concurrent = 16 \<rparr>"

definition resource_config_build :: "nat option \<Rightarrow> nat option \<Rightarrow> resource_config" where
  "resource_config_build segment_size max_concurrent =
     \<lparr> rc_segment_size = (case segment_size of Some s \<Rightarrow> s | None \<Rightarrow> DEFAULT_SEGMENT_SIZE),
       rc_max_concurrent = (case max_concurrent of Some m \<Rightarrow> m | None \<Rightarrow> 16) \<rparr>"

record segment =
  seg_resource_hash :: bytes
  seg_index :: u32
  seg_total :: u32
  seg_data :: bytes
  seg_checksum :: bytes

definition segment_new :: "ext \<Rightarrow> bytes \<Rightarrow> u32 \<Rightarrow> u32 \<Rightarrow> bytes \<Rightarrow> segment" where
  "segment_new E resource_hash index tot data =
     \<lparr> seg_resource_hash = resource_hash, seg_index = index, seg_total = tot,
       seg_data = data, seg_checksum = sha256 E data \<rparr>"

definition verify_checksum :: "ext \<Rightarrow> segment \<Rightarrow> bool" where
  "verify_checksum E s \<longleftrightarrow> seg_checksum s = sha256 E (seg_data s)"

section \<open>Resources: segment tracker\<close>

record tracker =
  trk_resource_hash :: bytes
  trk_total :: u32
  trk_received :: "(u32, segment) fmap"
  trk_complete :: bool
  trk_bytes_received :: nat

definition tracker_new :: "bytes \<Rightarrow> u32 \<Rightarrow> tracker" where
  "tracker_new resource_hash tot = \<lparr> trk_resource_hash = resource_hash, trk_total = tot,
     trk_received = fmempty, trk_complete = False, trk_bytes_received = 0 \<rparr>"

definition add_segment :: "ext \<Rightarrow> segment \<Rightarrow> tracker \<Rightarrow> tracker \<times> (TransportError + bool)" where
  "add_segment E s t =
     (if seg_resource_hash s \<noteq> trk_resource_hash t
      then (t, Inl (UnknownResource (hex_encode E (seg_resource_hash s))))
      else if trk_total t \<le> seg_index s
      then (t, Inl (ResourceSegmentOrder (trk_total t) (seg_index s)))
      else if fmlookup (trk_received t) (seg_index s) \<noteq> None
      then (t, Inl (TOther (''duplicate segment '' @ show_nat (unat (seg_index s)))))
      else if \<not> verify_checksum E s
      then (t, Inl (TOther (''checksum mismatch for segment '' @ show_nat (unat (seg_index s)))))
      else let t1 = t\<lparr>trk_bytes_received := trk_bytes_received t + length (seg_data s),
                      trk_received := fmupd (seg_index s) s (trk_received t)\<rparr>
           in if of_nat (fmap_len (trk_received t1)) = trk_total t1
              then (t1\<lparr>trk_complete := True\<rparr>, Inr True) else (t1, Inr False))"

text \<open>\<open>received[&i]\<close> panics on a missing index; the outer \<open>None\<close> is that panic.\<close>

fun collect_data :: "(nat \<Rightarrow> bytes option) \<Rightarrow> nat list \<Rightarrow> bytes option" where
  "collect_data f [] = Some []"
| "collect_data f (i # is) = (case f i of
       None \<Rightarrow> None
     | Some d \<Rightarrow> (case collect_data f is of None \<Rightarrow> None | Some ds \<Rightarrow> Some (d @ ds)))"

definition tracker_part :: "tracker \<Rightarrow> nat \<Rightarrow> bytes option" where
  "tracker_part t i = map_option seg_data (wparts (trk_received t) i)"

definition tracker_assemble :: "tracker \<Rightarrow> bytes option option" where
  "tracker_assemble t =
     (if \<not> trk_complete t then Some None
      else map_option Some (collect_data (tracker_part t) [0..<unat (trk_total t)]))"

definition missing_count :: "tracker \<Rightarrow> nat" where
  "missing_count t = unat (trk_total t) - fmap_len (trk_received t)"

definition missing_indices :: "tracker \<Rightarrow> u32 list" where
  "missing_indices t = filter (\<lambda>i. fmlookup (trk_received t) i = None)
     (map of_nat [0..<unat (trk_total t)])"

section \<open>Resources\<close>

text \<open>Conversion to and division of floating-point numbers are arguments; 1.0 is written as its bits.\<close>

definition tracker_progress :: "(nat \<Rightarrow> f64) \<Rightarrow> (f64 \<Rightarrow> f64 \<Rightarrow> f64) \<Rightarrow> tracker \<Rightarrow> f64" where
  "tracker_progress of_len divide_f64 t =
     (if trk_total t = 0 then 0x3FF0000000000000
      else divide_f64 (of_len (fmap_len (trk_received t))) (of_len (unat (trk_total t))))"

datatype resource_state = Pending | Transferring | ResComplete | ResFailed

record resource =
  res_hash :: bytes
  res_total_size :: nat
  res_data :: "bytes option"
  res_state :: resource_state
  res_tracker :: tracker
  res_config :: resource_config
  res_segments :: "segment list"

definition new_for_sending :: "ext \<Rightarrow> bytes \<Rightarrow> resource_config \<Rightarrow> resource option" where
  "new_for_sending E data config =
     (let hash = sha256 E data; segment_size = rc_segment_size config
      in if segment_size = 0 then None
         else let tot = of_nat ((length data + segment_size - 1) div segment_size);
                  segments = map (\<lambda>(i, chunk). segment_new E hash (of_nat i) tot chunk)
                    (enumerate 0 (chunks segment_size data))
              in Some \<lparr> res_hash = hash, res_total_size = length data, res_data = Some data,
                   res_state = Pending, res_tracker = tracker_new hash tot,
                   res_config = config, res_segments = segments \<rparr>)"

definition new_for_receiving :: "bytes \<Rightarrow> nat \<Rightarrow> u32 \<Rightarrow> resource_config \<Rightarrow> resource" where
  "new_for_receiving hash total_size total_segments config =
     \<lparr> res_hash = hash, res_total_size = total_size, res_data = None, res_state = Pending,
       res_tracker = tracker_new hash total_segments, res_config = config, res_segments = [] \<rparr>"

definition next_segment :: "u32 \<Rightarrow> resource \<Rightarrow> resource \<times> segment option" where
  "next_segment index r = (r\<lparr>res_state := Transferring\<rparr>,
     if unat index < length (res_segments r) then Some (res_segments r ! unat index) else None)"

definition receive_segment ::
  "ext \<Rightarrow> segment \<Rightarrow> resource \<Rightarrow> (resource \<times> (TransportError + bool)) option" where
  "receive_segment E s r =
     (let r1 = r\<lparr>res_state := Transferring\<rparr>; (t, res) = add_segment E s (res_tracker r1);
          r2 = r1\<lparr>res_tracker := t\<rparr>
      in case res of
           Inl e \<Rightarrow> Some (r2, Inl e)
         | Inr False \<Rightarrow> Some (r2, Inr False)
         | Inr True \<Rightarrow> (case tracker_assemble t of
               None \<Rightarrow> None
             | Some d \<Rightarrow> Some (r2\<lparr>res_state := ResComplete, res_data := d\<rparr>, Inr True)))"

definition resource_fail :: "resource \<Rightarrow> resource" where
  "resource_fail r = r\<lparr>res_state := ResFailed\<rparr>"

definition resource_is_complete :: "resource \<Rightarrow> bool" where
  "resource_is_complete r \<longleftrightarrow> res_state r = ResComplete"

record advertisement =
  adv_hash :: bytes
  adv_total_size :: u64
  adv_segment_count :: u32
  adv_compression :: u8
  adv_advertiser :: bytes

definition advertisement_new :: "resource \<Rightarrow> rns_address \<Rightarrow> advertisement" where
  "advertisement_new r a = \<lparr> adv_hash = res_hash r, adv_total_size = of_nat (res_total_size r),
     adv_segment_count = of_nat (length (res_segments r)), adv_compression = 0,
     adv_advertiser = a \<rparr>"

section \<open>Segment tracker: lemmas\<close>

lemma dom_tracker_part: "dom (tracker_part t) = dom (wparts (trk_received t))"
  by (auto simp: tracker_part_def)

lemma card_tracker_part: "card (dom (tracker_part t)) = fmap_len (trk_received t)"
  by (simp add: dom_tracker_part card_wparts)

lemma tracker_part_upd:
  assumes "i < 4294967296" "trk_received t' = fmupd (of_nat i) s (trk_received t)"
  shows "tracker_part t' = (tracker_part t)(i \<mapsto> seg_data s)"
  using assms wparts_upd [of i s "trk_received t"] by (auto simp: tracker_part_def)

lemma collect_data_all:
  "(\<And>i. i \<in> set is \<Longrightarrow> f i = Some (g i)) \<Longrightarrow> collect_data f is = Some (concat (map g is))"
  by (induction "is") auto

text \<open>What the sender's segment \<open>i\<close> of the chunks \<open>cs\<close> looks like, and the states in which the
  receiver waits for such segments.\<close>

definition nth_segment :: "ext \<Rightarrow> bytes \<Rightarrow> bytes list \<Rightarrow> nat \<Rightarrow> segment" where
  "nth_segment E h cs i = segment_new E h (of_nat i) (of_nat (length cs)) (cs ! i)"

definition tracker_waits :: "bytes \<Rightarrow> bytes list \<Rightarrow> tracker \<Rightarrow> bool" where
  "tracker_waits h cs t \<longleftrightarrow> length cs < 4294967296 \<and> trk_resource_hash t = h \<and>
     trk_total t = of_nat (length cs)"

lemma add_segment_fresh:
  fixes E
  assumes w: "tracker_waits h cs t" and i: "i < length cs" "tracker_part t i = None"
    and c: "Suc (card (dom (tracker_part t))) \<le> length cs"
  defines "t1 \<equiv> t\<lparr>trk_bytes_received := trk_bytes_received t + length (cs ! i),
      trk_received := fmupd (of_nat i) (nth_segment E h cs i) (trk_received t)\<rparr>"
  shows "tracker_part t1 = (tracker_part t)(i \<mapsto> cs ! i) \<and> tracker_waits h cs t1 \<and>
    add_segment E (nth_segment E h cs i) t =
      (if Suc (card (dom (tracker_part t))) = length cs then (t1\<lparr>trk_complete := True\<rparr>, Inr True)
       else (t1, Inr False))"
proof -
  have b: "i < 4294967296" using w i by (simp add: tracker_waits_def)
  have u: "unat (of_nat i :: u32) = i" "unat (of_nat (length cs) :: u32) = length cs"
    using w b by (simp_all add: unat_of_nat_u32 tracker_waits_def)
  have lk: "fmlookup (trk_received t) (of_nat i) = None"
    using i(2) b by (simp add: tracker_part_def wparts_def)
  have part: "tracker_part t1 = (tracker_part t)(i \<mapsto> cs ! i)"
    using tracker_part_upd [OF b, of t1 "nth_segment E h cs i" t]
    by (simp add: t1_def nth_segment_def segment_new_def)
  have fin: "finite (dom (tracker_part t))" by (simp add: dom_tracker_part dom_wparts)
  have len: "fmap_len (trk_received t1) = Suc (card (dom (tracker_part t)))"
    using card_tracker_part [of t1] part fin i(2) by (simp add: domIff)
  have le: "\<not> (of_nat (length cs) :: u32) \<le> of_nat i" using u i by (simp add: word_le_nat_alt)
  have eq: "(of_nat (Suc (card (dom (tracker_part t)))) :: u32) = of_nat (length cs) \<longleftrightarrow>
      Suc (card (dom (tracker_part t))) = length cs"
    using c w u(2) unat_of_nat_u32 [of "Suc (card (dom (tracker_part t)))"]
    by (simp add: tracker_waits_def word_unat_eq_iff del: of_nat_Suc)
  show ?thesis using w part le lk len eq
    by (auto simp: add_segment_def nth_segment_def segment_new_def verify_checksum_def
        tracker_waits_def t1_def Let_def simp del: of_nat_Suc)
qed

section \<open>Resources: reassembly\<close>

definition res_add :: "ext \<Rightarrow> bytes \<Rightarrow> bytes list \<Rightarrow> nat \<Rightarrow> resource \<Rightarrow>
    resource \<times> (TransportError + bool) option" where
  "res_add E h cs i r = (case receive_segment E (nth_segment E h cs i) r of
       Some (r', x) \<Rightarrow> (r', Some x) | None \<Rightarrow> (r, None))"

definition res_done :: "bytes list \<Rightarrow> resource \<times> (TransportError + bool) option \<Rightarrow> bool" where
  "res_done cs rx \<longleftrightarrow> snd rx = Some (Inr True) \<and> resource_is_complete (fst rx) \<and>
     res_data (fst rx) = Some (concat cs)"

lemma tracker_assemble_all:
  assumes "trk_complete t" "tracker_waits h cs t"
    and "\<And>j. j < length cs \<Longrightarrow> tracker_part t j = Some (cs ! j)"
  shows "tracker_assemble t = Some (Some (concat cs))"
proof -
  have "unat (trk_total t) = length cs"
    using assms(2) by (simp add: tracker_waits_def unat_of_nat_u32)
  moreover have "collect_data (tracker_part t) [0..<length cs] = Some (concat (map (nth cs) [0..<length cs]))"
    using assms(3) by (intro collect_data_all) simp
  ultimately show ?thesis using assms(1) by (simp add: tracker_assemble_def map_nth)
qed

lemma tracker_flags [simp]:
  "tracker_part (t\<lparr>trk_complete := b\<rparr>) = tracker_part t"
  "tracker_waits h cs (t\<lparr>trk_complete := b\<rparr>) = tracker_waits h cs t"
  by (rule ext, simp add: tracker_part_def) (simp add: tracker_waits_def)

interpretation resource_collector: collector "\<lambda>r. tracker_waits h cs (res_tracker r)"
  "length cs" "nth cs" "\<lambda>r. tracker_part (res_tracker r)" "res_add E h cs" "Some (Inr False)"
  "res_done cs" for E h cs
proof unfold_locales
  fix r :: resource and i
  let ?t = "res_tracker r"
  assume a: "tracker_waits h cs ?t" "i < length cs" "tracker_part ?t i = None"
  note fresh = add_segment_fresh [OF a, of E]
  {
    assume c: "Suc (card (dom (tracker_part ?t))) < length cs"
    with fresh [OF less_imp_le [OF c]] show "\<exists>r'. res_add E h cs i r = (r', Some (Inr False)) \<and>
        tracker_waits h cs (res_tracker r') \<and>
        tracker_part (res_tracker r') = (tracker_part ?t)(i \<mapsto> cs ! i)"
      by (simp add: res_add_def receive_segment_def)
  next
    assume c: "Suc (card (dom (tracker_part ?t))) = length cs"
      and j: "\<And>j. j < length cs \<Longrightarrow> j \<noteq> i \<Longrightarrow> tracker_part ?t j = Some (cs ! j)"
    obtain t1 where t1: "add_segment E (nth_segment E h cs i) ?t = (t1\<lparr>trk_complete := True\<rparr>, Inr True)"
      "tracker_part t1 = (tracker_part ?t)(i \<mapsto> cs ! i)" "tracker_waits h cs t1"
      using fresh [OF eq_refl [OF c]] c by auto
    have "tracker_assemble (t1\<lparr>trk_complete := True\<rparr>) = Some (Some (concat cs))"
      using t1 j by (intro tracker_assemble_all) auto
    with t1 show "res_done cs (res_add E h cs i r)"
      by (simp add: res_done_def res_add_def receive_segment_def resource_is_complete_def)
  }
qed

lemma new_for_sending_segments:
  assumes "new_for_sending E data cfg = Some sn"
  shows "concat (chunks (rc_segment_size cfg) data) = data \<and>
    res_hash sn = sha256 E data \<and> res_segments sn =
      map (nth_segment E (sha256 E data) (chunks (rc_segment_size cfg) data))
        [0..<length (chunks (rc_segment_size cfg) data)]"
proof -
  let ?n = "rc_segment_size cfg" and ?cs = "chunks (rc_segment_size cfg) data"
  have n: "0 < ?n" using assms by (auto simp: new_for_sending_def Let_def split: if_splits)
  have "enumerate 0 ?cs = map (\<lambda>i. (i, ?cs ! i)) [0..<length ?cs]"
    by (intro nth_equalityI) (auto simp: nth_enumerate_eq)
  with assms n show ?thesis
    by (auto simp: new_for_sending_def Let_def nth_segment_def length_chunks comp_def split: if_splits)
qed

lemma resource_arrives:
  assumes "new_for_sending E data cfg = Some sender" "data \<noteq> []"
    and "length (res_segments sender) < 2 ^ 32"
    and "distinct is" "set is = {..<length (res_segments sender)}"
  shows "\<exists>r. run_all (\<lambda>i r. case receive_segment E (res_segments sender ! i) r of
               Some (r', x) \<Rightarrow> (r', Some x) | None \<Rightarrow> (r, None)) is
           (new_for_receiving (res_hash sender) (res_total_size sender)
              (of_nat (length (res_segments sender))) cfg') =
         (r, replicate (length (res_segments sender) - 1) (Some (Inr False)) @ [Some (Inr True)]) \<and>
       resource_is_complete r \<and> res_data r = Some data"
proof -
  let ?cs = "chunks (rc_segment_size cfg) data" and ?h = "sha256 E data"
  let ?r = "new_for_receiving ?h (res_total_size sender) (of_nat (length ?cs)) cfg'"
  note s = new_for_sending_segments [OF assms(1)]
  have len: "length (res_segments sender) = length ?cs" using s by simp
  have cs: "?cs \<noteq> []" using s assms(2) by auto
  have "(case receive_segment E (res_segments sender ! i) r of
      Some (r', x) \<Rightarrow> (r', Some x) | None \<Rightarrow> (r, None)) = res_add E ?h ?cs i r"
    if "i \<in> set is" for i r using that s assms(5) len by (simp add: res_add_def)
  then have run: "run_all (\<lambda>i r. case receive_segment E (res_segments sender ! i) r of
      Some (r', x) \<Rightarrow> (r', Some x) | None \<Rightarrow> (r, None)) is r = run_all (res_add E ?h ?cs) is r" for r
    by (rule run_all_cong)
  have "\<exists>r x. run_all (res_add E ?h ?cs) is ?r =
      (r, replicate (length ?cs - 1) (Some (Inr False)) @ [x]) \<and> res_done ?cs (r, x)"
  proof (rule resource_collector.collect)
    show "tracker_waits ?h ?cs (res_tracker ?r)"
      using assms(3) len by (simp add: tracker_waits_def new_for_receiving_def tracker_new_def)
    show "tracker_part (res_tracker ?r) = Map.empty"
      by (rule ext) (simp add: tracker_part_def wparts_def new_for_receiving_def tracker_new_def)
  qed (use assms(4,5) len cs in auto)
  then obtain r where "run_all (res_add E ?h ?cs) is ?r =
      (r, replicate (length ?cs - 1) (Some (Inr False)) @ [Some (Inr True)])"
    "resource_is_complete r" "res_data r = Some data"
    using s by (auto simp: res_done_def)
  then show ?thesis unfolding run len using s by auto
qed

text \<open>C7. A resource arrives whole whatever the order of its segments: if a sender cuts data into
  fewer than \<open>2^32\<close> segments and the receiver, made from the advertised hash, size and count,
  gets each of them once, in any order, then every segment is accepted, only the last one reports
  completion, and the assembled data is the original. Assembly never indexes a missing segment.\<close>

theorem resource_transfer:
  assumes "new_for_sending E data cfg = Some sender" "data \<noteq> []"
    and "length (res_segments sender) < 2 ^ 32"
    and "distinct is" "set is = {..<length (res_segments sender)}"
  shows "\<exists>r. run_all (\<lambda>i r. case receive_segment E (res_segments sender ! i) r of
               Some (r', x) \<Rightarrow> (r', Some x) | None \<Rightarrow> (r, None)) is
           (new_for_receiving (res_hash sender) (res_total_size sender)
              (of_nat (length (res_segments sender))) cfg') =
         (r, replicate (length (res_segments sender) - 1) (Some (Inr False)) @ [Some (Inr True)]) \<and>
       resource_is_complete r \<and> res_data r = Some data"
  using assms by (rule resource_arrives)

theorem resource_transfer_witness:
  "\<exists>sender r. new_for_sending ext_toy [1, 2, 3] \<lparr> rc_segment_size = 2, rc_max_concurrent = 16 \<rparr> =
       Some sender \<and> length (res_segments sender) = 2 \<and>
     run_all (\<lambda>i r. case receive_segment ext_toy (res_segments sender ! i) r of
               Some (r', x) \<Rightarrow> (r', Some x) | None \<Rightarrow> (r, None)) [1, 0]
       (new_for_receiving (res_hash sender) (res_total_size sender) 2 resource_config_default) =
     (r, [Some (Inr False), Some (Inr True)]) \<and> resource_is_complete r \<and> res_data r = Some [1, 2, 3]"
proof -
  let ?cfg = "\<lparr> rc_segment_size = 2, rc_max_concurrent = 16 \<rparr>"
  obtain s where s: "new_for_sending ext_toy [1, 2, 3] ?cfg = Some s"
    by (simp add: new_for_sending_def Let_def)
  then have l: "length (res_segments s) = 2"
    by (auto simp: new_for_sending_def Let_def length_chunks)
  then have "set [1, 0] = {..<length (res_segments s)}" by auto
  with resource_transfer [OF s, of "[1, 0]" resource_config_default] l s show ?thesis by auto
qed

section \<open>Resources: edge cases\<close>

lemma add_segment_empty_total:
  "trk_total t = 0 \<Longrightarrow> \<exists>e. add_segment E s t = (t, Inl e)"
  by (simp add: add_segment_def)

text \<open>An empty resource never completes: it has no segments, and a receiver made for zero
  segments refuses every segment, so no sequence of receptions makes it complete.\<close>

theorem empty_resource_stuck:
  assumes "0 < rc_segment_size cfg"
  shows "(\<exists>sender. new_for_sending E [] cfg = Some sender \<and> res_segments sender = []) \<and>
    \<not> resource_is_complete
        (fold (\<lambda>s r. fst (the (receive_segment E s r))) ss (new_for_receiving h 0 0 cfg))"
proof -
  have "trk_total (res_tracker r) = 0 \<Longrightarrow> \<not> resource_is_complete r \<Longrightarrow>
    trk_total (res_tracker (fst (the (receive_segment E s r)))) = 0 \<and>
    \<not> resource_is_complete (fst (the (receive_segment E s r)))" for r s
    using add_segment_empty_total [of "res_tracker r" E s]
    by (auto simp: receive_segment_def resource_is_complete_def)
  then have "\<not> resource_is_complete (fold (\<lambda>s r. fst (the (receive_segment E s r))) ss r)"
    if "trk_total (res_tracker r) = 0" "\<not> resource_is_complete r" for r
    using that by (induction ss arbitrary: r) auto
  then show ?thesis using assms
    by (simp add: new_for_sending_def new_for_receiving_def tracker_new_def resource_is_complete_def
        Let_def)
qed

theorem empty_resource_stuck_witness:
  "\<not> resource_is_complete
      (fold (\<lambda>s r. fst (the (receive_segment ext_toy s r))) [segment_new ext_toy [] 0 0 []]
        (new_for_receiving [] 0 0 resource_config_default))"
  by (rule empty_resource_stuck [THEN conjunct2]) (simp add: resource_config_default_def)

text \<open>A late duplicate undoes completion: receiving a segment the tracker already has returns an
  error and moves even a complete resource back to the transferring state, although its data
  stays assembled.\<close>

theorem duplicate_reopens:
  assumes "seg_resource_hash s = trk_resource_hash (res_tracker r)"
    and "seg_index s < trk_total (res_tracker r)"
    and "fmlookup (trk_received (res_tracker r)) (seg_index s) \<noteq> None"
  shows "\<exists>e. receive_segment E s r = Some (r\<lparr>res_state := Transferring\<rparr>, Inl e) \<and>
    \<not> resource_is_complete (r\<lparr>res_state := Transferring\<rparr>)"
  using assms
  by (auto simp: receive_segment_def add_segment_def resource_is_complete_def Let_def not_le [symmetric])

theorem duplicate_reopens_witness:
  "let s = segment_new ext_toy [9] 0 1 [5];
       r = fst (the (receive_segment ext_toy s (new_for_receiving [9] 1 1 resource_config_default)))
   in resource_is_complete r \<and>
      (\<exists>e. receive_segment ext_toy s r = Some (r\<lparr>res_state := Transferring\<rparr>, Inl e) \<and>
         \<not> resource_is_complete (r\<lparr>res_state := Transferring\<rparr>))"
proof -
  let ?s = "segment_new ext_toy [9] 0 1 [5]"
  let ?r = "fst (the (receive_segment ext_toy ?s (new_for_receiving [9] 1 1 resource_config_default)))"
  have r: "res_state ?r = ResComplete \<and> trk_resource_hash (res_tracker ?r) = [9] \<and>
      trk_total (res_tracker ?r) = 1 \<and> fmlookup (trk_received (res_tracker ?r)) 0 = Some ?s"
    by (simp add: receive_segment_def new_for_receiving_def tracker_new_def segment_new_def
        add_segment_def verify_checksum_def fmap_len_def fcard.rep_eq tracker_assemble_def
        tracker_part_def wparts_def Let_def)
  then show ?thesis using duplicate_reopens [of ?s ?r ext_toy]
    by (simp add: Let_def resource_is_complete_def) (simp add: segment_new_def)
qed

end
