(* ===== verification/Fragment.thy ===== *)
theory Fragment
  imports Reassembly
begin

text \<open>
  \<open>crates/transport/src/packet_transport.rs\<close>: messages larger than the MTU are sent as fragments
  with a random 64-bit id, an index and a count, and reassembled at the receiver. \<open>None\<close> is the
  division by zero that an MTU of 35 or less causes.
\<close>

abbreviation (input) DEFAULT_MTU :: u16 where "DEFAULT_MTU \<equiv> 500"

definition max_payload :: "u16 \<Rightarrow> nat" where
  "max_payload mtu = unat mtu - 35"

record reassembly_buffer =
  rb_total :: u16
  rb_fragments :: "(u16, bytes) fmap"
  rb_data_len :: nat

record packet_transport =
  pt_inbound :: "packet list"
  pt_outbound :: "packet list"
  pt_mtu :: u16
  pt_reassembly :: "(u64, reassembly_buffer) fmap"

definition pt_with_mtu :: "u16 \<Rightarrow> packet_transport" where
  "pt_with_mtu mtu = \<lparr> pt_inbound = [], pt_outbound = [], pt_mtu = mtu, pt_reassembly = fmempty \<rparr>"

definition pt_new :: packet_transport where
  "pt_new = pt_with_mtu DEFAULT_MTU"

definition fragment_packet :: "rns_address \<Rightarrow> u64 \<Rightarrow> u16 \<Rightarrow> nat \<Rightarrow> bytes \<Rightarrow> packet" where
  "fragment_packet destination fragment_id total_fragments i chunk =
     (new_data destination
        (u64_be fragment_id @ u16_be (of_nat i) @ u16_be total_fragments @ chunk))
       \<lparr>pkt_context := RESOURCE\<rparr>"

definition pt_send_packet ::
  "u64 \<Rightarrow> rns_address \<Rightarrow> bytes \<Rightarrow> packet_transport \<Rightarrow> (packet_transport \<times> packet list) option" where
  "pt_send_packet fragment_id destination data t =
     (let mp = max_payload (pt_mtu t)
      in if length data \<le> mp then
           let packet = new_data destination data
           in Some (t\<lparr>pt_outbound := pt_outbound t @ [packet]\<rparr>, [packet])
         else if mp = 0 then None
         else let total_fragments = of_nat ((length data + mp - 1) div mp);
                  packets = map (\<lambda>(i, chunk). fragment_packet destination fragment_id total_fragments i chunk)
                    (enumerate 0 (chunks mp data))
              in Some (t\<lparr>pt_outbound := pt_outbound t @ packets\<rparr>, packets))"

text \<open>The reassembly loop: take the fragments out one by one; a missing one ends it.\<close>

fun frag_drain :: "nat list \<Rightarrow> (u16, bytes) fmap \<Rightarrow> bytes \<Rightarrow> (u16, bytes) fmap \<times> (nat + bytes)" where
  "frag_drain [] m assembled = (m, Inr assembled)"
| "frag_drain (i # is) m assembled = (case fmlookup m (of_nat i) of
       Some data \<Rightarrow> frag_drain is (fmdrop (of_nat i) m) (assembled @ data)
     | None \<Rightarrow> (m, Inl i))"

definition reassemble_fragment ::
  "packet \<Rightarrow> packet_transport \<Rightarrow> packet_transport \<times> (TransportError + bytes option)" where
  "reassemble_fragment packet t =
     (let d = pkt_data packet
      in if length d < 12 then (t, Inl (InvalidChunkSize (length d)))
         else
           let fragment_id = u64_of_be (slice 0 8 d); fragment_index = u16_of_be (slice 8 10 d);
               total_fragments = u16_of_be (slice 10 12 d); chunk = drop 12 d;
               buf = (case fmlookup (pt_reassembly t) fragment_id of
                   Some b \<Rightarrow> b
                 | None \<Rightarrow> \<lparr> rb_total = total_fragments, rb_fragments = fmempty, rb_data_len = 0 \<rparr>);
               store = (\<lambda>b. t\<lparr>pt_reassembly := fmupd fragment_id b (pt_reassembly t)\<rparr>)
           in if rb_total buf \<noteq> total_fragments
              then (store buf, Inl (TOther ''fragment total mismatch''))
              else
                let buf = buf\<lparr>rb_data_len := rb_data_len buf + length chunk,
                      rb_fragments := fmupd fragment_index chunk (rb_fragments buf)\<rparr>
                in if fmap_len (rb_fragments buf) = unat (rb_total buf) then
                     (case frag_drain [0..<unat (rb_total buf)] (rb_fragments buf) [] of
                        (m, Inr assembled) \<Rightarrow>
                          (t\<lparr>pt_reassembly := fmdrop fragment_id (pt_reassembly t)\<rparr>, Inr (Some assembled))
                      | (m, Inl i) \<Rightarrow>
                          (store (buf\<lparr>rb_fragments := m\<rparr>),
                           Inl (ResourceSegmentOrder (of_nat i) (2 ^ 32 - 1))))
                   else (store buf, Inr None))"

definition pt_recv_packet ::
  "packet \<Rightarrow> packet_transport \<Rightarrow> packet_transport \<times> (TransportError + bytes option)" where
  "pt_recv_packet packet t =
     (if pkt_context packet = RESOURCE then reassemble_fragment packet t
      else (t\<lparr>pt_inbound := pt_inbound t @ [packet]\<rparr>, Inr (Some (pkt_data packet))))"

definition pt_drain :: "packet_transport \<Rightarrow> packet_transport \<times> bytes list" where
  "pt_drain t = (t\<lparr>pt_inbound := []\<rparr>, map pkt_data (pt_inbound t))"

definition pt_clear :: "packet_transport \<Rightarrow> packet_transport" where
  "pt_clear t = t\<lparr>pt_inbound := [], pt_outbound := [], pt_reassembly := fmempty\<rparr>"

section \<open>Sizes\<close>

text \<open>C33. Fragmentation respects the MTU: for every destination, every packet that \<open>send_packet\<close>
  returns is well formed and its wire encoding is shorter than the MTU, except that an MTU below
  the header size still allows an empty message.\<close>

theorem fragments_fit_mtu:
  assumes "pt_send_packet fid dst data t = Some (t', ps)" and "length dst = 16" "p \<in> set ps"
    and "35 \<le> unat (pt_mtu t)"
  shows "packet_wf p \<and> length (packet_to_bytes p) \<le> unat (pt_mtu t) - 4"
proof -
  have wf: "packet_wf (new_data dst d)" "packet_wf (fragment_packet dst f n i d)" for d f n i
    using assms(2) by (simp_all add: constructors_wf fragment_packet_def packet_wf_def new_data_def)
  have len: "length (packet_to_bytes (new_data dst d)) = 19 + length d"
    "length (packet_to_bytes (fragment_packet dst f n i d)) = 31 + length d" for d f n i
    using packet_length [OF wf(1)] packet_length [OF wf(2)]
    by (simp_all add: new_data_def fragment_packet_def)
  show ?thesis
  proof (cases "length data \<le> max_payload (pt_mtu t)")
    case True
    with assms(1,3,4) wf len show ?thesis
      by (auto simp: pt_send_packet_def max_payload_def Let_def)
  next
    case False
    with assms(1,3) obtain i c n where p: "p = fragment_packet dst fid n i c"
      "c \<in> set (chunks (max_payload (pt_mtu t)) data)"
      by (auto simp: pt_send_packet_def Let_def enumerate_eq_zip split: if_splits
          dest!: set_zip_rightD)
    then have "length c \<le> unat (pt_mtu t) - 35" using chunks_bounds by (fastforce simp: max_payload_def)
    with p wf len assms(4) show ?thesis by simp
  qed
qed

theorem fragments_fit_mtu_witness:
  "\<exists>t' ps. pt_send_packet 7 (replicate 16 1) (replicate 1000 2) pt_new = Some (t', ps) \<and>
     (\<forall>p \<in> set ps. packet_wf p \<and> length (packet_to_bytes p) \<le> unat (pt_mtu pt_new) - 4)"
proof -
  obtain t' ps where s: "pt_send_packet 7 (replicate 16 1) (replicate 1000 2) pt_new = Some (t', ps)"
    by (simp add: pt_send_packet_def pt_new_def pt_with_mtu_def max_payload_def Let_def)
  moreover have "35 \<le> unat (pt_mtu pt_new)" by (simp add: pt_new_def pt_with_mtu_def)
  ultimately show ?thesis using fragments_fit_mtu [OF s] by auto
qed

section \<open>Reassembly\<close>

definition frag_part :: "u64 \<Rightarrow> packet_transport \<Rightarrow> nat \<Rightarrow> bytes option" where
  "frag_part fid t = (case fmlookup (pt_reassembly t) fid of
       None \<Rightarrow> Map.empty | Some b \<Rightarrow> wparts (rb_fragments b))"

definition frag_waits :: "u64 \<Rightarrow> bytes list \<Rightarrow> packet_transport \<Rightarrow> bool" where
  "frag_waits fid cs t \<longleftrightarrow> length cs < 65536 \<and>
     (\<forall>b. fmlookup (pt_reassembly t) fid = Some b \<longrightarrow> rb_total b = of_nat (length cs))"

definition frag_add :: "rns_address \<Rightarrow> u64 \<Rightarrow> bytes list \<Rightarrow> nat \<Rightarrow> packet_transport \<Rightarrow>
    packet_transport \<times> (TransportError + bytes option)" where
  "frag_add dst fid cs i = pt_recv_packet (fragment_packet dst fid (of_nat (length cs)) i (cs ! i))"

definition frag_done :: "u64 \<Rightarrow> bytes list \<Rightarrow> packet_transport \<times> (TransportError + bytes option) \<Rightarrow> bool" where
  "frag_done fid cs tr \<longleftrightarrow> snd tr = Inr (Some (concat cs)) \<and> fmlookup (pt_reassembly (fst tr)) fid = None"

lemma fragment_fields:
  "pkt_context (fragment_packet dst fid n i c) = RESOURCE"
  "pkt_data (fragment_packet dst fid n i c) = u64_be fid @ u16_be (of_nat i) @ u16_be n @ c"
  by (simp_all add: fragment_packet_def new_data_def)

lemma fragment_header:
  fixes j n :: u16 and fid :: u64 and c :: bytes
  defines "d \<equiv> u64_be fid @ u16_be j @ u16_be n @ c"
  shows "\<not> length d < 12" "u64_of_be (slice 0 8 d) = fid" "u16_of_be (slice 8 10 d) = j"
    "u16_of_be (slice 10 12 d) = n" "drop 12 d = c"
  by (simp_all add: d_def)

lemma frag_drain_all:
  "distinct is \<Longrightarrow> \<forall>i \<in> set is. i < 65536 \<and> wparts m i = Some (g i) \<Longrightarrow>
     \<exists>m'. frag_drain is m acc = (m', Inr (acc @ concat (map g is)))"
proof (induction "is" arbitrary: m acc)
  case (Cons i "is")
  have "(of_nat i :: u16) \<noteq> of_nat j" if "j \<in> set is" for j
    using that Cons.prems by (metis distinct.simps(2) list.set_intros unat_of_nat_u16)
  then have "\<forall>j \<in> set is. j < 65536 \<and> wparts (fmdrop (of_nat i) m) j = Some (g j)"
    using Cons.prems by (simp add: wparts_def) metis
  moreover have "fmlookup m (of_nat i) = Some (g i)" using Cons.prems by (auto simp: wparts_def)
  ultimately show ?case
    using Cons.IH [of "fmdrop (of_nat i) m" "acc @ g i"] Cons.prems(1) by simp
qed simp

lemma frag_step:
  fixes t dst
  assumes w: "frag_waits fid cs t" and i: "i < length cs"
  defines "b \<equiv> (case fmlookup (pt_reassembly t) fid of Some b \<Rightarrow> b
     | None \<Rightarrow> \<lparr> rb_total = of_nat (length cs), rb_fragments = fmempty, rb_data_len = 0 \<rparr>)"
  defines "b1 \<equiv> b\<lparr>rb_data_len := rb_data_len b + length (cs ! i),
     rb_fragments := fmupd (of_nat i) (cs ! i) (rb_fragments b)\<rparr>"
  shows "frag_add dst fid cs i t =
      (if fmap_len (rb_fragments b1) = length cs then
         (case frag_drain [0..<length cs] (rb_fragments b1) [] of
            (m, Inr x) \<Rightarrow> (t\<lparr>pt_reassembly := fmdrop fid (pt_reassembly t)\<rparr>, Inr (Some x))
          | (m, Inl j) \<Rightarrow> (t\<lparr>pt_reassembly := fmupd fid (b1\<lparr>rb_fragments := m\<rparr>) (pt_reassembly t)\<rparr>,
              Inl (ResourceSegmentOrder (of_nat j) (2 ^ 32 - 1))))
       else (t\<lparr>pt_reassembly := fmupd fid b1 (pt_reassembly t)\<rparr>, Inr None))"
    and "wparts (rb_fragments b1) = (frag_part fid t)(i \<mapsto> cs ! i)"
    and "rb_total b1 = of_nat (length cs)"
proof -
  have u: "unat (of_nat (length cs) :: u16) = length cs" and ib: "i < 65536"
    using w i by (simp_all add: frag_waits_def unat_of_nat_u16)
  have tot: "rb_total b = of_nat (length cs)"
    using w by (auto simp: b_def frag_waits_def split: option.splits)
  show t1: "rb_total b1 = of_nat (length cs)" using tot by (simp add: b1_def)
  have "wparts (rb_fragments b) = frag_part fid t"
    by (auto simp: b_def frag_part_def wparts_def split: option.splits)
  then show "wparts (rb_fragments b1) = (frag_part fid t)(i \<mapsto> cs ! i)"
    using ib wparts_upd [of i "cs ! i" "rb_fragments b"] by (simp add: b1_def)
  show "frag_add dst fid cs i t =
      (if fmap_len (rb_fragments b1) = length cs then
         (case frag_drain [0..<length cs] (rb_fragments b1) [] of
            (m, Inr x) \<Rightarrow> (t\<lparr>pt_reassembly := fmdrop fid (pt_reassembly t)\<rparr>, Inr (Some x))
          | (m, Inl j) \<Rightarrow> (t\<lparr>pt_reassembly := fmupd fid (b1\<lparr>rb_fragments := m\<rparr>) (pt_reassembly t)\<rparr>,
              Inl (ResourceSegmentOrder (of_nat j) (2 ^ 32 - 1))))
       else (t\<lparr>pt_reassembly := fmupd fid b1 (pt_reassembly t)\<rparr>, Inr None))"
    unfolding frag_add_def pt_recv_packet_def reassemble_fragment_def fragment_fields
      fragment_header Let_def b_def [symmetric] b1_def [symmetric]
    by (simp only: tot t1 u simp_thms if_True if_False fragment_header) simp
qed

interpretation frag_collector: collector "frag_waits fid cs" "length cs" "nth cs" "frag_part fid"
  "frag_add dst fid cs" "Inr None" "frag_done fid cs" for dst fid cs
proof unfold_locales
  fix t i
  assume a: "frag_waits fid cs t" "i < length cs" "frag_part fid t i = None"
  obtain b1 where b1: "frag_add dst fid cs i t =
      (if fmap_len (rb_fragments b1) = length cs then
         (case frag_drain [0..<length cs] (rb_fragments b1) [] of
            (m, Inr x) \<Rightarrow> (t\<lparr>pt_reassembly := fmdrop fid (pt_reassembly t)\<rparr>, Inr (Some x))
          | (m, Inl j) \<Rightarrow> (t\<lparr>pt_reassembly := fmupd fid (b1\<lparr>rb_fragments := m\<rparr>) (pt_reassembly t)\<rparr>,
              Inl (ResourceSegmentOrder (of_nat j) (2 ^ 32 - 1))))
       else (t\<lparr>pt_reassembly := fmupd fid b1 (pt_reassembly t)\<rparr>, Inr None))"
    "wparts (rb_fragments b1) = (frag_part fid t)(i \<mapsto> cs ! i)" "rb_total b1 = of_nat (length cs)"
    using frag_step(1) [OF a(1,2), of dst] frag_step(2,3) [OF a(1,2)] by blast
  have fin: "finite (dom (frag_part fid t))"
    by (simp add: frag_part_def dom_wparts split: option.splits)
  have len: "fmap_len (rb_fragments b1) = Suc (card (dom (frag_part fid t)))"
    using card_wparts [of "rb_fragments b1"] b1(2) fin a(3) by (simp add: domIff)
  {
    assume "Suc (card (dom (frag_part fid t))) < length cs"
    then show "\<exists>t'. frag_add dst fid cs i t = (t', Inr None) \<and> frag_waits fid cs t' \<and>
        frag_part fid t' = (frag_part fid t)(i \<mapsto> cs ! i)"
      using b1 len a(1) by (simp add: frag_waits_def frag_part_def)
  next
    assume c: "Suc (card (dom (frag_part fid t))) = length cs"
      and j: "\<And>j. j < length cs \<Longrightarrow> j \<noteq> i \<Longrightarrow> frag_part fid t j = Some (cs ! j)"
    have "\<forall>j \<in> set [0..<length cs]. j < 65536 \<and> wparts (rb_fragments b1) j = Some (cs ! j)"
      using a(1,2) j b1(2) by (auto simp: frag_waits_def)
    from frag_drain_all [OF distinct_upt this, of "[]"] show "frag_done fid cs (frag_add dst fid cs i t)"
      using b1(1) len c by (auto simp: frag_done_def map_nth)
  }
qed

lemma send_fragments:
  assumes "pt_send_packet fid dst data t = Some (t', ps)" "max_payload (pt_mtu t) < length data"
  defines "cs \<equiv> chunks (max_payload (pt_mtu t)) data"
  shows "concat cs = data \<and> cs \<noteq> [] \<and>
    ps = map (\<lambda>i. fragment_packet dst fid (of_nat (length cs)) i (cs ! i)) [0..<length cs]"
proof -
  have n: "0 < max_payload (pt_mtu t)" using assms(1,2) by (auto simp: pt_send_packet_def Let_def split: if_splits)
  then have c: "concat cs = data" by (simp add: cs_def)
  moreover have "cs \<noteq> []" using c assms(2) by auto
  moreover have "enumerate 0 cs = map (\<lambda>i. (i, cs ! i)) [0..<length cs]"
    by (intro nth_equalityI) (auto simp: nth_enumerate_eq)
  ultimately show ?thesis using assms(1,2) n
    by (auto simp: pt_send_packet_def Let_def cs_def length_chunks comp_def split: if_splits)
qed

text \<open>C8. Fragmentation and reassembly are inverse: if a message over the MTU is sent as fewer than
  65536 fragments and a receiver with no fragments of that id gets each of them once, in any
  order, it reports nothing until the last one and then exactly the message, and forgets the
  id.\<close>

theorem fragment_roundtrip:
  assumes "pt_send_packet fid dst data t = Some (t', ps)" "max_payload (pt_mtu t) < length data"
    and "length ps < 65536" "distinct is" "set is = {..<length ps}"
    and "fmlookup (pt_reassembly u) fid = None"
  shows "\<exists>u'. run_all (\<lambda>i. pt_recv_packet (ps ! i)) is u =
      (u', replicate (length ps - 1) (Inr None) @ [Inr (Some data)]) \<and>
    fmlookup (pt_reassembly u') fid = None"
proof -
  let ?cs = "chunks (max_payload (pt_mtu t)) data"
  note s = send_fragments [OF assms(1,2)]
  have len: "length ps = length ?cs" using s by simp
  have run: "run_all (\<lambda>i. pt_recv_packet (ps ! i)) is u = run_all (frag_add dst fid ?cs) is u"
    using s assms(5) by (intro run_all_cong) (simp add: frag_add_def)
  have "\<exists>u' x. run_all (frag_add dst fid ?cs) is u =
      (u', replicate (length ?cs - 1) (Inr None) @ [x]) \<and> frag_done fid ?cs (u', x)"
    using s assms(3-6) len
    by (intro frag_collector.collect) (auto simp: frag_waits_def frag_part_def)
  then show ?thesis using s unfolding run len by (auto simp: frag_done_def)
qed

theorem fragment_roundtrip_witness:
  "\<exists>t' ps u'. pt_send_packet 7 (replicate 16 1) [1, 2, 3] (pt_with_mtu 37) = Some (t', ps) \<and>
     run_all (\<lambda>i. pt_recv_packet (ps ! i)) [1, 0] pt_new = (u', [Inr None, Inr (Some [1, 2, 3])])"
proof -
  obtain t' ps where s: "pt_send_packet 7 (replicate 16 1) [1, 2, 3] (pt_with_mtu 37) = Some (t', ps)"
    by (simp add: pt_send_packet_def pt_with_mtu_def max_payload_def Let_def)
  then have l: "length ps = 2"
    by (auto simp: pt_send_packet_def pt_with_mtu_def max_payload_def Let_def length_chunks)
  then have "set [1, 0] = {..<length ps}" by auto
  with fragment_roundtrip [OF s, of "[1, 0]" pt_new] l s show ?thesis
    by (auto simp: pt_new_def pt_with_mtu_def max_payload_def)
qed

end
