(* ===== verification/Suspendable.thy ===== *)
theory Suspendable
  imports Link
begin

text \<open>
  \<open>crates/transport/src/suspendable.rs\<close>: links that survive a disconnection. A suspended link keeps
  its key and holds outgoing messages; with a storage path its session is written to a file. The
  file is the field \<open>sl_file\<close> (its contents, if it exists); errors of the file system are
  arguments. The \<open>bincode\<close> encoding of a session is a pair of functions \<open>ser\<close>, \<open>de\<close> that the
  operations take.
\<close>

section \<open>State\<close>

datatype sl_state = SlClosed | SlHandshaking | SlActive | SlSuspended

record session =
  ss_session_id :: bytes
  ss_remote_rns :: bytes
  ss_local_rns :: bytes
  ss_remote_identity_key :: bytes
  ss_remote_encryption_key :: bytes
  ss_derived_key_bytes :: bytes
  ss_held_messages :: "bytes list"
  ss_suspended_at :: u64
  ss_resume_count :: u32

record slink =
  sl_local :: destination
  sl_remote_rns :: rns_address
  sl_remote_identity_key :: bytes
  sl_remote_encryption_key :: bytes
  sl_session_id :: bytes
  sl_derived_key :: "derived_key option"
  sl_transport_id :: bytes
  sl_state :: sl_state
  sl_config :: link_config
  sl_inbound :: "bytes list"
  sl_held_outbound :: "bytes list"
  sl_storage_path :: "string option"
  sl_file :: "bytes option"

definition sl_derive_transport_id :: "ext \<Rightarrow> destination \<Rightarrow> rns_address \<Rightarrow> bytes" where
  "sl_derive_transport_id E local remote =
     map (\<lambda>i. keys_rns_address E (dst_keys local) ! i XOR remote ! i) [0..<16]"

definition derive_session_id :: "ext \<Rightarrow> destination \<Rightarrow> rns_address \<Rightarrow> bytes" where
  "derive_session_id E local remote =
     take 16 (sha256 E (keys_rns_address E (dst_keys local) @ remote))"

definition sl_with_config_and_storage ::
  "ext \<Rightarrow> destination \<Rightarrow> rns_address \<Rightarrow> bytes \<Rightarrow> bytes \<Rightarrow> link_config \<Rightarrow> string option \<Rightarrow>
     bytes option \<Rightarrow> slink" where
  "sl_with_config_and_storage E local remote_rns remote_identity_key remote_encryption_key config
       storage_path file =
     \<lparr> sl_local = local, sl_remote_rns = remote_rns,
       sl_remote_identity_key = remote_identity_key,
       sl_remote_encryption_key = remote_encryption_key,
       sl_session_id = derive_session_id E local remote_rns, sl_derived_key = None,
       sl_transport_id = sl_derive_transport_id E local remote_rns, sl_state = SlClosed,
       sl_config = config, sl_inbound = [], sl_held_outbound = [],
       sl_storage_path = storage_path, sl_file = file \<rparr>"

definition sl_new :: "ext \<Rightarrow> destination \<Rightarrow> rns_address \<Rightarrow> bytes \<Rightarrow> bytes \<Rightarrow> slink" where
  "sl_new E local remote_rns remote_identity_key remote_encryption_key =
     sl_with_config_and_storage E local remote_rns remote_identity_key remote_encryption_key
       link_config_default None None"

text \<open>\<open>readable\<close> says whether a file that exists can be read.\<close>

definition sl_resume_count :: "bool \<Rightarrow> (bytes \<Rightarrow> string + session) \<Rightarrow> slink \<Rightarrow> u32" where
  "sl_resume_count readable de l = (case sl_storage_path l of
       None \<Rightarrow> 0
     | Some _ \<Rightarrow> (case sl_file l of
           None \<Rightarrow> 0
         | Some data \<Rightarrow> if readable then (case de data of Inl _ \<Rightarrow> 0 | Inr s \<Rightarrow> ss_resume_count s) else 0))"

section \<open>Lifecycle\<close>

definition sl_packet :: "slink \<Rightarrow> u8 \<Rightarrow> u8 \<Rightarrow> u8 \<Rightarrow> bytes \<Rightarrow> packet" where
  "sl_packet l flag ptype ctx payload =
     \<lparr> pkt_header_type = HEADER_2, pkt_context_flag = flag,
       pkt_transport_type = TRANSPORT_UNICAST, pkt_destination_type = DEST_LINK,
       pkt_packet_type = ptype, pkt_hops = MAX_HOPS, pkt_destination_hash = sl_remote_rns l,
       pkt_transport_id = Some (sl_transport_id l), pkt_context = ctx, pkt_data = payload \<rparr>"

definition sl_establish :: "ext \<Rightarrow> slink \<Rightarrow> slink \<times> (TransportError + packet)" where
  "sl_establish E l =
     (if sl_state l = SlActive then (l, Inl LinkAlreadyEstablished)
      else let proof_bytes = proof_to_bytes (generate_proof E (dst_keys (sl_local l)) (sl_transport_id l))
           in (l\<lparr>sl_state := SlHandshaking\<rparr>, Inr (sl_packet l FLAG_SET PROOF LINKPROOF proof_bytes)))"

definition verify_proof_external :: "ext \<Rightarrow> bytes \<Rightarrow> bytes \<Rightarrow> lproof \<Rightarrow> TransportError + unit" where
  "verify_proof_external E identity_key transport_id p =
     (if sha256 E transport_id \<noteq> prf_packet_hash p then Inl (TProofError ''packet hash mismatch'')
      else if \<not> ed_key_valid E identity_key then Inl SignatureVerification
      else if ed_verify E identity_key transport_id (prf_signature p) then Inr ()
      else Inl SignatureVerification)"

definition sl_session_key :: "ext \<Rightarrow> slink \<Rightarrow> derived_key" where
  "sl_session_key E l =
     derived_from_static E (key_encryption (dst_keys (sl_local l))) (sl_remote_encryption_key l)"

definition sl_complete_handshake :: "ext \<Rightarrow> bytes \<Rightarrow> slink \<Rightarrow> slink \<times> (TransportError + unit)" where
  "sl_complete_handshake E proof_bytes l = (case sl_state l of
       SlHandshaking \<Rightarrow> (case proof_from_bytes proof_bytes of
           Inl e \<Rightarrow> (l, Inl (TProofError (proof_error_text e)))
         | Inr p \<Rightarrow> (case verify_proof_external E (sl_remote_identity_key l) (sl_transport_id l) p of
               Inl _ \<Rightarrow> (l, Inl SignatureVerification)
             | Inr _ \<Rightarrow> (l\<lparr>sl_derived_key := Some (sl_session_key E l), sl_state := SlActive\<rparr>, Inr ())))
     | SlClosed \<Rightarrow> (l, Inl LinkNotEstablished)
     | SlActive \<Rightarrow> (l, Inl LinkAlreadyEstablished)
     | SlSuspended \<Rightarrow> (l, Inl (TOther ''call resume() first to re-enter Handshaking'')))"

definition sl_session :: "ext \<Rightarrow> bool \<Rightarrow> (bytes \<Rightarrow> string + session) \<Rightarrow> u64 \<Rightarrow> slink \<Rightarrow> session" where
  "sl_session E readable de now l =
     \<lparr> ss_session_id = sl_session_id l, ss_remote_rns = sl_remote_rns l,
       ss_local_rns = keys_rns_address E (dst_keys (sl_local l)),
       ss_remote_identity_key = sl_remote_identity_key l,
       ss_remote_encryption_key = sl_remote_encryption_key l,
       ss_derived_key_bytes = (case sl_derived_key l of Some dk \<Rightarrow> dk | None \<Rightarrow> []),
       ss_held_messages = sl_held_outbound l, ss_suspended_at = now,
       ss_resume_count = sl_resume_count readable de l + 1 \<rparr>"

text \<open>\<open>ser\<close> and \<open>write_err\<close> may fail: with the text of a serialisation error, or of a write
  error.\<close>

definition sl_suspend ::
  "ext \<Rightarrow> (session \<Rightarrow> string + bytes) \<Rightarrow> bool \<Rightarrow> (bytes \<Rightarrow> string + session) \<Rightarrow> u64 \<Rightarrow> string option \<Rightarrow>
     slink \<Rightarrow> slink \<times> (TransportError + unit)" where
  "sl_suspend E ser readable de now write_err l = (case sl_state l of
       SlActive \<Rightarrow>
         let session = sl_session E readable de now l
         in (case sl_storage_path l of
               None \<Rightarrow> (l\<lparr>sl_state := SlSuspended\<rparr>, Inr ())
             | Some _ \<Rightarrow> (case ser session of
                   Inl e \<Rightarrow> (l, Inl (TOther (''session serialize: '' @ e)))
                 | Inr data \<Rightarrow> (case write_err of
                       Some e \<Rightarrow> (l, Inl (TOther (''session write: '' @ e)))
                     | None \<Rightarrow> (l\<lparr>sl_file := Some data, sl_state := SlSuspended\<rparr>, Inr ()))))
     | SlSuspended \<Rightarrow> (l, Inl (TOther ''link is already suspended''))
     | _ \<Rightarrow> (l, Inl LinkNotEstablished))"

definition sl_resume ::
  "ext \<Rightarrow> (bytes \<Rightarrow> string + session) \<Rightarrow> string option \<Rightarrow> slink \<Rightarrow> slink \<times> (TransportError + unit)" where
  "sl_resume E de read_err l =
     (if sl_state l \<noteq> SlSuspended then (l, Inl (TOther ''link must be Suspended to resume''))
      else
        let finish = (\<lambda>l. (l\<lparr>sl_transport_id := sl_derive_transport_id E (sl_local l) (sl_remote_rns l),
                             sl_state := SlHandshaking\<rparr>, Inr ()))
        in (case sl_storage_path l of
              None \<Rightarrow> finish l
            | Some _ \<Rightarrow> (case sl_file l of
                  None \<Rightarrow> finish l
                | Some data \<Rightarrow> (case read_err of
                      Some e \<Rightarrow> (l, Inl (TOther (''session read: '' @ e)))
                    | None \<Rightarrow> (case de data of
                          Inl e \<Rightarrow> (l, Inl (TOther (''session deserialize: '' @ e)))
                        | Inr session \<Rightarrow>
                            let l1 = l\<lparr>sl_held_outbound := ss_held_messages session\<rparr>;
                                l2 = (if sl_derived_key l1 = None \<and> ss_derived_key_bytes session \<noteq> []
                                      then l1\<lparr>sl_derived_key := Some (sl_session_key E l1)\<rparr> else l1)
                            in finish l2)))))"

definition sl_handle_disconnect ::
  "ext \<Rightarrow> (session \<Rightarrow> string + bytes) \<Rightarrow> bool \<Rightarrow> (bytes \<Rightarrow> string + session) \<Rightarrow> u64 \<Rightarrow> string option \<Rightarrow>
     slink \<Rightarrow> slink \<times> (TransportError + unit)" where
  "sl_handle_disconnect E ser readable de now write_err l =
     (if sl_state l = SlActive \<or> sl_state l = SlHandshaking then sl_suspend E ser readable de now write_err l
      else (l, Inr ()))"

text \<open>\<open>remove_file\<close> may fail; its result is ignored.\<close>

definition sl_close :: "bool \<Rightarrow> slink \<Rightarrow> slink \<times> (TransportError + unit)" where
  "sl_close removed l =
     (l\<lparr>sl_state := SlClosed, sl_inbound := [], sl_held_outbound := [], sl_derived_key := None,
        sl_file := (if sl_storage_path l \<noteq> None \<and> removed then None else sl_file l)\<rparr>, Inr ())"

section \<open>Data transfer\<close>

definition sl_send ::
  "ext \<Rightarrow> bytes \<Rightarrow> bytes \<Rightarrow> bytes \<Rightarrow> slink \<Rightarrow> slink \<times> (TransportError + packet option)" where
  "sl_send E ephemeral iv data l = (case sl_state l of
       SlActive \<Rightarrow>
         let payload = encrypt_for E ephemeral iv (sl_remote_encryption_key l) (sl_remote_rns l) data
         in if unat (lc_mtu (sl_config l)) < length payload
            then (l, Inl (InvalidChunkSize (length payload)))
            else (l, Inr (Some (sl_packet l FLAG_UNSET DATA NONE payload)))
     | SlClosed \<Rightarrow> (l, Inl LinkNotEstablished)
     | _ \<Rightarrow> (l\<lparr>sl_held_outbound := sl_held_outbound l @ [data]\<rparr>, Inr None))"

fun sl_send_list ::
  "ext \<Rightarrow> (bytes \<times> bytes) list \<Rightarrow> bytes list \<Rightarrow> slink \<Rightarrow> packet list \<Rightarrow>
     slink \<times> (TransportError + packet list)" where
  "sl_send_list E rnd [] l packets = (l, Inr packets)"
| "sl_send_list E rnd (data # held) l packets =
     (let (eph, iv) = (case rnd of [] \<Rightarrow> ([], []) | r # _ \<Rightarrow> r)
      in case sl_send E eph iv data l of
           (l', Inl e) \<Rightarrow> (l', Inl e)
         | (l', Inr (Some pkt)) \<Rightarrow> sl_send_list E (tl rnd) held l' (packets @ [pkt])
         | (l', Inr None) \<Rightarrow> sl_send_list E (tl rnd) held l' packets)"

text \<open>\<open>rnd\<close> holds the ephemeral secret and the vector drawn for each message.\<close>

definition sl_replay_held ::
  "ext \<Rightarrow> (bytes \<times> bytes) list \<Rightarrow> slink \<Rightarrow> slink \<times> (TransportError + packet list)" where
  "sl_replay_held E rnd l =
     (if sl_state l \<noteq> SlActive then (l, Inl LinkNotEstablished)
      else sl_send_list E rnd (sl_held_outbound l) (l\<lparr>sl_held_outbound := []\<rparr>) [])"

definition sl_deliver :: "ext \<Rightarrow> packet \<Rightarrow> slink \<Rightarrow> slink \<times> (TransportError + unit)" where
  "sl_deliver E packet l =
     (if sl_state l \<noteq> SlActive then (l, Inl LinkNotEstablished)
      else if pkt_transport_id packet \<noteq> Some (sl_transport_id l)
      then (l, Inl (TOther ''transport ID mismatch''))
      else case decrypt_from E (dst_keys (sl_local l)) (pkt_data packet) of
          Inl e \<Rightarrow> (l, Inl (TOther (''decryption: '' @ crypto_error_text e)))
        | Inr data \<Rightarrow> (l\<lparr>sl_inbound := sl_inbound l @ [data]\<rparr>, Inr ()))"

definition sl_recv :: "slink \<Rightarrow> slink \<times> bytes option" where
  "sl_recv l = (case sl_inbound l of
       [] \<Rightarrow> (l, None) | m # ms \<Rightarrow> (l\<lparr>sl_inbound := ms\<rparr>, Some m))"

section \<open>The two ends\<close>

text \<open>The two ends of a suspendable link agree: each computes the same transport id from its own
  address and the other's, and the same session key from its secret and the other's public
  key.\<close>

theorem sl_ends_agree:
  assumes "dh_ok E" "keys_wf (dst_keys d)" "keys_wf (dst_keys e)"
  shows "sl_transport_id (sl_new E d (keys_rns_address E (dst_keys e)) ik (encryption_key E (dst_keys e))) =
      sl_transport_id (sl_new E e (keys_rns_address E (dst_keys d)) ik' (encryption_key E (dst_keys d))) \<and>
    sl_session_key E (sl_new E d (keys_rns_address E (dst_keys e)) ik (encryption_key E (dst_keys e))) =
      sl_session_key E (sl_new E e (keys_rns_address E (dst_keys d)) ik' (encryption_key E (dst_keys d)))"
  using assms dh_agree [of E "key_encryption (dst_keys d)" "key_encryption (dst_keys e)"]
  by (simp add: sl_new_def sl_with_config_and_storage_def sl_derive_transport_id_def
      sl_session_key_def derived_from_static_def encryption_key_def keys_wf_def xor.commute)

theorem sl_ends_agree_witness:
  "sl_session_key ext_toy (sl_new ext_toy (demo_dest 1) (keys_rns_address ext_toy (demo_keys 3)) []
      (encryption_key ext_toy (demo_keys 3))) =
   sl_session_key ext_toy (sl_new ext_toy (demo_dest 3) (keys_rns_address ext_toy (demo_keys 1)) []
      (encryption_key ext_toy (demo_keys 1)))"
  using sl_ends_agree [of ext_toy "demo_dest 1" "demo_dest 3" "[]" "[]"] by simp

section \<open>Invariant\<close>

text \<open>An active or suspended link has its session key, and the transport id never changes.\<close>

definition sl_inv :: "ext \<Rightarrow> slink \<Rightarrow> bool" where
  "sl_inv E l \<longleftrightarrow> sl_transport_id l = sl_derive_transport_id E (sl_local l) (sl_remote_rns l) \<and>
     (sl_state l = SlActive \<or> sl_state l = SlSuspended \<longrightarrow>
        sl_derived_key l = Some (sl_session_key E l)) \<and>
     (sl_state l = SlClosed \<longrightarrow> sl_derived_key l = None \<and> sl_held_outbound l = [] \<and> sl_inbound l = [])"

inductive sl_step ::
  "ext \<Rightarrow> (session \<Rightarrow> string + bytes) \<Rightarrow> (bytes \<Rightarrow> string + session) \<Rightarrow> slink \<Rightarrow> slink \<Rightarrow> bool"
  for E ser de where
  establish: "sl_step E ser de l (fst (sl_establish E l))"
| complete: "sl_step E ser de l (fst (sl_complete_handshake E bs l))"
| suspend: "sl_step E ser de l (fst (sl_suspend E ser readable de now we l))"
| resume: "sl_step E ser de l (fst (sl_resume E de re l))"
| disconnect: "sl_step E ser de l (fst (sl_handle_disconnect E ser readable de now we l))"
| close: "sl_step E ser de l (fst (sl_close removed l))"
| send: "sl_step E ser de l (fst (sl_send E eph iv data l))"
| replay: "sl_step E ser de l (fst (sl_replay_held E rnd l))"
| deliver: "sl_step E ser de l (fst (sl_deliver E packet l))"
| recv: "sl_step E ser de l (fst (sl_recv l))"

inductive_cases sl_stepE: "sl_step E ser de s t"

lemma sl_session_key_cong:
  "sl_local l' = sl_local l \<Longrightarrow> sl_remote_encryption_key l' = sl_remote_encryption_key l \<Longrightarrow>
     sl_session_key E l' = sl_session_key E l"
  by (simp add: sl_session_key_def)

lemma sl_inv_suspend: "sl_inv E l \<Longrightarrow> sl_inv E (fst (sl_suspend E ser readable de now we l))"
  by (auto simp: sl_inv_def sl_suspend_def sl_session_key_def Let_def
      split: sl_state.splits option.splits sum.splits)

lemma sl_inv_resume: "sl_inv E l \<Longrightarrow> sl_inv E (fst (sl_resume E de re l))"
  by (auto simp: sl_inv_def sl_resume_def sl_session_key_def Let_def
      split: option.splits sum.splits)

lemma sl_send_active: "sl_state l = SlActive \<Longrightarrow> fst (sl_send E eph iv data l) = l"
  by (simp add: sl_send_def Let_def)

lemma sl_send_list_active: "sl_state l = SlActive \<Longrightarrow> fst (sl_send_list E rnd held l ps) = l"
proof (induction held arbitrary: rnd ps)
  case (Cons m held)
  then show ?case using sl_send_active [of l E]
    by (auto simp: Let_def split: prod.splits sum.splits option.splits list.splits)
      (metis fst_conv)+
qed simp

lemma sl_inv_replay: "sl_inv E l \<Longrightarrow> sl_inv E (fst (sl_replay_held E rnd l))"
  by (simp add: sl_replay_held_def sl_send_list_active)
    (auto simp: sl_inv_def sl_session_key_def)

lemma sl_inv_step: "sl_inv E s \<Longrightarrow> sl_step E ser de s t \<Longrightarrow> sl_inv E t"
proof (erule sl_stepE)
  assume i: "sl_inv E s"
  show "t = fst (sl_suspend E ser readable de now we s) \<Longrightarrow> sl_inv E t" for readable now we
    using i sl_inv_suspend by blast
  show "t = fst (sl_resume E de re s) \<Longrightarrow> sl_inv E t" for re using i sl_inv_resume by blast
  show "t = fst (sl_handle_disconnect E ser readable de now we s) \<Longrightarrow> sl_inv E t" for readable now we
    using i sl_inv_suspend by (auto simp: sl_handle_disconnect_def)
  show "t = fst (sl_replay_held E rnd s) \<Longrightarrow> sl_inv E t" for rnd using i sl_inv_replay by blast
qed (auto simp: sl_inv_def sl_establish_def sl_complete_handshake_def sl_close_def sl_send_def
    sl_deliver_def sl_recv_def sl_session_key_def Let_def
    split: sl_state.splits sum.splits list.splits if_splits)

interpretation sl_machine: invariant_machine
  "\<lambda>l. \<exists>d r ik ek c p f. l = sl_with_config_and_storage E d r ik ek c p f"
  "sl_step E ser de" "sl_inv E" for E ser de
proof unfold_locales
  fix l assume "\<exists>d r ik ek c p f. l = sl_with_config_and_storage E d r ik ek c p f"
  then show "sl_inv E l" by (auto simp: sl_inv_def sl_with_config_and_storage_def)
qed (rule sl_inv_step)

text \<open>C18. Suspension keeps the session: in every reachable state, an active or suspended link holds
  the session key both ends derive, whatever was suspended, resumed, written or read in between;
  a closed link holds no key and no messages.\<close>

theorem sl_reachable_inv:
  assumes "(sl_step E ser de)\<^sup>*\<^sup>* (sl_with_config_and_storage E d r ik ek c p f) l"
  shows "sl_inv E l"
  using sl_machine.reachable_inv [OF _ assms] by blast

theorem sl_reachable_inv_witness:
  "sl_inv ext_toy (fst (sl_establish ext_toy
     (sl_with_config_and_storage ext_toy (demo_dest 1) (replicate 16 0) [] [] link_config_default None None)))"
  by (rule sl_reachable_inv [where ser = "\<lambda>_. Inr []" and de = "\<lambda>_. Inl []"])
    (rule r_into_rtranclp, rule sl_step.establish)

section \<open>Held messages\<close>

definition sl_fits :: "slink \<Rightarrow> bytes \<Rightarrow> bool" where
  "sl_fits l m \<longleftrightarrow> 80 + (length m div 16 + 1) * 16 \<le> unat (lc_mtu (sl_config l))"

definition sl_peer :: "ext \<Rightarrow> keys \<Rightarrow> slink \<Rightarrow> bool" where
  "sl_peer E k l \<longleftrightarrow> keys_wf k \<and> sl_remote_encryption_key l = encryption_key E k \<and>
     sl_remote_rns l = keys_rns_address E k"

lemma length_encrypt_for:
  assumes "crypto_ok E" "length eph = 32" "length iv = 16"
  shows "length (encrypt_for E eph iv pk h m) = 80 + (length m div 16 + 1) * 16"
  using assms by (simp add: crypto_ok_def encrypt_for_def Let_def fernet_length dh_lengths)

lemma sl_send_ok:
  assumes E: "crypto_ok E" and l: "sl_state l = SlActive" "sl_peer E k l" "sl_fits l m"
    and r: "length eph = 32" "length iv = 16"
  shows "\<exists>p. sl_send E eph iv m l = (l, Inr (Some p)) \<and> decrypt_from E k (pkt_data p) = Inr m"
  using l length_encrypt_for [OF E r] decrypt_encrypt_for [OF E _ r, of k]
  by (simp add: sl_send_def sl_peer_def sl_fits_def sl_packet_def Let_def)

lemma sl_send_list_ok:
  assumes E: "crypto_ok E" and l: "sl_state l = SlActive" "sl_peer E k l"
    and "list_all (sl_fits l) ms" "length ms \<le> length rnd"
    and "list_all (\<lambda>(eph, iv). length eph = 32 \<and> length iv = 16) rnd"
  shows "\<exists>qs. sl_send_list E rnd ms l ps = (l, Inr (ps @ qs)) \<and>
    map (\<lambda>q. decrypt_from E k (pkt_data q)) qs = map Inr ms"
  using assms(4-)
proof (induction ms arbitrary: rnd ps)
  case (Cons m ms)
  then obtain eph iv rnd' where rnd: "rnd = (eph, iv) # rnd'" by (cases rnd) auto
  obtain p where "sl_send E eph iv m l = (l, Inr (Some p))" "decrypt_from E k (pkt_data p) = Inr m"
    using sl_send_ok [OF E l, of m eph iv] Cons.prems rnd by auto
  moreover obtain qs where "sl_send_list E rnd' ms l (ps @ [p]) = (l, Inr ((ps @ [p]) @ qs))"
    "map (\<lambda>q. decrypt_from E k (pkt_data q)) qs = map Inr ms"
    using Cons.IH [of rnd' "ps @ [p]"] Cons.prems rnd by auto
  ultimately show ?case by (auto simp: rnd intro: exI [of _ "p # qs"])
qed simp

lemma sl_hold_all:
  assumes "sl_state l = SlSuspended"
  shows "fold (\<lambda>m l. fst (sl_send E eph iv m l)) ms l = l\<lparr>sl_held_outbound := sl_held_outbound l @ ms\<rparr>"
  using assms by (induction ms arbitrary: l) (simp_all add: sl_send_def)


definition demo_slink :: "sl_state \<Rightarrow> string option \<Rightarrow> slink" where
  "demo_slink s path = (sl_with_config_and_storage ext_toy (demo_dest 1)
     (keys_rns_address ext_toy (demo_keys 3)) (identity_key_bytes ext_toy (demo_keys 3))
     (encryption_key ext_toy (demo_keys 3)) link_config_default path None)\<lparr>sl_state := s\<rparr>"

lemma demo_slink_simps [simp]:
  "sl_state (demo_slink s p) = s" "sl_storage_path (demo_slink s p) = p"
  "sl_held_outbound (demo_slink s p) = []" "sl_config (demo_slink s p) = link_config_default"
  "sl_peer ext_toy (demo_keys 3) (demo_slink s p)" "sl_file (demo_slink s p) = None"
  "sl_remote_identity_key (demo_slink s p) = identity_key_bytes ext_toy (demo_keys 3)"
  by (simp_all add: demo_slink_def sl_with_config_and_storage_def sl_peer_def)

lemma verify_external_generated:
  "sig_ok E \<Longrightarrow> keys_wf k \<Longrightarrow>
     verify_proof_external E (identity_key_bytes E k) m (generate_proof E k m) = Inr ()"
  by (simp add: verify_proof_external_def generate_proof_def keys_defs keys_wf_def sig_facts)

lemma sl_complete_ok:
  "hash_ok E \<Longrightarrow> sig_ok E \<Longrightarrow> keys_wf k \<Longrightarrow> sl_state l = SlHandshaking \<Longrightarrow>
   sl_remote_identity_key l = identity_key_bytes E k \<Longrightarrow>
     \<exists>l'. sl_complete_handshake E (proof_to_bytes (generate_proof E k (sl_transport_id l))) l = (l', Inr ())"
  by (simp add: sl_complete_handshake_def proof_dec_generated verify_external_generated)


text \<open>A stored session loses them: on a link with a storage path, resuming reloads the held
  messages from the file written when the link was suspended, so every message sent during the
  suspension is dropped.\<close>

theorem sl_resume_drops_held:
  assumes "sl_state l = SlActive" "sl_storage_path l = Some path"
    and "ser (sl_session E readable de now l) = Inr data" "de data = Inr (sl_session E readable de now l)"
  shows "sl_held_outbound
     (fst (sl_resume E de None
       (fold (\<lambda>m l. fst (sl_send E eph iv m l)) ms (fst (sl_suspend E ser readable de now None l))))) =
     sl_held_outbound l"
  using assms by (simp add: sl_suspend_def Let_def sl_hold_all sl_resume_def sl_session_def)

theorem sl_resume_drops_held_witness:
  "\<exists>ser de. sl_held_outbound
     (fst (sl_resume ext_toy de None
       (fold (\<lambda>m l. fst (sl_send ext_toy [] [] m l)) [[1], [2]]
         (fst (sl_suspend ext_toy ser True de 0 None (demo_slink SlActive (Some ''s.bin''))))))) =
     sl_held_outbound (demo_slink SlActive (Some ''s.bin''))"
proof (intro exI)
  let ?s = "sl_session ext_toy True (\<lambda>_. Inl []) 0 (demo_slink SlActive (Some ''s.bin''))"
  show "sl_held_outbound
     (fst (sl_resume ext_toy (\<lambda>_. Inr ?s) None
       (fold (\<lambda>m l. fst (sl_send ext_toy [] [] m l)) [[1], [2]]
         (fst (sl_suspend ext_toy (\<lambda>_. Inr []) True (\<lambda>_. Inr ?s) 0 None
           (demo_slink SlActive (Some ''s.bin''))))))) =
     sl_held_outbound (demo_slink SlActive (Some ''s.bin''))"
    by (rule sl_resume_drops_held [where path = "''s.bin''" and data = "[]"])
      (simp_all add: sl_session_def sl_resume_count_def)
qed

lemma sl_disconnect_handshaking:
  "sl_state l = SlHandshaking \<Longrightarrow>
     sl_handle_disconnect E ser readable de now we l = (l, Inl LinkNotEstablished)"
  by (simp add: sl_handle_disconnect_def sl_suspend_def)

lemma sl_replay_loses_rest:
  assumes "crypto_ok E" "sl_state l = SlActive" "sl_held_outbound l = m # ms" "\<not> sl_fits l m"
    and "length eph = 32" "length iv = 16"
  shows "\<exists>e l'. sl_replay_held E ((eph, iv) # rnd) l = (l', Inl e) \<and> sl_held_outbound l' = []"
  using assms length_encrypt_for [OF assms(1,5,6)]
  by (simp add: sl_replay_held_def sl_send_def sl_fits_def Let_def)

end
