(* ===== verification/Mesh_Routing.thy ===== *)
theory Mesh_Routing
  imports Address Packet
begin

text \<open>
  The mesh layer's tables: link quality and the routing table
  (\<open>crates/mesh/src/link.rs\<close>, \<open>crates/mesh/src/routing.rs\<close>, \<open>crates/mesh/src/error.rs\<close>). Floating-point
  values are 64-bit patterns. Their comparison is written out as IEEE 754 has it; their arithmetic
  is the argument \<open>farith\<close>. The table is shown to keep a best route of all those offered since the
  entry was made.
\<close>

section \<open>Floating-point comparison\<close>

definition f64_is_nan :: "f64 \<Rightarrow> bool" where
  "f64_is_nan x \<longleftrightarrow> take_bit 63 x > 0x7FF0000000000000"

text \<open>Sign and magnitude as an integer: the order of the numbers, with both zeros equal.\<close>

definition f64_key :: "f64 \<Rightarrow> int" where
  "f64_key x = (if bit x 63 then - uint (take_bit 63 x) else uint (take_bit 63 x))"

definition f64_lt :: "f64 \<Rightarrow> f64 \<Rightarrow> bool" where
  "f64_lt x y \<longleftrightarrow> \<not> f64_is_nan x \<and> \<not> f64_is_nan y \<and> f64_key x < f64_key y"

definition f64_eq :: "f64 \<Rightarrow> f64 \<Rightarrow> bool" where
  "f64_eq x y \<longleftrightarrow> \<not> f64_is_nan x \<and> \<not> f64_is_nan y \<and> f64_key x = f64_key y"

definition f64_min :: "f64 \<Rightarrow> f64 \<Rightarrow> f64" where
  "f64_min x y = (if f64_is_nan x then y else if f64_is_nan y then x else if f64_lt y x then y else x)"

definition f64_clamp :: "f64 \<Rightarrow> f64 \<Rightarrow> f64 \<Rightarrow> f64" where
  "f64_clamp lo hi x = (if f64_lt x lo then lo else if f64_lt hi x then hi else x)"

abbreviation (input) f64_0 :: f64 where "f64_0 \<equiv> 0"
abbreviation (input) f64_1 :: f64 where "f64_1 \<equiv> 0x3FF0000000000000"

record farith =
  f_add :: "f64 \<Rightarrow> f64 \<Rightarrow> f64"
  f_sub :: "f64 \<Rightarrow> f64 \<Rightarrow> f64"
  f_mul :: "f64 \<Rightarrow> f64 \<Rightarrow> f64"
  f_div :: "f64 \<Rightarrow> f64 \<Rightarrow> f64"
  f_sqrt :: "f64 \<Rightarrow> f64"

section \<open>Errors\<close>

datatype MeshError =
    MeIo string
  | MeUnknownPeer string
  | MeSerde string
  | MeTtlExpired
  | MeInvalidPacket string

definition mesh_error_text :: "MeshError \<Rightarrow> string" where
  "mesh_error_text e = (case e of
       MeIo s \<Rightarrow> ''IO error: '' @ s
     | MeUnknownPeer a \<Rightarrow> ''unknown peer: '' @ a
     | MeSerde s \<Rightarrow> ''serialization: '' @ s
     | MeTtlExpired \<Rightarrow> ''packet TTL expired''
     | MeInvalidPacket r \<Rightarrow> ''invalid packet: '' @ r)"

section \<open>Link quality\<close>

record link_quality =
  lq_rtt_us :: f64
  lq_loss :: f64
  lq_score :: f64

definition link_quality_default :: link_quality where
  "link_quality_default = \<lparr>lq_rtt_us = f64_0, lq_loss = f64_0, lq_score = f64_0\<rparr>"

definition link_quality_recompute :: "farith \<Rightarrow> link_quality \<Rightarrow> link_quality" where
  "link_quality_recompute F q =
     (let rtt_score = f64_clamp f64_0 f64_1 (f_sub F f64_1 (f_div F (lq_rtt_us q) 0x416312D000000000));
          loss_score = f_sub F f64_1 (lq_loss q)
      in q\<lparr>lq_score := f_sqrt F (f_mul F rtt_score loss_score)\<rparr>)"

record peer_info =
  pi_address :: rns_address
  pi_medium_name :: string
  pi_quality :: link_quality
  pi_last_seen :: instant

record mesh_link_config =
  mlc_heartbeat_interval :: nat
  mlc_peer_timeout :: nat
  mlc_smoothing_alpha :: f64

definition mesh_link_config_default :: mesh_link_config where
  "mesh_link_config_default = \<lparr>mlc_heartbeat_interval = from_secs 5, mlc_peer_timeout = from_secs 30,
     mlc_smoothing_alpha = 0x3FC999999999999A\<rparr>"

text \<open>The medium of the manager is only asked for its name.\<close>

record link_manager =
  lm_config :: mesh_link_config
  lm_peers :: "rns_address \<rightharpoonup> peer_info"
  lm_medium :: string

definition link_manager_new :: "string \<Rightarrow> mesh_link_config \<Rightarrow> link_manager" where
  "link_manager_new medium config = \<lparr>lm_config = config, lm_peers = Map.empty, lm_medium = medium\<rparr>"

definition record_heartbeat :: "farith \<Rightarrow> instant \<Rightarrow> link_manager \<Rightarrow> rns_address \<Rightarrow> f64 \<Rightarrow> link_manager" where
  "record_heartbeat F now m from rtt_us =
     (let peer = (case lm_peers m from of
            Some p \<Rightarrow> p
          | None \<Rightarrow> \<lparr>pi_address = from, pi_medium_name = lm_medium m,
              pi_quality = link_quality_default, pi_last_seen = now\<rparr>);
          alpha = mlc_smoothing_alpha (lm_config m);
          q = (pi_quality peer)\<lparr>lq_rtt_us :=
            f_add F (f_mul F alpha rtt_us) (f_mul F (f_sub F f64_1 alpha) (lq_rtt_us (pi_quality peer)))\<rparr>
      in m\<lparr>lm_peers := (lm_peers m)(from \<mapsto>
           peer\<lparr>pi_quality := link_quality_recompute F q, pi_last_seen := now\<rparr>)\<rparr>)"

definition lm_prune_stale :: "instant \<Rightarrow> link_manager \<Rightarrow> link_manager" where
  "lm_prune_stale now m = m\<lparr>lm_peers := (\<lambda>a. case lm_peers m a of
     Some p \<Rightarrow> if now - pi_last_seen p < mlc_peer_timeout (lm_config m) then Some p else None
   | None \<Rightarrow> None)\<rparr>"

definition quality_to :: "link_manager \<Rightarrow> rns_address \<Rightarrow> link_quality option" where
  "quality_to m a = map_option pi_quality (lm_peers m a)"

text \<open>The peers with at least a score; the hash map's order is unspecified, so this is a map.\<close>

definition peers_above :: "link_manager \<Rightarrow> f64 \<Rightarrow> rns_address \<rightharpoonup> peer_info" where
  "peers_above m min_score = (\<lambda>a. case lm_peers m a of
     Some p \<Rightarrow> if f64_lt min_score (lq_score (pi_quality p)) \<or> f64_eq min_score (lq_score (pi_quality p))
               then Some p else None
   | None \<Rightarrow> None)"

section \<open>The routing table\<close>

record route_entry =
  re_destination :: rns_address
  re_next_hop :: rns_address
  re_path_quality :: f64
  re_hop_count :: u8
  re_last_refresh :: instant

record mesh_router =
  mr_routes :: "rns_address \<rightharpoonup> route_entry"
  mr_local_addr :: rns_address
  mr_route_timeout :: nat

definition router_new :: "rns_address \<Rightarrow> mesh_router" where
  "router_new a = \<lparr>mr_routes = Map.empty, mr_local_addr = a, mr_route_timeout = from_secs 300\<rparr>"

definition update_route ::
  "instant \<Rightarrow> mesh_router \<Rightarrow> rns_address \<Rightarrow> rns_address \<Rightarrow> f64 \<Rightarrow> u8 \<Rightarrow> mesh_router" where
  "update_route now r dest next_hop quality hop_count =
     (let fresh = \<lparr>re_destination = dest, re_next_hop = next_hop, re_path_quality = quality,
            re_hop_count = hop_count, re_last_refresh = now\<rparr>;
          entry = (case mr_routes r dest of Some e \<Rightarrow> e | None \<Rightarrow> fresh);
          entry = (if f64_lt (re_path_quality entry) quality \<or>
                     (f64_eq quality (re_path_quality entry) \<and> hop_count < re_hop_count entry)
                   then entry\<lparr>re_next_hop := next_hop, re_path_quality := quality,
                     re_hop_count := hop_count, re_last_refresh := now\<rparr>
                   else entry)
      in r\<lparr>mr_routes := (mr_routes r)(dest \<mapsto> entry)\<rparr>)"

definition next_hop :: "mesh_router \<Rightarrow> rns_address \<Rightarrow> route_entry option" where
  "next_hop r dest = mr_routes r dest"

definition router_prune_stale :: "instant \<Rightarrow> mesh_router \<Rightarrow> mesh_router" where
  "router_prune_stale now r = r\<lparr>mr_routes := (\<lambda>a. case mr_routes r a of
     Some e \<Rightarrow> if now - re_last_refresh e < mr_route_timeout r then Some e else None
   | None \<Rightarrow> None)\<rparr>"

record announce_payload =
  ap_origin :: rns_address
  ap_peers :: "(rns_address \<times> f64) list"

fun announce_peers ::
  "instant \<Rightarrow> link_manager \<Rightarrow> rns_address \<Rightarrow> (rns_address \<times> f64) list \<Rightarrow> mesh_router \<Rightarrow> mesh_router" where
  "announce_peers now m origin [] r = r"
| "announce_peers now m origin ((peer_addr, peer_q) # ps) r =
     announce_peers now m origin ps
       (case quality_to m origin of
          Some direct_q \<Rightarrow> update_route now r peer_addr origin (f64_min (lq_score direct_q) peer_q) 2
        | None \<Rightarrow> r)"

definition process_announce ::
  "instant \<Rightarrow> mesh_router \<Rightarrow> rns_address \<Rightarrow> link_manager \<Rightarrow> announce_payload \<Rightarrow> mesh_router" where
  "process_announce now r origin m announce =
     announce_peers now m origin (ap_peers announce)
       (case quality_to m origin of
          Some q \<Rightarrow> update_route now r origin origin (lq_score q) 1
        | None \<Rightarrow> r)"

section \<open>The best route\<close>

text \<open>A route of one quality and length is better than another.\<close>

definition better :: "f64 \<times> u8 \<Rightarrow> f64 \<times> u8 \<Rightarrow> bool" where
  "better x y \<longleftrightarrow> f64_lt (fst y) (fst x) \<or> (f64_eq (fst x) (fst y) \<and> snd x < snd y)"

lemma better_not_trans:
  "\<not> better x y \<Longrightarrow> \<not> better y z \<Longrightarrow> \<not> f64_is_nan (fst x) \<Longrightarrow> \<not> f64_is_nan (fst y) \<Longrightarrow> \<not> f64_is_nan (fst z) \<Longrightarrow>
     \<not> better x z"
  by (auto simp: better_def f64_lt_def f64_eq_def)

lemma better_asym: "better x y \<Longrightarrow> \<not> better y x"
  by (auto simp: better_def f64_lt_def f64_eq_def)

lemma better_irrefl [simp]: "\<not> better x x"
  by (auto simp: better_def f64_lt_def)

abbreviation (input) route_key :: "route_entry \<Rightarrow> f64 \<times> u8" where
  "route_key e \<equiv> (re_path_quality e, re_hop_count e)"

text \<open>The offers for one destination, in the order they are processed.\<close>

fun offer_all :: "rns_address \<Rightarrow> (instant \<times> rns_address \<times> f64 \<times> u8) list \<Rightarrow> mesh_router \<Rightarrow> mesh_router" where
  "offer_all dest [] r = r"
| "offer_all dest ((now, hop, q, h) # us) r = offer_all dest us (update_route now r dest hop q h)"

lemma update_route_other: "d \<noteq> dest \<Longrightarrow> mr_routes (update_route now r dest hop q h) d = mr_routes r d"
  by (simp add: update_route_def Let_def)

lemma update_route_fields [simp]:
  "mr_local_addr (update_route now r dest hop q h) = mr_local_addr r"
  "mr_route_timeout (update_route now r dest hop q h) = mr_route_timeout r"
  by (simp_all add: update_route_def Let_def)

lemma update_route_new:
  "mr_routes r dest = None \<Longrightarrow>
     mr_routes (update_route now r dest hop q h) dest =
       Some \<lparr>re_destination = dest, re_next_hop = hop, re_path_quality = q, re_hop_count = h, re_last_refresh = now\<rparr>"
  by (simp add: update_route_def Let_def)

lemma update_route_old:
  "mr_routes r dest = Some e \<Longrightarrow>
     mr_routes (update_route now r dest hop q h) dest =
       Some (if better (q, h) (route_key e)
             then e\<lparr>re_next_hop := hop, re_path_quality := q, re_hop_count := h, re_last_refresh := now\<rparr> else e)"
  by (auto simp: update_route_def Let_def better_def)

lemma offer_all_best:
  "mr_routes r dest = Some e \<Longrightarrow> \<not> f64_is_nan (re_path_quality e) \<Longrightarrow>
   \<forall>(_, _, q, _) \<in> set us. \<not> f64_is_nan q \<Longrightarrow>
   \<exists>e'. mr_routes (offer_all dest us r) dest = Some e' \<and> \<not> f64_is_nan (re_path_quality e') \<and>
     ((re_next_hop e', route_key e') = (re_next_hop e, route_key e) \<or>
      (\<exists>now. (now, re_next_hop e', route_key e') \<in> set us)) \<and>
     \<not> better (route_key e) (route_key e') \<and>
     (\<forall>(_, _, k) \<in> set us. \<not> better k (route_key e'))"
proof (induction us arbitrary: r e)
  case (Cons u us)
  obtain now hop q h where u: "u = (now, hop, q, h)" by (cases u)
  define e1 where "e1 = (if better (q, h) (route_key e)
    then e\<lparr>re_next_hop := hop, re_path_quality := q, re_hop_count := h, re_last_refresh := now\<rparr> else e)"
  have nan: "\<not> f64_is_nan q" "\<not> f64_is_nan (re_path_quality e)" "\<not> f64_is_nan (re_path_quality e1)"
    using Cons.prems by (auto simp: u e1_def)
  have e1: "\<not> better (route_key e) (route_key e1)" "\<not> better (q, h) (route_key e1)"
    "(re_next_hop e1, route_key e1) = (re_next_hop e, route_key e) \<or> (re_next_hop e1, route_key e1) = (hop, q, h)"
    by (auto simp: e1_def better_asym)
  have "mr_routes (update_route now r dest hop q h) dest = Some e1"
    using Cons.prems(1) by (simp add: update_route_old e1_def)
  then obtain e' where e': "mr_routes (offer_all dest us (update_route now r dest hop q h)) dest = Some e'"
    "\<not> f64_is_nan (re_path_quality e')"
    "(re_next_hop e', route_key e') = (re_next_hop e1, route_key e1) \<or>
      (\<exists>now. (now, re_next_hop e', route_key e') \<in> set us)"
    "\<not> better (route_key e1) (route_key e')" "\<forall>(_, _, k) \<in> set us. \<not> better k (route_key e')"
    using Cons.IH [of "update_route now r dest hop q h" e1] nan Cons.prems(3) by (auto simp: u)
  have "\<not> better k (route_key e')" if "\<not> better k (route_key e1)" "\<not> f64_is_nan (fst k)" for k
    using better_not_trans [OF that(1) e'(4)] that(2) nan e'(2) by simp
  then have "\<not> better (route_key e) (route_key e')" "\<not> better (q, h) (route_key e')"
    using e1 nan by simp_all
  with e' e1(3) show ?case by (auto simp: u)
qed simp

lemma offer_all_other: "d \<noteq> dest \<Longrightarrow> mr_routes (offer_all dest us r) d = mr_routes r d"
  by (induction dest us r rule: offer_all.induct) (simp_all add: update_route_other)

text \<open>C29. 
  Whatever routes are offered for a destination, in whatever order, the table holds one of the
  best of them by quality, then by hop count, and no other destination is touched; provided no
  offered quality is a NaN.
\<close>

theorem router_keeps_best:
  assumes "mr_routes r dest = None" and "us \<noteq> []" and "\<forall>(_, _, q, _) \<in> set us. \<not> f64_is_nan q"
  shows "(\<exists>e now. next_hop (offer_all dest us r) dest = Some e \<and>
      (now, re_next_hop e, re_path_quality e, re_hop_count e) \<in> set us \<and>
      (\<forall>(_, _, q, h) \<in> set us. \<not> f64_lt (re_path_quality e) q \<and>
        (f64_eq q (re_path_quality e) \<longrightarrow> re_hop_count e \<le> h))) \<and>
    (\<forall>d. d \<noteq> dest \<longrightarrow> next_hop (offer_all dest us r) d = next_hop r d)"
proof -
  obtain now hop q h vs where us: "us = (now, hop, q, h) # vs" using assms(2) by (cases us) auto
  let ?e = "\<lparr>re_destination = dest, re_next_hop = hop, re_path_quality = q, re_hop_count = h, re_last_refresh = now\<rparr>"
  have "mr_routes (update_route now r dest hop q h) dest = Some ?e"
    using assms(1) by (rule update_route_new)
  from offer_all_best [OF this, of vs] assms(3)
  obtain e' where e': "mr_routes (offer_all dest us r) dest = Some e'"
    "\<exists>now. (now, re_next_hop e', route_key e') \<in> set us" "\<forall>(_, _, k) \<in> set us. \<not> better k (route_key e')"
    by (auto simp: us)
  have "\<forall>(_, _, q, h) \<in> set us. \<not> f64_lt (re_path_quality e') q \<and>
        (f64_eq q (re_path_quality e') \<longrightarrow> re_hop_count e' \<le> h)"
    using e'(3) by (fastforce simp: better_def not_less)
  with e'(1,2) show ?thesis by (auto simp: next_hop_def offer_all_other)
qed

theorem router_keeps_best_witness:
  "\<exists>e now. next_hop (offer_all [1] [(0, [2], 0x3FD0000000000000, 1), (5, [3], 0x3FE0000000000000, 2)] (router_new [0])) [1]
      = Some e \<and> (now, re_next_hop e, re_path_quality e, re_hop_count e) \<in>
        set [(0, [2], 0x3FD0000000000000, 1), (5, [3], 0x3FE0000000000000, 2)]"
  using router_keeps_best [of "router_new [0]" "[1]"
      "[(0, [2], 0x3FD0000000000000, 1), (5, [3], 0x3FE0000000000000, 2)]"]
  by (auto simp: router_new_def f64_is_nan_def)

text \<open>A route whose quality is a NaN is kept for ever: no later offer replaces it.\<close>

theorem router_nan_sticks:
  assumes "mr_routes r dest = None" and "f64_is_nan q"
  shows "next_hop (offer_all dest us (update_route now r dest hop q h)) dest =
    Some \<lparr>re_destination = dest, re_next_hop = hop, re_path_quality = q, re_hop_count = h, re_last_refresh = now\<rparr>"
proof -
  have "mr_routes r' dest = Some e \<Longrightarrow> f64_is_nan (re_path_quality e) \<Longrightarrow>
      mr_routes (offer_all dest us r') dest = Some e" for r' e
  proof (induction us arbitrary: r')
    case (Cons u us)
    obtain now hop q h where "u = (now, hop, q, h)" by (cases u)
    moreover have "\<not> better (q, h) (route_key e)"
      using Cons.prems(2) by (simp add: better_def f64_lt_def f64_eq_def)
    ultimately show ?case using Cons by (simp add: update_route_old)
  qed simp
  with assms show ?thesis by (simp add: next_hop_def update_route_new)
qed

theorem router_nan_sticks_witness:
  "next_hop (offer_all [1] [(5, [3], 0x3FF0000000000000, 1)]
     (update_route 0 (router_new [0]) [1] [2] 0x7FF8000000000000 9)) [1] =
   Some \<lparr>re_destination = [1], re_next_hop = [2], re_path_quality = 0x7FF8000000000000, re_hop_count = 9,
     re_last_refresh = 0\<rparr>"
  by (rule router_nan_sticks) (simp_all add: router_new_def f64_is_nan_def)

end
