(* ===== verification/Mesh_Announce.thy ===== *)
theory Mesh_Announce
  imports Mesh_Routing Packet
begin

text \<open>
  The announce that a router builds from its link manager (\<open>crates/mesh/src/routing.rs\<close>) and what a
  neighbour learns from it. The serialiser of the payload and the order in which the hash map of peers
  is iterated are arguments.
\<close>

section \<open>Building the announce\<close>

definition announced_peers :: "rns_address list \<Rightarrow> link_manager \<Rightarrow> (rns_address \<times> f64) list" where
  "announced_peers order m = List.map_filter
     (\<lambda>a. map_option (\<lambda>p. (pi_address p, lq_score (pi_quality p))) (peers_above m f64_0 a)) order"

definition build_announce ::
  "(announce_payload \<Rightarrow> bytes option) \<Rightarrow> rns_address list \<Rightarrow> mesh_router \<Rightarrow> link_manager \<Rightarrow> packet" where
  "build_announce ser order r m =
     new_announce (replicate 16 0)
       (case ser \<lparr>ap_origin = mr_local_addr r, ap_peers = announced_peers order m\<rparr> of
          Some bytes \<Rightarrow> bytes | None \<Rightarrow> [])"

section \<open>The link manager\<close>

text \<open>Every peer is filed under its own address.\<close>

definition lm_wf :: "link_manager \<Rightarrow> bool" where
  "lm_wf m \<longleftrightarrow> (\<forall>a p. lm_peers m a = Some p \<longrightarrow> pi_address p = a)"

lemma lm_wf_kept:
  "lm_wf (link_manager_new medium config)"
  "lm_wf m \<Longrightarrow> lm_wf (record_heartbeat F now m a rtt)"
  "lm_wf m \<Longrightarrow> lm_wf (lm_prune_stale now m)"
  by (auto simp: lm_wf_def link_manager_new_def record_heartbeat_def lm_prune_stale_def Let_def
      split: option.splits if_splits)

lemma announced_peers_sub: "lm_wf m \<Longrightarrow> fst ` set (announced_peers order m) \<subseteq> set order"
  by (induction order)
    (auto simp: announced_peers_def map_filter_simps lm_wf_def peers_above_def split: option.splits if_splits)

lemma announced_peers_distinct:
  "lm_wf m \<Longrightarrow> distinct order \<Longrightarrow> distinct (map fst (announced_peers order m))"
proof (induction order)
  case (Cons a order)
  have "a \<notin> fst ` set (announced_peers order m)" using announced_peers_sub [of m order] Cons.prems by auto
  with Cons show ?case
    by (auto simp: announced_peers_def map_filter_simps lm_wf_def peers_above_def split: option.splits if_splits)
qed (simp add: announced_peers_def map_filter_simps)

lemma announced_peers_lookup:
  "lm_wf m \<Longrightarrow> map_of (announced_peers order m) a =
     (if a \<in> set order then map_option (\<lambda>p. lq_score (pi_quality p)) (peers_above m f64_0 a) else None)"
  by (induction order)
    (auto simp: announced_peers_def map_filter_simps lm_wf_def peers_above_def split: option.splits if_splits)

section \<open>What a neighbour learns\<close>

lemma update_route_at:
  "mr_routes r d = mr_routes r' d \<Longrightarrow>
     mr_routes (update_route now r d hop q h) d = mr_routes (update_route now r' d hop q h) d"
  by (simp add: update_route_def Let_def)

lemma announce_peers_routes:
  assumes "quality_to m origin = Some q" and "distinct (map fst ps)"
  shows "mr_routes (announce_peers now m origin ps r) d = (case map_of ps d of
      None \<Rightarrow> mr_routes r d
    | Some s \<Rightarrow> mr_routes (update_route now r d origin (f64_min (lq_score q) s) 2) d)"
  using assms(2)
proof (induction ps arbitrary: r)
  case (Cons x ps)
  obtain a s where x: "x = (a, s)" by (cases x)
  show ?case
  proof (cases "a = d")
    case True
    then have "map_of ps d = None" using Cons.prems by (auto simp: x map_of_eq_None_iff)
    then show ?thesis using Cons by (simp add: x assms(1) True)
  next
    case False
    with Cons show ?thesis
      by (auto simp: x assms(1) update_route_other intro: update_route_at split: option.splits)
  qed
qed simp

lemma min_not_better: "\<not> better (f64_min q s, 2) (q, 1)"
  by (auto simp: better_def f64_min_def f64_lt_def f64_eq_def)

text \<open>
  A neighbour's announce arrives whole, and a router without routes that hears its sender learns
  exactly this: the sender itself at one hop, and every peer the sender hears with a score of at least
  zero at two hops through the sender, with the worse of the two scores.
\<close>

theorem announce_exchange:
  assumes "lm_wf ma" and "distinct order" and "set order = dom (lm_peers ma)"
    and "\<forall>x. \<exists>b. ser x = Some b \<and> de b = Some x"
    and "quality_to mb (mr_local_addr ra) = Some q" and "mr_routes rb = Map.empty"
  shows "\<exists>p payload. packet_from_bytes (packet_to_bytes (build_announce ser order ra ma)) = Inr p \<and>
    de (pkt_data p) = Some payload \<and> ap_origin payload = mr_local_addr ra \<and>
    (\<forall>d. next_hop (process_announce now rb (ap_origin payload) mb payload) d =
      (if d = mr_local_addr ra
       then Some \<lparr>re_destination = d, re_next_hop = d, re_path_quality = lq_score q, re_hop_count = 1,
         re_last_refresh = now\<rparr>
       else map_option (\<lambda>p. \<lparr>re_destination = d, re_next_hop = mr_local_addr ra,
           re_path_quality = f64_min (lq_score q) (lq_score (pi_quality p)), re_hop_count = 2,
           re_last_refresh = now\<rparr>) (peers_above ma f64_0 d)))"
proof -
  let ?A = "mr_local_addr ra"
  let ?ps = "announced_peers order ma"
  let ?pl = "\<lparr>ap_origin = ?A, ap_peers = ?ps\<rparr>"
  let ?p = "build_announce ser order ra ma"
  have "packet_from_bytes (packet_to_bytes ?p) = Inr ?p"
    by (rule packet_dec_enc) (simp add: build_announce_def constructors_wf(2))
  moreover have "de (pkt_data ?p) = Some ?pl"
    using assms(4)[rule_format, of ?pl] by (auto simp: build_announce_def new_announce_def)
  moreover have "next_hop (process_announce now rb ?A mb ?pl) d =
      (if d = ?A then Some \<lparr>re_destination = d, re_next_hop = d, re_path_quality = lq_score q,
         re_hop_count = 1, re_last_refresh = now\<rparr>
       else map_option (\<lambda>p. \<lparr>re_destination = d, re_next_hop = ?A,
           re_path_quality = f64_min (lq_score q) (lq_score (pi_quality p)), re_hop_count = 2,
           re_last_refresh = now\<rparr>) (peers_above ma f64_0 d))" for d
  proof -
    have in_order: "d \<in> set order" if "peers_above ma f64_0 d = Some p" for p
      using that assms(3) by (auto simp: peers_above_def split: option.splits)
    show ?thesis
    proof (cases "d = ?A")
      case True
      then show ?thesis
        using assms(6) min_not_better
        by (auto simp: next_hop_def process_announce_def assms(5) update_route_new update_route_old
            announce_peers_routes [OF assms(5) announced_peers_distinct [OF assms(1,2)]] split: option.splits)
    next
      case False
      then show ?thesis
        using assms(6) in_order
        by (auto simp: next_hop_def process_announce_def assms(5) announced_peers_lookup [OF assms(1)]
            announce_peers_routes [OF assms(5) announced_peers_distinct [OF assms(1,2)]]
            update_route_new update_route_other split: option.splits)
    qed
  qed
  ultimately show ?thesis by (intro exI [of _ ?p] exI [of _ ?pl]) simp
qed

text \<open>The announce of a neighbour that hears this node gives it a route to itself.\<close>

theorem announce_routes_to_self:
  assumes "lm_wf ma" and "distinct order" and "set order = dom (lm_peers ma)"
    and "quality_to mb (mr_local_addr ra) = Some q" and "mr_routes rb = Map.empty"
    and "mr_local_addr rb \<noteq> mr_local_addr ra"
    and "peers_above ma f64_0 (mr_local_addr rb) = Some p"
  shows "map_option re_next_hop (next_hop (process_announce now rb (mr_local_addr ra) mb
     \<lparr>ap_origin = mr_local_addr ra, ap_peers = announced_peers order ma\<rparr>) (mr_local_addr rb))
     = Some (mr_local_addr ra)"
proof -
  have "mr_local_addr rb \<in> set order"
    using assms(3,7) by (auto simp: peers_above_def split: option.splits)
  then show ?thesis
    using assms(5-7) by (auto simp: next_hop_def process_announce_def assms(4) announced_peers_lookup [OF assms(1)]
        announce_peers_routes [OF assms(4) announced_peers_distinct [OF assms(1,2)]]
        update_route_new update_route_other)
qed

section \<open>Examples\<close>

definition one_peer :: "rns_address \<Rightarrow> link_manager" where
  "one_peer a = record_heartbeat \<lparr>f_add = \<lambda>x y. x, f_sub = \<lambda>x y. x, f_mul = \<lambda>x y. x, f_div = \<lambda>x y. x, f_sqrt = \<lambda>x. x\<rparr> 0
     (link_manager_new ''udp'' mesh_link_config_default) a f64_0"

theorem announce_routes_to_self_witness:
  "map_option re_next_hop (next_hop (process_announce 7 (router_new [2]) [1] (one_peer [1])
     \<lparr>ap_origin = [1], ap_peers = announced_peers [[2]] (one_peer [2])\<rparr>) [2]) = Some [1]"
proof -
  have "peers_above (one_peer [2]) f64_0 [2] = Some (the (lm_peers (one_peer [2]) [2]))"
    and "quality_to (one_peer [1]) [1] = Some (the (quality_to (one_peer [1]) [1]))"
    and "set [[2]] = dom (lm_peers (one_peer [2]))"
    by (simp_all add: peers_above_def quality_to_def one_peer_def record_heartbeat_def
        link_manager_new_def Let_def link_quality_recompute_def f64_clamp_def f64_lt_def f64_eq_def f64_is_nan_def f64_key_def)
  moreover have "lm_wf (one_peer [2])" by (simp add: one_peer_def lm_wf_kept)
  ultimately show ?thesis
    using announce_routes_to_self [of "one_peer [2]" "[[2]]" "one_peer [1]" "router_new [1]" _ "router_new [2]"]
    by (simp add: router_new_def)
qed

end
