(* ===== verification/Icn_Name.thy ===== *)
theory Icn_Name
  imports External
begin

text \<open>
  Names of the information-centric layer (\<open>crates/icn/src/name.rs\<close>): a list of components, the
  first of which is the producer's hash, and an optional content hash. The theory gives the
  constructors, the prefix relation the forwarding tables rest on, the wire format, and an exact
  description of what the decoder accepts: the encoding of a well-formed name followed by
  anything that cannot be taken for its content hash.
\<close>

section \<open>Data\<close>

datatype NameError =
    NameEmpty
  | NameComponentTooLong
  | NameBufferTooShort (expected: nat) (got: nat)
  | NameMissingHashDiscriminator

definition MAX_COMPONENTS :: nat where
  "MAX_COMPONENTS = 32"

definition HASH_DISCRIMINATOR :: u8 where
  "HASH_DISCRIMINATOR = 0xFF"

record name =
  nm_components :: "bytes list"
  nm_content_hash :: "bytes option"

section \<open>Operations\<close>

definition name_new :: "bytes \<Rightarrow> bytes list \<Rightarrow> name" where
  "name_new producer_hash path = \<lparr>nm_components = producer_hash # path, nm_content_hash = None\<rparr>"

definition name_with_content_hash :: "name \<Rightarrow> bytes \<Rightarrow> name" where
  "name_with_content_hash n h = n\<lparr>nm_content_hash := Some h\<rparr>"

text \<open>\<open>producer_hash\<close> panics (\<open>None\<close>) without components and, by its \<open>expect\<close>, on a first
  component that is not 32 bytes long.\<close>

definition name_producer_hash :: "name \<Rightarrow> bytes option" where
  "name_producer_hash n =
     (case nm_components n of
        [] \<Rightarrow> None
      | c # _ \<Rightarrow> if length c = 32 then Some c else None)"

definition name_count :: "name \<Rightarrow> nat" where
  "name_count n = length (nm_components n)"

definition name_is_root :: "name \<Rightarrow> bool" where
  "name_is_root n \<longleftrightarrow> length (nm_components n) = 1"

definition name_starts_with :: "name \<Rightarrow> name \<Rightarrow> bool" where
  "name_starts_with n p =
     (if name_count p > name_count n then False
      else list_all (\<lambda>(a, b). a = b) (zip (nm_components n) (nm_components p)))"

definition name_is_prefix_of :: "name \<Rightarrow> name \<Rightarrow> bool" where
  "name_is_prefix_of p n = name_starts_with n p"

definition name_to_bytes :: "name \<Rightarrow> bytes" where
  "name_to_bytes n =
     of_nat (length (nm_components n))
     # concat (map (\<lambda>c. of_nat (length c) # c) (nm_components n))
     @ (case nm_content_hash n of None \<Rightarrow> [] | Some h \<Rightarrow> HASH_DISCRIMINATOR # h)"

text \<open>The loop of \<open>from_bytes\<close> over the components: \<open>count\<close> rounds from position \<open>pos\<close>; it
  yields the components and the position after them.\<close>

fun name_loop :: "bytes \<Rightarrow> nat \<Rightarrow> nat \<Rightarrow> NameError + bytes list \<times> nat" where
  "name_loop bs 0 pos = Inr ([], pos)"
| "name_loop bs (Suc count) pos =
     (if pos \<ge> length bs then Inl (NameBufferTooShort (pos + 1) (length bs))
      else let len = unat (bs ! pos); pos = pos + 1 in
        if pos + len > length bs then Inl (NameBufferTooShort (pos + len) (length bs))
        else (case name_loop bs count (pos + len) of
            Inl e \<Rightarrow> Inl e
          | Inr (cs, pos') \<Rightarrow> Inr (slice pos (pos + len) bs # cs, pos')))"

definition name_from_bytes :: "bytes \<Rightarrow> NameError + name" where
  "name_from_bytes bs =
     (if bs = [] then Inl NameEmpty
      else let count = unat (bs ! 0) in
        if count = 0 \<or> count > MAX_COMPONENTS then Inl NameEmpty
        else (case name_loop bs count 1 of
            Inl e \<Rightarrow> Inl e
          | Inr (cs, pos) \<Rightarrow>
              if pos < length bs \<and> bs ! pos = HASH_DISCRIMINATOR then
                (let pos = pos + 1 in
                  if pos + 32 > length bs then Inl (NameBufferTooShort (pos + 32) (length bs))
                  else Inr \<lparr>nm_components = cs, nm_content_hash = Some (slice pos (pos + 32) bs)\<rparr>)
              else Inr \<lparr>nm_components = cs, nm_content_hash = None\<rparr>))"

definition hex_prefix :: "ext \<Rightarrow> bytes \<Rightarrow> string" where
  "hex_prefix E bs =
     (if length bs \<le> 8 then hex_encode E bs
      else hex_encode E (take 4 bs) @ ''..'' @ hex_encode E (drop (length bs - 4) bs))"

section \<open>The prefix relation\<close>

lemma zip_eq_prefix:
  "length ps \<le> length cs \<Longrightarrow> list_all (\<lambda>(a, b). a = b) (zip cs ps) \<longleftrightarrow> prefix ps cs"
  by (induction cs ps rule: list_induct2') auto

lemma name_starts_with_prefix [simp]:
  "name_starts_with n p \<longleftrightarrow> prefix (nm_components p) (nm_components n)"
  using prefix_length_le [of "nm_components p" "nm_components n"]
  by (auto simp: name_starts_with_def name_count_def zip_eq_prefix)

lemma name_is_prefix_of_prefix [simp]:
  "name_is_prefix_of p n \<longleftrightarrow> prefix (nm_components p) (nm_components n)"
  by (simp add: name_is_prefix_of_def)

section \<open>The wire format\<close>

text \<open>The names the wire format can carry.\<close>

definition name_wf :: "name \<Rightarrow> bool" where
  "name_wf n \<longleftrightarrow> nm_components n \<noteq> [] \<and> length (nm_components n) \<le> MAX_COMPONENTS \<and>
     list_all (\<lambda>c. length c \<le> 255) (nm_components n) \<and>
     (\<forall>h. nm_content_hash n = Some h \<longrightarrow> length h = 32)"

abbreviation (input) comp_bytes :: "bytes \<Rightarrow> bytes" where
  "comp_bytes c \<equiv> of_nat (length c) # c"

lemma name_loop_append:
  "list_all (\<lambda>c. length c \<le> 255) cs \<Longrightarrow> length pre = pos \<Longrightarrow>
     name_loop (pre @ concat (map comp_bytes cs) @ rest) (length cs) pos =
       Inr (cs, pos + length (concat (map comp_bytes cs)))"
proof (induction cs arbitrary: pre pos)
  case (Cons c cs)
  let ?bs = "pre @ concat (map comp_bytes (c # cs)) @ rest" and ?k = "pos + 1 + length c"
  have len: "unat (?bs ! pos) = length c"
    using Cons.prems by (simp add: nth_append unat_of_nat)
  have sl: "slice (pos + 1) ?k ?bs = c"
    using Cons.prems by simp
  have "name_loop ((pre @ comp_bytes c) @ concat (map comp_bytes cs) @ rest) (length cs) ?k =
      Inr (cs, ?k + length (concat (map comp_bytes cs)))"
    using Cons.prems by (intro Cons.IH) simp_all
  then have rec: "name_loop ?bs (length cs) ?k = Inr (cs, ?k + length (concat (map comp_bytes cs)))"
    by simp
  have "(length ?bs \<le> pos) = False" "(length ?bs < ?k) = False" using Cons.prems by simp_all
  then have "name_loop ?bs (Suc (length cs)) pos =
      Inr (c # cs, ?k + length (concat (map comp_bytes cs)))"
    by (simp only: name_loop.simps(2) len Let_def rec sl if_False sum.case prod.case)
  then show ?case by simp
qed simp

lemma name_loop_sound:
  "name_loop bs count pos = Inr (cs, pos') \<Longrightarrow> pos \<le> length bs \<Longrightarrow>
     length cs = count \<and> list_all (\<lambda>c. length c \<le> 255) cs \<and> pos' \<le> length bs \<and>
     drop pos bs = concat (map comp_bytes cs) @ drop pos' bs"
proof (induction bs count pos arbitrary: cs pos' rule: name_loop.induct)
  case (2 bs count pos)
  let ?len = "unat (bs ! pos)"
  from "2.prems" obtain ds where pos: "pos < length bs" "pos + 1 + ?len \<le> length bs"
    and rec: "name_loop bs count (pos + 1 + ?len) = Inr (ds, pos')"
    and cs: "cs = slice (pos + 1) (pos + 1 + ?len) bs # ds"
    by (auto simp: Let_def split: if_splits sum.splits)
  have IH: "length ds = count \<and> list_all (\<lambda>c. length c \<le> 255) ds \<and> pos' \<le> length bs \<and>
      drop (pos + 1 + ?len) bs = concat (map comp_bytes ds) @ drop pos' bs"
    using "2.IH" [of ?len "pos + 1" ds pos'] pos rec by simp
  have "drop pos bs = bs ! pos # take ?len (drop (pos + 1) bs) @ drop (pos + 1 + ?len) bs"
    using pos(1) drop_split [of "pos + 1" bs ?len] by (simp add: Cons_nth_drop_Suc [symmetric])
  with IH pos cs show ?case
    using unat_u8_less [of "bs ! pos"] by simp
qed simp

text \<open>What may follow an encoded name: without a content hash, the next byte must not look like
  the discriminator.\<close>

definition name_tail_ok :: "name \<Rightarrow> bytes \<Rightarrow> bool" where
  "name_tail_ok n rest \<longleftrightarrow>
     (nm_content_hash n = None \<longrightarrow> rest \<noteq> [] \<longrightarrow> hd rest \<noteq> HASH_DISCRIMINATOR)"

lemma name_from_bytes_append:
  assumes "name_wf n" "name_tail_ok n rest"
  shows "name_from_bytes (name_to_bytes n @ rest) = Inr n"
proof -
  let ?cs = "nm_components n"
  let ?tl = "(case nm_content_hash n of None \<Rightarrow> [] | Some h \<Rightarrow> HASH_DISCRIMINATOR # h) @ rest"
  let ?c = "of_nat (length ?cs) :: u8"
  have cnt: "unat ?c = length ?cs" "length ?cs \<noteq> 0" "length ?cs \<le> MAX_COMPONENTS"
    using assms(1) by (simp_all only: unat_of_nat) (simp_all add: name_wf_def MAX_COMPONENTS_def)
  have "name_loop ([?c] @ concat (map comp_bytes ?cs) @ ?tl) (length ?cs) 1 =
      Inr (?cs, 1 + length (concat (map comp_bytes ?cs)))"
    using assms(1) by (intro name_loop_append) (simp_all add: name_wf_def)
  moreover have "name_to_bytes n @ rest = [?c] @ concat (map comp_bytes ?cs) @ ?tl"
    by (simp add: name_to_bytes_def)
  ultimately show ?thesis
    using cnt assms
    by (cases n; cases "nm_content_hash n"; cases rest)
      (auto simp: name_from_bytes_def name_wf_def name_tail_ok_def nth_append)
qed

lemma name_from_bytes_sound:
  assumes "name_from_bytes bs = Inr n"
  shows "name_wf n \<and> (\<exists>rest. bs = name_to_bytes n @ rest \<and> name_tail_ok n rest)"
proof -
  let ?c = "unat (bs ! 0)"
  from assms obtain cs pos where c: "bs \<noteq> []" "?c \<noteq> 0" "?c \<le> MAX_COMPONENTS"
    and loop: "name_loop bs ?c 1 = Inr (cs, pos)"
    by (auto simp: name_from_bytes_def Let_def split: if_splits sum.splits)
  have snd: "length cs = ?c" "list_all (\<lambda>c. length c \<le> 255) cs" "pos \<le> length bs"
    "drop 1 bs = concat (map comp_bytes cs) @ drop pos bs"
    using name_loop_sound [OF loop] c(1) by (cases bs; simp)+
  have bs: "bs = of_nat (length cs) # concat (map comp_bytes cs) @ drop pos bs"
    using c(1) snd(1,4) by (cases bs) simp_all
  show ?thesis
  proof (cases "pos < length bs \<and> bs ! pos = HASH_DISCRIMINATOR")
    case True
    with assms c loop have n: "n = \<lparr>nm_components = cs, nm_content_hash = Some (slice (pos + 1) (pos + 33) bs)\<rparr>"
      and len: "pos + 33 \<le> length bs"
      by (auto simp: name_from_bytes_def Let_def split: if_splits)
    have "drop pos bs = HASH_DISCRIMINATOR # slice (pos + 1) (pos + 33) bs @ drop (pos + 33) bs"
      using True drop_split [of "pos + 1" bs 32] by (simp add: Cons_nth_drop_Suc [symmetric] add.commute)
    with bs have "bs = name_to_bytes n @ drop (pos + 33) bs"
      by (simp add: n name_to_bytes_def)
    moreover have "name_wf n"
      using c snd len by (auto simp: n name_wf_def)
    ultimately show ?thesis by (auto simp: name_tail_ok_def n)
  next
    case False
    with assms c loop have n: "n = \<lparr>nm_components = cs, nm_content_hash = None\<rparr>"
      by (auto simp: name_from_bytes_def Let_def split: if_splits)
    have "name_tail_ok n (drop pos bs)"
      using False by (auto simp: name_tail_ok_def n hd_drop_conv_nth)
    moreover have "name_wf n"
      using c snd by (auto simp: n name_wf_def)
    ultimately show ?thesis using bs by (auto simp: n name_to_bytes_def)
  qed
qed

text \<open>The decoder of names accepts exactly the encodings of well-formed names (1 to 32 components
  of at most 255 bytes, a content hash of 32 bytes if any), with anything after them that cannot
  be taken for a content hash, and returns the encoded name.\<close>

theorem name_from_bytes_iff:
  "name_from_bytes bs = Inr n \<longleftrightarrow>
     name_wf n \<and> (\<exists>rest. bs = name_to_bytes n @ rest \<and> name_tail_ok n rest)"
  using name_from_bytes_append name_from_bytes_sound by blast

interpretation name_codec: wire_codec name_to_bytes name_from_bytes name_wf
  using name_from_bytes_append [where rest = "[]"] by unfold_locales (simp add: name_tail_ok_def)

text \<open>The decoder does not require a 32-byte first component: it accepts names on which
  \<open>producer_hash\<close> panics.\<close>

theorem name_producer_hash_panics:
  "length c \<le> 255 \<Longrightarrow> length c \<noteq> 32 \<Longrightarrow>
     \<exists>n. name_from_bytes (name_to_bytes (name_new c [])) = Inr n \<and> name_producer_hash n = None"
  by (rule exI [of _ "name_new c []"], subst name_codec.roundtrip)
    (simp_all add: name_wf_def name_new_def MAX_COMPONENTS_def name_producer_hash_def)

theorem name_producer_hash_panics_witness:
  "\<exists>n. name_from_bytes (name_to_bytes (name_new [1] [])) = Inr n \<and> name_producer_hash n = None"
  by (rule name_producer_hash_panics) simp_all

end
