(* ===== verification/Icn_Interest.thy ===== *)
theory Icn_Interest
  imports Icn_Name Destination
begin

text \<open>
  Interest and Data packets of the information-centric layer (\<open>crates/icn/src/interest.rs\<close>): their
  constructors and builders, the variable-length integers, and the wire formats of interests,
  selectors, data and metadata. A decoder that may panic returns an option around its result;
  \<open>None\<close> is the panic. The theory proves that every well-formed packet survives the wire,
  what a lifetime beyond 32 bits turns into, and exactly when the decoder of interests panics.
\<close>

section \<open>Variable-length integers\<close>

lemma unat_drop_bit_div: "unat (drop_bit n (v :: u64)) = unat v div 2 ^ n"
  by (subst unat_drop_bit_eq) (simp only: drop_bit_eq_div)

lemma bit_0x7F: "bit (0x7F :: u8) k \<longleftrightarrow> k < 7"
  and bit_0x80: "bit (0x80 :: u8) k \<longleftrightarrow> k = 7"
  using bit_mask_iff [of 7 k, where ?'a = "8 word"] bit_exp_iff [of 7 k, where ?'a = "8 word"]
  by (auto simp: mask_eq_exp_minus_1)

function write_varint :: "u64 \<Rightarrow> bytes" where
  "write_varint v =
     (if v \<ge> 0x80 then (ucast v OR 0x80) # write_varint (drop_bit 7 v) else [ucast v])"
  by pat_completeness auto
termination
proof (relation "measure unat")
  fix v :: u64
  assume "v \<ge> 0x80"
  then have "unat v \<noteq> 0" by (auto simp: word_le_nat_alt)
  then show "(drop_bit 7 v, v) \<in> measure unat"
    by (simp del: drop_bit_eq_div add: unat_drop_bit_div)
qed simp

declare write_varint.simps [simp del]

fun read_varint_loop :: "bytes \<Rightarrow> u64 \<Rightarrow> nat \<Rightarrow> nat \<Rightarrow> (u64 \<times> nat) option" where
  "read_varint_loop [] v shift i = None"
| "read_varint_loop (b # bs) v shift i =
     (let v = v OR push_bit shift (ucast (b AND 0x7F)) in
      if b AND 0x80 = 0 then Some (v, i + 1)
      else let shift = shift + 7 in
        if shift \<ge> 64 then None else read_varint_loop bs v shift (i + 1))"

definition read_varint :: "bytes \<Rightarrow> (u64 \<times> nat) option" where
  "read_varint bs = read_varint_loop bs 0 0 0"

lemma varint_step:
  fixes v acc :: u64
  shows "acc OR push_bit s (ucast ((ucast v OR 0x80 :: u8) AND 0x7F)) OR push_bit (s + 7) (drop_bit 7 v)
    = acc OR push_bit s v"
proof (rule bit_word_eqI)
  fix n assume n: "n < LENGTH(64)"
  have low: "bit (ucast ((ucast v OR 0x80 :: u8) AND 0x7F) :: u64) k \<longleftrightarrow> bit v k \<and> k < 7" for k
    by (auto simp del: bit_numeral_word_iff simp: bit_and_iff bit_or_iff bit_unsigned_iff bit_0x7F bit_0x80)
  show "bit (acc OR push_bit s (ucast ((ucast v OR 0x80 :: u8) AND 0x7F)) OR
      push_bit (s + 7) (drop_bit 7 v)) n = bit (acc OR push_bit s v) n"
  proof (cases "s + 7 \<le> n")
    case True
    then have "7 + (n - (s + 7)) = n - s" by simp
    with True n show ?thesis
      by (auto simp: bit_or_iff bit_push_bit_iff low bit_drop_bit_eq)
  next
    case False
    with n show ?thesis by (auto simp: bit_or_iff bit_push_bit_iff low)
  qed
qed

lemma varint_last:
  fixes v :: u64
  assumes "v < 0x80"
  shows "ucast ((ucast v :: u8) AND 0x7F) = v" and "(ucast v :: u8) AND 0x80 = 0"
proof -
  have lt: "unat v < 2 ^ 7" using assms by (simp add: word_less_nat_alt)
  have hi: "\<not> bit v k" if "7 \<le> k" for k
  proof -
    have "unat v < 2 ^ k" using lt power_increasing [OF that, of "2 :: nat"] by linarith
    then have "\<not> bit (unat v) k" by (simp add: bit_iff_odd)
    then show ?thesis by (auto simp: bit_unsigned_iff dest: bit_imp_le_length)
  qed
  show "ucast ((ucast v :: u8) AND 0x7F) = v"
  proof (rule bit_word_eqI)
    fix n assume "n < LENGTH(64)"
    then show "bit (ucast ((ucast v :: u8) AND 0x7F) :: u64) n = bit v n"
      using hi [of n] by (cases "n < 7") (simp_all only: bit_unsigned_iff bit_and_iff bit_0x7F, simp_all)
  qed
  show "(ucast v :: u8) AND 0x80 = 0"
    by (rule bit_word_eqI) (use hi in \<open>auto simp del: bit_numeral_word_iff simp: bit_and_iff bit_unsigned_iff bit_0x80\<close>)
qed

lemma varint_more:
  fixes v :: u64
  shows "(ucast v OR 0x80 :: u8) AND 0x80 \<noteq> 0"
proof
  have "bit (0x80 :: u8) 7" by (simp add: bit_0x80)
  moreover assume "(ucast v OR 0x80 :: u8) AND 0x80 = 0"
  ultimately show False by (metis bit_and_iff bit_or_iff bit_0_eq bot_apply bot_bool_def)
qed

lemma read_varint_loop_write:
  "unat v < 2 ^ (64 - s) \<Longrightarrow> s < 64 \<Longrightarrow>
     read_varint_loop (write_varint v @ rest) acc s i =
       Some (acc OR push_bit s v, i + length (write_varint v))"
proof (induction v arbitrary: acc s i rule: write_varint.induct)
  case (1 v)
  show ?case
  proof (cases "v \<ge> 0x80")
    case True
    then have "128 \<le> unat v" by (simp add: word_le_nat_alt)
    then have "(2 :: nat) ^ 7 < 2 ^ (64 - s)" using "1.prems"(1) by simp
    then have s: "s + 7 < 64" using power_less_imp_less_exp [of "2 :: nat" 7 "64 - s"] by simp
    have "(2 :: nat) ^ (64 - s) = 2 ^ (64 - (s + 7)) * 2 ^ 7"
      using s by (subst power_add [symmetric]) simp
    then have "unat (drop_bit 7 v) < 2 ^ (64 - (s + 7))"
      using "1.prems"(1) by (simp del: drop_bit_eq_div add: unat_drop_bit_div less_mult_imp_div_less)
    from "1.IH" [OF True this s, of "acc OR push_bit s (ucast ((ucast v OR 0x80 :: u8) AND 0x7F))" "i + 1"]
    show ?thesis using True s
      by (simp add: write_varint.simps [of v] Let_def varint_more varint_step or.assoc)
  next
    case False
    then have "v < 0x80" "write_varint v = [ucast v]" by (simp_all add: write_varint.simps [of v])
    then show ?thesis by (simp add: Let_def varint_last)
  qed
qed

lemma read_write_varint [simp, wire_rt]:
  "read_varint (write_varint v @ rest) = Some (v, length (write_varint v))"
  using read_varint_loop_write [of v 0 rest 0 0] unat_u64_less [of v] by (simp add: read_varint_def)

section \<open>Selectors\<close>

datatype InterestError = InterestBufferTooShort | InterestInvalidName

record interest_selector =
  sel_min_sequence :: "u64 option"
  sel_exclude_hashes :: "bytes list"
  sel_must_be_fresh :: bool

definition selector_default :: interest_selector where
  "selector_default = \<lparr>sel_min_sequence = None, sel_exclude_hashes = [], sel_must_be_fresh = False\<rparr>"

text \<open>A flag byte built by \<open>flags |= bit\<close> under three conditions.\<close>

definition flag_bits :: "bool \<Rightarrow> bool \<Rightarrow> bool \<Rightarrow> u8" where
  "flag_bits a b c = (if a then 0x01 else 0) OR (if b then 0x02 else 0) OR (if c then 0x04 else 0)"

lemma flag_bits_read [simp]:
  "flag_bits a b c AND 1 \<noteq> 0 \<longleftrightarrow> a" "flag_bits a b c AND 2 \<noteq> 0 \<longleftrightarrow> b"
  "flag_bits a b c AND 4 \<noteq> 0 \<longleftrightarrow> c"
  by (cases a; cases b; cases c; simp add: flag_bits_def)+

definition selector_write_to :: "interest_selector \<Rightarrow> bytes" where
  "selector_write_to s =
     flag_bits (sel_min_sequence s \<noteq> None) (sel_exclude_hashes s \<noteq> []) (sel_must_be_fresh s)
     # (case sel_min_sequence s of None \<Rightarrow> [] | Some q \<Rightarrow> u64_be q)
     @ (if sel_exclude_hashes s = [] then []
        else of_nat (length (sel_exclude_hashes s)) # concat (sel_exclude_hashes s))"

text \<open>In the decoders \<open>r\<close> is what is left of the buffer, \<open>bytes[pos..]\<close>.\<close>

fun read_hashes :: "nat \<Rightarrow> bytes \<Rightarrow> InterestError + bytes list" where
  "read_hashes 0 r = Inr []"
| "read_hashes (Suc count) r =
     (if length r < 32 then Inl InterestBufferTooShort
      else case read_hashes count (drop 32 r) of
          Inl e \<Rightarrow> Inl e
        | Inr hs \<Rightarrow> Inr (take 32 r # hs))"

definition selector_read_from :: "bytes \<Rightarrow> InterestError + interest_selector" where
  "selector_read_from bs =
     (case bs of
        [] \<Rightarrow> Inl InterestBufferTooShort
      | flags # r \<Rightarrow>
          if flags AND 0x01 \<noteq> 0 \<and> length r < 8 then Inl InterestBufferTooShort
          else
            let (min_sequence, r) = (if flags AND 0x01 \<noteq> 0 then (Some (u64_of_be (take 8 r)), drop 8 r)
                                     else (None, r));
              hashes = (if flags AND 0x02 \<noteq> 0 then
                          (case r of
                             [] \<Rightarrow> Inl InterestBufferTooShort
                           | count # r \<Rightarrow> read_hashes (unat count) r)
                        else Inr [])
            in case hashes of
                 Inl e \<Rightarrow> Inl e
               | Inr hs \<Rightarrow> Inr \<lparr>sel_min_sequence = min_sequence, sel_exclude_hashes = hs,
                                sel_must_be_fresh = (flags AND 0x04 \<noteq> 0)\<rparr>)"

definition selector_wf :: "interest_selector \<Rightarrow> bool" where
  "selector_wf s \<longleftrightarrow> length (sel_exclude_hashes s) \<le> 255 \<and>
     list_all (\<lambda>h. length h = 32) (sel_exclude_hashes s)"

lemma read_hashes_concat:
  "list_all (\<lambda>h. length h = 32) hs \<Longrightarrow> read_hashes (length hs) (concat hs @ rest) = Inr hs"
  by (induction hs) simp_all

interpretation selector_codec: prefix_codec selector_write_to selector_read_from selector_wf
proof
  fix s :: interest_selector and rest
  assume wf: "selector_wf s"
  have "read_hashes (unat (of_nat (length (sel_exclude_hashes s)) :: u8))
      (concat (sel_exclude_hashes s) @ rest) = Inr (sel_exclude_hashes s)"
    using wf by (subst unat_of_nat) (simp add: selector_wf_def read_hashes_concat)
  then show "selector_read_from (selector_write_to s @ rest) = Inr s"
    by (cases s; cases "sel_min_sequence s")
      (auto simp: selector_read_from_def selector_write_to_def)
qed

section \<open>Interests\<close>

record interest =
  int_name :: name
  int_nonce :: bytes
  int_lifetime :: duration
  int_can_be_prefix :: bool
  int_selector :: "interest_selector option"

text \<open>The random nonce is an argument.\<close>

definition interest_new :: "bytes \<Rightarrow> name \<Rightarrow> interest" where
  "interest_new nonce n = \<lparr>int_name = n, int_nonce = nonce, int_lifetime = from_secs 4,
     int_can_be_prefix = False, int_selector = None\<rparr>"

definition interest_with_lifetime :: "interest \<Rightarrow> duration \<Rightarrow> interest" where
  "interest_with_lifetime i l = i\<lparr>int_lifetime := l\<rparr>"

definition interest_with_can_be_prefix :: "interest \<Rightarrow> interest" where
  "interest_with_can_be_prefix i = i\<lparr>int_can_be_prefix := True\<rparr>"

definition interest_with_selector :: "interest \<Rightarrow> interest_selector \<Rightarrow> interest" where
  "interest_with_selector i s = i\<lparr>int_selector := Some s\<rparr>"

definition interest_with_must_be_fresh :: "interest \<Rightarrow> interest" where
  "interest_with_must_be_fresh i = i\<lparr>int_selector :=
     Some ((case int_selector i of None \<Rightarrow> selector_default | Some s \<Rightarrow> s)\<lparr>sel_must_be_fresh := True\<rparr>)\<rparr>"

definition interest_to_bytes :: "interest \<Rightarrow> bytes" where
  "interest_to_bytes i =
     (let name_bytes = name_to_bytes (int_name i);
          ms = min (of_nat (as_millis (int_lifetime i))) (0xFFFFFFFF :: u32)
      in write_varint (of_nat (length name_bytes)) @ name_bytes @ int_nonce i @ u32_be ms
         @ [(if int_can_be_prefix i then 0x01 else 0) OR (if int_selector i \<noteq> None then 0x02 else 0)]
         @ (case int_selector i of None \<Rightarrow> [] | Some s \<Rightarrow> selector_write_to s))"

text \<open>
  \<open>pos + name_len as usize\<close> is computed in 64 bits. When it overflows, a debug build panics on
  the addition; a release build wraps to an end below \<open>pos\<close>, passes the length check and panics on
  the slice. Both are the outer \<open>None\<close>.
\<close>

definition interest_from_bytes :: "bytes \<Rightarrow> (InterestError + interest) option" where
  "interest_from_bytes bs =
     (case read_varint bs of
        None \<Rightarrow> Some (Inl InterestBufferTooShort)
      | Some (name_len, pos) \<Rightarrow>
          if pos + unat name_len \<ge> 2 ^ 64 then None
          else if pos + unat name_len > length bs then Some (Inl InterestBufferTooShort)
          else Some (
            case name_from_bytes (slice pos (pos + unat name_len) bs) of
              Inl _ \<Rightarrow> Inl InterestInvalidName
            | Inr n \<Rightarrow>
                let r = drop (pos + unat name_len) bs in
                if length r < 8 then Inl InterestBufferTooShort
                else let nonce = take 8 r; r = drop 8 r in
                if length r < 4 then Inl InterestBufferTooShort
                else let lifetime_ms = u32_of_be (take 4 r); r = drop 4 r in
                case r of
                  [] \<Rightarrow> Inl InterestBufferTooShort
                | flags # r \<Rightarrow>
                    case (if flags AND 0x02 \<noteq> 0
                          then (case selector_read_from r of Inl e \<Rightarrow> Inl e | Inr s \<Rightarrow> Inr (Some s))
                          else Inr None) of
                      Inl e \<Rightarrow> Inl e
                    | Inr selector \<Rightarrow> Inr \<lparr>int_name = n, int_nonce = nonce,
                        int_lifetime = from_millis (unat lifetime_ms), int_can_be_prefix = (flags AND 0x01 \<noteq> 0),
                        int_selector = selector\<rparr>))"

text \<open>The interests the wire format can carry, the lifetime apart.\<close>

definition interest_wf :: "interest \<Rightarrow> bool" where
  "interest_wf i \<longleftrightarrow> name_wf (int_name i) \<and> length (int_nonce i) = 8 \<and>
     (\<forall>s. int_selector i = Some s \<longrightarrow> selector_wf s)"

lemma min_u32_max [simp]: "min x (0xFFFFFFFF :: u32) = x"
  using unat_u32_less [of x] by (simp add: min_def word_le_nat_alt)

lemma length_concat_comps_le:
  "list_all (\<lambda>c. length c \<le> 255) cs \<Longrightarrow> length (concat (map comp_bytes cs)) \<le> 256 * length cs"
  by (induction cs) auto

lemma name_to_bytes_length_le: "name_wf n \<Longrightarrow> length (name_to_bytes n) \<le> 8226"
  using length_concat_comps_le [of "nm_components n"]
  by (cases "nm_content_hash n") (auto simp: name_wf_def name_to_bytes_def MAX_COMPONENTS_def)

lemma unat_name_length:
  "name_wf n \<Longrightarrow> unat (of_nat (length (name_to_bytes n)) :: u64) = length (name_to_bytes n)"
  using name_to_bytes_length_le [of n] by (simp only: unat_of_nat) simp

lemma write_varint_length: "0 < k \<Longrightarrow> unat v < 2 ^ (7 * k) \<Longrightarrow> length (write_varint v) \<le> k"
proof (induction v arbitrary: k rule: write_varint.induct)
  case (1 v)
  show ?case
  proof (cases "v \<ge> 0x80")
    case True
    then have "128 \<le> unat v" by (simp add: word_le_nat_alt)
    then obtain j where k: "k = Suc j" "0 < j" using "1.prems" by (cases k; cases "k = 1") auto
    then have "unat (drop_bit 7 v) < 2 ^ (7 * j)"
      using "1.prems"(2) by (simp del: drop_bit_eq_div add: unat_drop_bit_div power_add less_mult_imp_div_less)
    with True k "1.IH" [OF True, of j] show ?thesis by (simp add: write_varint.simps [of v])
  qed (use "1.prems" in \<open>simp add: write_varint.simps [of v]\<close>)
qed

lemma write_varint_length_le: "length (write_varint v) \<le> 10"
  using write_varint_length [of 10 v] unat_u64_less [of v] by simp

lemma interest_dec_enc:
  assumes "interest_wf i"
  shows "interest_from_bytes (interest_to_bytes i @ rest) =
    Some (Inr (i\<lparr>int_lifetime := from_millis (as_millis (int_lifetime i) mod 2 ^ 32)\<rparr>))"
proof -
  let ?nb = "name_to_bytes (int_name i)"
  have nm: "name_from_bytes ?nb = Inr (int_name i)" and u: "unat (of_nat (length ?nb) :: u64) = length ?nb"
    and le: "length ?nb \<le> 8226"
    using assms by (simp_all add: interest_wf_def name_codec.roundtrip unat_name_length name_to_bytes_length_le)
  let ?v = "write_varint (of_nat (length ?nb))"
  have "\<not> 2 ^ 64 \<le> length ?v + length ?nb"
    using le write_varint_length_le [of "of_nat (length ?nb)"] by simp
  then show ?thesis
    using assms nm u
    by (cases i; cases "int_selector i"; cases "int_can_be_prefix i")
      (auto simp: interest_from_bytes_def interest_to_bytes_def interest_wf_def Let_def
        selector_codec.dec_append unat_of_nat be_val_be_bytes)
qed

text \<open>C31. Every interest with a name and a selector that fit the format (at most 255 excluded hashes) survives
  the wire, whatever follows it, except for its lifetime: of that the whole milliseconds arrive, cut to
  their low 32 bits. The conversion to 32 bits comes before the minimum that was to cap it.\<close>

theorem interest_wire:
  assumes "interest_wf i"
  shows "interest_from_bytes (interest_to_bytes i @ rest) =
    Some (Inr (i\<lparr>int_lifetime := from_millis (as_millis (int_lifetime i) mod 2 ^ 32)\<rparr>))"
  using assms by (rule interest_dec_enc)

theorem interest_wire_witness:
  "interest_from_bytes (interest_to_bytes (interest_with_lifetime (interest_new (replicate 8 7)
     (name_new (replicate 32 1) [[97]])) (from_millis 4294967297 + 500000)) @ [5]) =
   Some (Inr (interest_with_lifetime (interest_new (replicate 8 7) (name_new (replicate 32 1) [[97]])) (from_millis 1)))"
  by (subst interest_wire)
    (simp_all add: interest_wf_def name_wf_def interest_new_def interest_with_lifetime_def name_new_def
      MAX_COMPONENTS_def)

lemma read_varint_max: "read_varint (replicate 9 0xFF @ 1 # rest) = Some (0xFFFFFFFFFFFFFFFF, 10)"
proof -
  have "write_varint 0xFFFFFFFFFFFFFFFF = replicate 9 0xFF @ [1]" by code_simp
  then show ?thesis using read_write_varint [of "0xFFFFFFFFFFFFFFFF" rest] by simp
qed

text \<open>Ten bytes crash the decoder of interests: a name length that overflows the position makes
  it panic, whatever follows; on every other input it returns.\<close>

theorem interest_from_bytes_panics:
  "interest_from_bytes (replicate 9 0xFF @ 1 # rest) = None \<and>
   (interest_from_bytes bs = None \<longleftrightarrow>
     (\<exists>v pos. read_varint bs = Some (v, pos) \<and> 2 ^ 64 \<le> pos + unat v))"
  by (auto simp: interest_from_bytes_def read_varint_max split: option.splits)

section \<open>Data packets\<close>

datatype DataError = DataBufferTooShort | DataInvalidName | DataInvalidSignature

datatype Freshness = Fresh | Stale (age: duration)

record data_metadata =
  md_content_hash :: "bytes option"
  md_sequence :: "u64 option"
  md_freshness :: Freshness

record icn_data =
  dat_name :: name
  dat_content :: bytes
  dat_signature :: lproof
  dat_metadata :: data_metadata

definition data_new :: "ext \<Rightarrow> name \<Rightarrow> bytes \<Rightarrow> lproof \<Rightarrow> icn_data" where
  "data_new E n content signature = \<lparr>dat_name = n, dat_content = content, dat_signature = signature,
     dat_metadata = \<lparr>md_content_hash = Some (blake3 E content), md_sequence = None, md_freshness = Fresh\<rparr>\<rparr>"

definition data_with_sequence :: "icn_data \<Rightarrow> u64 \<Rightarrow> icn_data" where
  "data_with_sequence d seq = d\<lparr>dat_metadata := (dat_metadata d)\<lparr>md_sequence := Some seq\<rparr>\<rparr>"

definition data_with_staleness :: "icn_data \<Rightarrow> duration \<Rightarrow> icn_data" where
  "data_with_staleness d a = d\<lparr>dat_metadata := (dat_metadata d)\<lparr>md_freshness := Stale a\<rparr>\<rparr>"

definition data_signed_hash :: "ext \<Rightarrow> icn_data \<Rightarrow> bytes" where
  "data_signed_hash E d = blake3 E (name_to_bytes (dat_name d) @ dat_content d)"

definition metadata_to_bytes :: "data_metadata \<Rightarrow> bytes" where
  "metadata_to_bytes m =
     flag_bits (md_content_hash m \<noteq> None) (md_sequence m \<noteq> None) (md_freshness m \<noteq> Fresh)
     # (case md_content_hash m of None \<Rightarrow> [] | Some h \<Rightarrow> h)
     @ (case md_sequence m of None \<Rightarrow> [] | Some q \<Rightarrow> u64_be q)
     @ (case md_freshness m of Fresh \<Rightarrow> [] | Stale a \<Rightarrow> be_bytes 8 (as_secs a))"

definition metadata_from_bytes :: "bytes \<Rightarrow> DataError + data_metadata" where
  "metadata_from_bytes bs =
     (case bs of
        [] \<Rightarrow> Inl DataBufferTooShort
      | flags # r \<Rightarrow>
          if flags AND 0x01 \<noteq> 0 \<and> length r < 32 then Inl DataBufferTooShort
          else let (content_hash, r) = (if flags AND 0x01 \<noteq> 0 then (Some (take 32 r), drop 32 r) else (None, r)) in
          if flags AND 0x02 \<noteq> 0 \<and> length r < 8 then Inl DataBufferTooShort
          else let (sequence, r) = (if flags AND 0x02 \<noteq> 0 then (Some (u64_of_be (take 8 r)), drop 8 r)
                                    else (None, r)) in
          if flags AND 0x04 \<noteq> 0 \<and> length r < 8 then Inl DataBufferTooShort
          else Inr \<lparr>md_content_hash = content_hash, md_sequence = sequence,
                 md_freshness = (if flags AND 0x04 \<noteq> 0 then Stale (from_secs (be_val (take 8 r))) else Fresh)\<rparr>)"

definition data_to_bytes :: "icn_data \<Rightarrow> bytes" where
  "data_to_bytes d =
     (let name_bytes = name_to_bytes (dat_name d);
          metadata_bytes = metadata_to_bytes (dat_metadata d);
          sig_bytes = proof_to_bytes (dat_signature d)
      in write_varint (of_nat (length name_bytes)) @ name_bytes
         @ u32_be (of_nat (length (dat_content d))) @ dat_content d
         @ write_varint (of_nat (length metadata_bytes)) @ metadata_bytes @ sig_bytes)"

text \<open>The two additions of a 64-bit length to a position panic as in \<open>interest_from_bytes\<close>; the
  second part of the decoder, from the metadata on, is a definition of its own. \<open>pos\<close> is the
  position of \<open>r\<close> in the buffer.\<close>

definition data_read_tail ::
  "name \<Rightarrow> bytes \<Rightarrow> nat \<Rightarrow> bytes \<Rightarrow> (DataError + icn_data) option" where
  "data_read_tail n content pos r =
     (case read_varint r of
        None \<Rightarrow> Some (Inl DataBufferTooShort)
      | Some (metadata_len, k) \<Rightarrow>
          if pos + k + unat metadata_len \<ge> 2 ^ 64 then None
          else if k + unat metadata_len > length r then Some (Inl DataBufferTooShort)
          else Some (
            case metadata_from_bytes (slice k (k + unat metadata_len) r) of
              Inl e \<Rightarrow> Inl e
            | Inr m \<Rightarrow>
                let r = drop (k + unat metadata_len) r in
                if length r < 96 then Inl DataBufferTooShort
                else (case proof_from_bytes (take 96 r) of
                    Inl _ \<Rightarrow> Inl DataInvalidSignature
                  | Inr p \<Rightarrow> Inr \<lparr>dat_name = n, dat_content = content, dat_signature = p,
                      dat_metadata = m\<rparr>)))"

definition data_from_bytes :: "bytes \<Rightarrow> (DataError + icn_data) option" where
  "data_from_bytes bs =
     (case read_varint bs of
        None \<Rightarrow> Some (Inl DataBufferTooShort)
      | Some (name_len, pos) \<Rightarrow>
          if pos + unat name_len \<ge> 2 ^ 64 then None
          else if pos + unat name_len > length bs then Some (Inl DataBufferTooShort)
          else (
            case name_from_bytes (slice pos (pos + unat name_len) bs) of
              Inl _ \<Rightarrow> Some (Inl DataInvalidName)
            | Inr n \<Rightarrow>
                let r = drop (pos + unat name_len) bs in
                if length r < 4 then Some (Inl DataBufferTooShort)
                else let content_len = be_val (take 4 r); r = drop 4 r in
                if length r < content_len then Some (Inl DataBufferTooShort)
                else data_read_tail n (take content_len r)
                  (pos + unat name_len + 4 + content_len) (drop content_len r)))"

definition metadata_wf :: "data_metadata \<Rightarrow> bool" where
  "metadata_wf m \<longleftrightarrow> (\<forall>h. md_content_hash m = Some h \<longrightarrow> length h = 32) \<and>
     (\<forall>a. md_freshness m = Stale a \<longrightarrow> a mod from_secs 1 = 0 \<and> as_secs a < 2 ^ 64)"

definition data_wf :: "icn_data \<Rightarrow> bool" where
  "data_wf d \<longleftrightarrow> name_wf (dat_name d) \<and> length (dat_content d) < 2 ^ 32 \<and>
     metadata_wf (dat_metadata d) \<and> proof_wf (dat_signature d)"

lemma overlong_data: "data_from_bytes (replicate 9 0xFF @ 1 # rest) = None"
  by (simp add: data_from_bytes_def read_varint_max)

lemma be_val_8: "v < 18446744073709551616 \<Longrightarrow> be_val (be_bytes 8 v) = v"
  by (simp add: be_val_be_bytes)

interpretation metadata_codec: prefix_codec metadata_to_bytes metadata_from_bytes metadata_wf
proof
  fix m :: data_metadata and rest
  assume "metadata_wf m"
  then show "metadata_from_bytes (metadata_to_bytes m @ rest) = Inr m"
    by (cases m; cases "md_content_hash m"; cases "md_sequence m"; cases "md_freshness m")
      (auto simp: metadata_from_bytes_def metadata_to_bytes_def metadata_wf_def be_val_8)
qed

lemma metadata_length: "metadata_wf m \<Longrightarrow> length (metadata_to_bytes m) \<le> 49"
  by (cases "md_content_hash m"; cases "md_sequence m"; cases "md_freshness m")
    (auto simp: metadata_to_bytes_def metadata_wf_def)

lemma data_read_tail_append:
  assumes m: "metadata_wf m" and p: "proof_wf p" and pos: "pos < 2 ^ 63"
  shows "data_read_tail n content pos
    (write_varint (of_nat (length (metadata_to_bytes m))) @ metadata_to_bytes m @ proof_to_bytes p @ rest) =
    Some (Inr \<lparr>dat_name = n, dat_content = content, dat_signature = p, dat_metadata = m\<rparr>)"
proof -
  let ?mb = "metadata_to_bytes m" and ?pb = "proof_to_bytes p"
  let ?v = "write_varint (of_nat (length ?mb))"
  have u: "unat (of_nat (length ?mb) :: u64) = length ?mb"
    using metadata_length [OF m] by (simp only: unat_of_nat) simp
  have "\<not> 2 ^ 64 \<le> pos + length ?v + length ?mb"
    using metadata_length [OF m] write_varint_length_le [of "of_nat (length ?mb)"] pos by simp
  moreover have "length ?pb = 96"
    using p by (simp add: proof_to_bytes_def proof_wf_def)
  ultimately show ?thesis
    using u metadata_codec.roundtrip [OF m] proof_codec.roundtrip [OF p]
    by (simp add: data_read_tail_def Let_def)
qed

lemma data_dec_enc:
  assumes "data_wf d"
  shows "data_from_bytes (data_to_bytes d @ rest) = Some (Inr d)"
proof -
  let ?nb = "name_to_bytes (dat_name d)" and ?c = "dat_content d"
  let ?v = "write_varint (of_nat (length ?nb))"
  have nm: "name_from_bytes ?nb = Inr (dat_name d)" and u: "unat (of_nat (length ?nb) :: u64) = length ?nb"
    and le: "length ?nb \<le> 8226" and c: "length ?c < 4294967296"
    using assms by (simp_all add: data_wf_def name_codec.roundtrip unat_name_length name_to_bytes_length_le)
  have v: "length ?v \<le> 10" by (rule write_varint_length_le)
  have "\<not> 2 ^ 64 \<le> length ?v + length ?nb" and "length ?v + length ?nb + 4 + length ?c < 2 ^ 63"
    using le v c by simp_all
  moreover have "unat (of_nat (length ?c) :: u32) = length ?c" using c by (rule unat_of_nat_u32)
  moreover have "length ?c mod 256 ^ 4 = length ?c" using c by simp
  ultimately show ?thesis
    using assms nm u
    by (simp add: data_from_bytes_def data_to_bytes_def data_wf_def Let_def be_val_be_bytes
        data_read_tail_append)
qed

text \<open>Every well-formed data packet (content below 4 GiB, an age in whole seconds) survives the
  wire, whatever follows it, with its name, content, metadata and proof.\<close>

theorem data_wire:
  assumes "data_wf d"
  shows "data_from_bytes (data_to_bytes d @ rest) = Some (Inr d)"
  using assms by (rule data_dec_enc)

theorem data_wire_witness:
  "let d = data_with_staleness (data_new ext_toy (name_new (replicate 32 1) [[97]]) [1, 2, 3]
       \<lparr>prf_packet_hash = replicate 32 4, prf_signature = replicate 64 5\<rparr>) (from_secs 2)
   in data_from_bytes (data_to_bytes d @ [9]) = Some (Inr d)"
  unfolding Let_def
  by (rule data_wire)
    (simp add: data_wf_def name_wf_def name_new_def MAX_COMPONENTS_def data_new_def data_with_staleness_def
      metadata_wf_def proof_wf_def hash_lengths)

end
