(* ===== verification/Icn_Fib.thy ===== *)
theory Icn_Fib
  imports Icn_Name
begin

text \<open>
  The forwarding information base (\<open>crates/icn/src/fib.rs\<close>): name prefixes with their faces in
  order of cost. The abstract view of the table is the partial function \<open>fib_route\<close> from prefix
  and face to cost; each operation is shown to act on it as its documentation says and to keep the
  table well formed, and the lookup is shown to be longest-prefix match.
\<close>

section \<open>Longest match\<close>

type_synonym FaceId = u64

text \<open>
  The scan that \<open>Fib::lookup\<close> and \<open>ContentStore::get_prefix\<close> share: over the entries in order,
  keep the first one that matches and is longer than every match before it.
\<close>

definition best_match :: "('e \<Rightarrow> bool) \<Rightarrow> ('e \<Rightarrow> nat) \<Rightarrow> 'e list \<Rightarrow> 'e option" where
  "best_match matches len es =
     foldl (\<lambda>best e. if matches e
         then (case best of
             Some current \<Rightarrow> if len e > len current then Some e else best
           | None \<Rightarrow> Some e)
         else best) None es"

lemma best_match_snoc:
  "best_match p len (es @ [e]) =
     (if p e then (case best_match p len es of
         Some c \<Rightarrow> if len e > len c then Some e else Some c | None \<Rightarrow> Some e)
      else best_match p len es)"
  by (simp add: best_match_def split: option.splits)

lemma best_match_None: "best_match p len es = None \<longleftrightarrow> (\<forall>e \<in> set es. \<not> p e)"
proof (induction es rule: rev_induct)
  case (snoc e es)
  then show ?case by (auto simp: best_match_snoc split: option.splits)
qed (simp add: best_match_def)

lemma best_match_Some:
  "best_match p len es = Some e \<Longrightarrow>
     e \<in> set es \<and> p e \<and> (\<forall>e' \<in> set es. p e' \<longrightarrow> len e' \<le> len e)"
proof (induction es arbitrary: e rule: rev_induct)
  case (snoc x es)
  show ?case
  proof (cases "best_match p len es")
    case None
    then have "\<forall>e \<in> set es. \<not> p e" by (simp only: best_match_None)
    with None show ?thesis using snoc.prems by (auto simp: best_match_snoc split: if_splits)
  next
    case (Some c)
    with snoc.IH [of c] snoc.prems show ?thesis
      by (fastforce simp: best_match_snoc split: if_splits)
  qed
qed (simp add: best_match_def)

section \<open>The table\<close>

record fib_entry =
  fe_prefix :: name
  fe_faces :: "(FaceId \<times> u8) list"

record fib =
  fib_entries :: "fib_entry list"

definition fib_new :: fib where
  "fib_new = \<lparr>fib_entries = []\<rparr>"

text \<open>The cost of the first entry of the face is changed; without one, the face is pushed.\<close>

fun faces_update :: "(FaceId \<times> u8) list \<Rightarrow> FaceId \<Rightarrow> u8 \<Rightarrow> (FaceId \<times> u8) list" where
  "faces_update [] face cost = [(face, cost)]"
| "faces_update ((f, c) # fs) face cost =
     (if f = face then (f, cost) # fs else (f, c) # faces_update fs face cost)"

fun fib_insert_loop :: "fib_entry list \<Rightarrow> name \<Rightarrow> FaceId \<Rightarrow> u8 \<Rightarrow> fib_entry list" where
  "fib_insert_loop [] p face cost = [\<lparr>fe_prefix = p, fe_faces = [(face, cost)]\<rparr>]"
| "fib_insert_loop (e # es) p face cost =
     (if fe_prefix e = p
      then e\<lparr>fe_faces := sort_key snd (faces_update (fe_faces e) face cost)\<rparr> # es
      else e # fib_insert_loop es p face cost)"

definition fib_insert :: "fib \<Rightarrow> name \<Rightarrow> FaceId \<Rightarrow> u8 \<Rightarrow> fib" where
  "fib_insert t p face cost = t\<lparr>fib_entries := fib_insert_loop (fib_entries t) p face cost\<rparr>"

definition related :: "name \<Rightarrow> fib_entry \<Rightarrow> bool" where
  "related p e \<longleftrightarrow> name_starts_with (fe_prefix e) p \<or> name_starts_with p (fe_prefix e)"

definition fib_remove_face :: "fib \<Rightarrow> name \<Rightarrow> FaceId \<Rightarrow> fib" where
  "fib_remove_face t p face = t\<lparr>fib_entries :=
     filter (\<lambda>e. related p e \<longrightarrow> fe_faces e \<noteq> [])
       (map (\<lambda>e. if related p e then e\<lparr>fe_faces := filter (\<lambda>(f, _). f \<noteq> face) (fe_faces e)\<rparr> else e)
         (fib_entries t))\<rparr>"

definition fib_remove_prefix :: "fib \<Rightarrow> name \<Rightarrow> fib" where
  "fib_remove_prefix t p = t\<lparr>fib_entries :=
     filter (\<lambda>e. \<not> name_starts_with (fe_prefix e) p) (fib_entries t)\<rparr>"

definition fib_lookup :: "fib \<Rightarrow> name \<Rightarrow> (FaceId \<times> u8) list option" where
  "fib_lookup t n =
     map_option fe_faces
       (best_match (\<lambda>e. name_starts_with n (fe_prefix e)) (\<lambda>e. name_count (fe_prefix e)) (fib_entries t))"

section \<open>Well-formed tables\<close>

definition faces_wf :: "(FaceId \<times> u8) list \<Rightarrow> bool" where
  "faces_wf fs \<longleftrightarrow> fs \<noteq> [] \<and> distinct (map fst fs) \<and> sorted (map snd fs)"

definition fib_wf :: "fib \<Rightarrow> bool" where
  "fib_wf t \<longleftrightarrow> distinct (map fe_prefix (fib_entries t)) \<and> (\<forall>e \<in> set (fib_entries t). faces_wf (fe_faces e))"

text \<open>The abstract table: the cost of a face for a prefix.\<close>

definition fib_route :: "fib \<Rightarrow> name \<Rightarrow> FaceId \<Rightarrow> u8 option" where
  "fib_route t p =
     (case map_of (map (\<lambda>e. (fe_prefix e, fe_faces e)) (fib_entries t)) p of
        None \<Rightarrow> Map.empty | Some fs \<Rightarrow> map_of fs)"

lemma set_faces_update: "set (faces_update fs face cost) \<subseteq> insert (face, cost) (set fs)"
  by (induction fs face cost rule: faces_update.induct) auto

lemma faces_update_fst:
  "map fst (faces_update fs face cost) =
     (if face \<in> fst ` set fs then map fst fs else map fst fs @ [face])"
  by (induction fs face cost rule: faces_update.induct) auto

lemma faces_update_map: "map_of (faces_update fs face cost) = (map_of fs)(face \<mapsto> cost)"
  by (induction fs face cost rule: faces_update.induct) auto

lemma map_of_sort_key:
  "distinct (map fst fs) \<Longrightarrow> map_of (sort_key k fs) = map_of fs"
  by (rule map_of_inject_set [THEN iffD2, rotated -1])
    (simp_all add: distinct_map)

lemma faces_update_wf:
  assumes "faces_wf fs"
  shows "faces_wf (sort_key snd (faces_update fs face cost))"
    and "map_of (sort_key snd (faces_update fs face cost)) = (map_of fs)(face \<mapsto> cost)"
proof -
  have d: "distinct (map fst (faces_update fs face cost))"
    using assms by (auto simp: faces_update_fst faces_wf_def)
  moreover have "faces_update fs face cost \<noteq> []"
    by (cases "(fs, face, cost)" rule: faces_update.cases) auto
  then have "sort_key snd (faces_update fs face cost) \<noteq> []" by (metis length_sort length_0_conv)
  ultimately show "faces_wf (sort_key snd (faces_update fs face cost))"
    by (simp add: faces_wf_def distinct_map)
  show "map_of (sort_key snd (faces_update fs face cost)) = (map_of fs)(face \<mapsto> cost)"
    using d by (simp add: map_of_sort_key faces_update_map)
qed


lemma fib_insert_loop_prefixes:
  "map fe_prefix (fib_insert_loop es p face cost) =
     (if p \<in> fe_prefix ` set es then map fe_prefix es else map fe_prefix es @ [p])"
  by (induction es p face cost rule: fib_insert_loop.induct) auto

lemma fib_insert_loop_wf:
  "\<forall>e \<in> set es. faces_wf (fe_faces e) \<Longrightarrow>
     \<forall>e \<in> set (fib_insert_loop es p face cost). faces_wf (fe_faces e)"
  by (induction es p face cost rule: fib_insert_loop.induct)
    (auto simp: faces_update_wf, simp add: faces_wf_def)

lemma fib_insert_wf: "fib_wf t \<Longrightarrow> fib_wf (fib_insert t p face cost)"
  using fib_insert_loop_wf [of "fib_entries t" p face cost]
  by (auto simp: fib_wf_def fib_insert_def fib_insert_loop_prefixes)

lemma fib_remove_face_wf: "fib_wf t \<Longrightarrow> fib_wf (fib_remove_face t p face)"
proof -
  assume wf: "fib_wf t"
  let ?f = "\<lambda>e. if related p e then e\<lparr>fe_faces := filter (\<lambda>(f, _). f \<noteq> face) (fe_faces e)\<rparr> else e"
  have "map fe_prefix (map ?f es) = map fe_prefix es" for es by (simp cong: if_cong)
  then have "distinct (map fe_prefix (map ?f (fib_entries t)))"
    using wf by (simp only: fib_wf_def)
  then have "distinct (map fe_prefix (fib_entries (fib_remove_face t p face)))"
    by (simp only: fib_remove_face_def fib.simps fib.surjective) (simp add: distinct_map_filter)
  moreover have "faces_wf (fe_faces e)" if "e \<in> set (fib_entries (fib_remove_face t p face))" for e
  proof -
    from that obtain d where d: "d \<in> set (fib_entries t)" "e = ?f d" "related p e \<longrightarrow> fe_faces e \<noteq> []"
      by (auto simp: fib_remove_face_def)
    then have "faces_wf (fe_faces d)" using wf by (simp add: fib_wf_def)
    with d show ?thesis
      by (auto simp: faces_wf_def related_def distinct_map_filter sorted_filter split: if_splits)
  qed
  ultimately show ?thesis by (simp add: fib_wf_def)
qed

lemma fib_remove_prefix_wf: "fib_wf t \<Longrightarrow> fib_wf (fib_remove_prefix t p)"
  by (simp add: fib_wf_def fib_remove_prefix_def distinct_map_filter)


section \<open>The operations on the abstract table\<close>

abbreviation (input) alist :: "fib_entry list \<Rightarrow> (name \<times> (FaceId \<times> u8) list) list" where
  "alist \<equiv> map (\<lambda>e. (fe_prefix e, fe_faces e))"

lemma fib_insert_loop_alist:
  "\<forall>e \<in> set es. faces_wf (fe_faces e) \<Longrightarrow>
     map_option map_of (map_of (alist (fib_insert_loop es p face cost)) q) =
       (if q = p then Some ((case map_of (alist es) p of None \<Rightarrow> Map.empty | Some fs \<Rightarrow> map_of fs)(face \<mapsto> cost))
        else map_option map_of (map_of (alist es) q))"
  by (induction es p face cost rule: fib_insert_loop.induct) (auto simp: faces_update_wf)

lemma fib_route_alt:
  "fib_route t p = (case map_option map_of (map_of (alist (fib_entries t)) p) of
     None \<Rightarrow> Map.empty | Some m \<Rightarrow> m)"
  by (simp add: fib_route_def split: option.splits)

text \<open>Inserting a route sets the cost of that face for that prefix, whether the prefix or the
  face was known or not, and changes no other route.\<close>

lemma fib_insert_route:
  "fib_wf t \<Longrightarrow> fib_route (fib_insert t p face cost) = (fib_route t)(p := (fib_route t p)(face \<mapsto> cost))"
  by (rule ext)
    (simp add: fib_route_alt fib_insert_def fib_insert_loop_alist fib_wf_def
      fib_route_def [of t p, symmetric] split: option.splits)

lemma map_of_filter_key: "map_of (filter (\<lambda>(k, _). P k) xs) k = (if P k then map_of xs k else None)"
  by (induction xs) auto

lemma map_of_alist_Some:
  "distinct (map fe_prefix es) \<Longrightarrow>
     map_of (alist es) p = Some fs \<longleftrightarrow> (\<exists>e \<in> set es. fe_prefix e = p \<and> fe_faces e = fs)"
  by (subst map_of_eq_Some_iff) (auto simp: comp_def)

lemma fib_route_Some:
  "fib_wf t \<Longrightarrow> fib_route t p f = Some c \<longleftrightarrow>
     (\<exists>e \<in> set (fib_entries t). fe_prefix e = p \<and> (f, c) \<in> set (fe_faces e))"
proof (cases "map_of (alist (fib_entries t)) p")
  case None
  then have "\<forall>e \<in> set (fib_entries t). fe_prefix e \<noteq> p" by (auto simp: map_of_eq_None_iff image_iff)
  with None show ?thesis by (auto simp: fib_route_def)
next
  case (Some fs)
  assume wf: "fib_wf t"
  then have d: "distinct (map fe_prefix (fib_entries t))" by (simp add: fib_wf_def)
  then obtain e where e: "e \<in> set (fib_entries t)" "fe_prefix e = p" "fe_faces e = fs"
    using Some by (auto simp: map_of_alist_Some)
  have uniq: "e' = e" if "e' \<in> set (fib_entries t)" "fe_prefix e' = p" for e'
    using d e that by (auto simp: distinct_map dest: inj_onD)
  have "distinct (map fst fs)" using wf e by (auto simp: fib_wf_def faces_wf_def)
  then have "fib_route t p f = Some c \<longleftrightarrow> (f, c) \<in> set fs"
    using Some by (simp add: fib_route_def)
  then show ?thesis using e uniq by blast
qed

lemma fib_remove_face_entries:
  "(\<exists>e \<in> set (fib_entries (fib_remove_face t p face)). fe_prefix e = q \<and> (f, c) \<in> set (fe_faces e)) \<longleftrightarrow>
   (\<exists>d \<in> set (fib_entries t). fe_prefix d = q \<and> (f, c) \<in> set (fe_faces d) \<and> \<not> (f = face \<and> related p d))"
    (is "?l \<longleftrightarrow> ?r")
proof
  assume ?r
  then obtain d where d: "d \<in> set (fib_entries t)" "fe_prefix d = q" "(f, c) \<in> set (fe_faces d)"
    "\<not> (f = face \<and> related p d)" by blast
  let ?e = "if related p d then d\<lparr>fe_faces := filter (\<lambda>(f, _). f \<noteq> face) (fe_faces d)\<rparr> else d"
  have "?e \<in> set (fib_entries (fib_remove_face t p face))" "(f, c) \<in> set (fe_faces ?e)" "fe_prefix ?e = q"
    using d by (auto simp: fib_remove_face_def filter_empty_conv)
  then show ?l by blast
qed (auto simp: fib_remove_face_def related_def split: if_splits)

text \<open>Removing a face from a prefix removes its routes for every prefix above or below that
  prefix, and no other route.\<close>

lemma fib_remove_face_route:
  assumes "fib_wf t"
  shows "fib_route (fib_remove_face t p face) q f =
    (if f = face \<and> (name_starts_with q p \<or> name_starts_with p q) then None else fib_route t q f)"
    (is "?l = ?r")
proof -
  have "?l = Some c \<longleftrightarrow> ?r = Some c" for c
    unfolding fib_route_Some [OF fib_remove_face_wf [OF assms]] fib_remove_face_entries
    by (auto simp: fib_route_Some [OF assms] related_def)
  then show ?thesis by (metis not_Some_eq)
qed

lemma fib_remove_prefix_route:
  assumes "fib_wf t"
  shows "fib_route (fib_remove_prefix t p) q = (if name_starts_with q p then Map.empty else fib_route t q)"
    (is "?l = ?r")
proof
  fix f
  have "?l f = Some c \<longleftrightarrow> ?r f = Some c" for c
    unfolding fib_route_Some [OF fib_remove_prefix_wf [OF assms]]
    by (auto simp: fib_route_Some [OF assms] fib_remove_prefix_def)
  then show "?l f = ?r f" by (metis not_Some_eq)
qed

section \<open>Longest-prefix match\<close>

text \<open>
  What a lookup promises: the routes of the longest prefix of the name that has any, cheapest
  first. Prefixes are compared by components; a content hash in a table entry is ignored.
\<close>

lemma fib_route_entry:
  "fib_wf t \<Longrightarrow> e \<in> set (fib_entries t) \<Longrightarrow> fib_route t (fe_prefix e) = map_of (fe_faces e)"
  using map_of_alist_Some [of "fib_entries t" "fe_prefix e" "fe_faces e"]
  by (auto simp: fib_route_def fib_wf_def)

lemma fib_route_nonempty:
  assumes "fib_wf t"
  shows "fib_route t p \<noteq> Map.empty \<longleftrightarrow> (\<exists>e \<in> set (fib_entries t). fe_prefix e = p)"
proof
  assume "fib_route t p \<noteq> Map.empty"
  then obtain f c where "fib_route t p f = Some c" by (metis not_Some_eq ext)
  then show "\<exists>e \<in> set (fib_entries t). fe_prefix e = p" by (auto simp: fib_route_Some [OF assms])
next
  assume "\<exists>e \<in> set (fib_entries t). fe_prefix e = p"
  then obtain e where e: "e \<in> set (fib_entries t)" "fe_prefix e = p" by blast
  then have "fe_faces e \<noteq> []" using assms by (auto simp: fib_wf_def faces_wf_def)
  then show "fib_route t p \<noteq> Map.empty"
    using fib_route_entry [OF assms e(1)] e(2) by (cases "fe_faces e") auto
qed

lemma fib_lookup_lpm:
  assumes "fib_wf t"
  shows "case fib_lookup t n of
      None \<Rightarrow> \<forall>q. name_is_prefix_of q n \<longrightarrow> fib_route t q = Map.empty
    | Some fs \<Rightarrow> \<exists>p. name_is_prefix_of p n \<and> fib_route t p = map_of fs \<and> fs \<noteq> [] \<and>
        distinct (map fst fs) \<and> sorted (map snd fs) \<and>
        (\<forall>q. name_is_prefix_of q n \<longrightarrow> fib_route t q \<noteq> Map.empty \<longrightarrow> name_count q \<le> name_count p)"
proof -
  let ?b = "best_match (\<lambda>e. name_starts_with n (fe_prefix e)) (\<lambda>e. name_count (fe_prefix e)) (fib_entries t)"
  show ?thesis
  proof (cases ?b)
    case None
    then have "\<forall>e \<in> set (fib_entries t). \<not> name_is_prefix_of (fe_prefix e) n"
      by (simp add: best_match_None)
    then have "fib_route t q = Map.empty" if "name_is_prefix_of q n" for q
      using fib_route_nonempty [OF assms, of q] that by blast
    then show ?thesis using None by (simp add: fib_lookup_def)
  next
    case (Some e)
    from best_match_Some [OF this]
    have e: "e \<in> set (fib_entries t)" "name_is_prefix_of (fe_prefix e) n"
      and max: "\<And>e'. e' \<in> set (fib_entries t) \<Longrightarrow> name_is_prefix_of (fe_prefix e') n \<Longrightarrow>
        name_count (fe_prefix e') \<le> name_count (fe_prefix e)"
      by auto
    have "faces_wf (fe_faces e)" using assms e by (simp add: fib_wf_def)
    then show ?thesis
      using Some e max fib_route_nonempty [OF assms]
      by (auto simp: fib_lookup_def faces_wf_def fib_route_entry [OF assms e(1)] intro!: exI [of _ "fe_prefix e"])
  qed
qed

text \<open>C30. 
  A lookup in a well-formed table is longest-prefix match: it fails exactly when no prefix of the
  name has a route, and otherwise returns the routes of a longest such prefix, each face once,
  in order of cost.
\<close>

theorem fib_lookup_longest:
  assumes "fib_wf t"
  shows "case fib_lookup t n of
      None \<Rightarrow> \<forall>q. name_is_prefix_of q n \<longrightarrow> fib_route t q = Map.empty
    | Some fs \<Rightarrow> \<exists>p. name_is_prefix_of p n \<and> fib_route t p = map_of fs \<and> fs \<noteq> [] \<and>
        distinct (map fst fs) \<and> sorted (map snd fs) \<and>
        (\<forall>q. name_is_prefix_of q n \<longrightarrow> fib_route t q \<noteq> Map.empty \<longrightarrow> name_count q \<le> name_count p)"
  using fib_lookup_lpm [OF assms] .

lemma fib_new_wf [simp]: "fib_wf fib_new"
  by (simp add: fib_wf_def fib_new_def)

theorem fib_lookup_longest_witness:
  "let t = fib_insert (fib_insert fib_new (name_new [1] []) 5 9) (name_new [1] [[2]]) 6 3 in
   case fib_lookup t (name_new [1] [[2], [3]]) of
      None \<Rightarrow> False
    | Some fs \<Rightarrow> fs = [(6, 3)] \<and> (\<exists>p. fib_route t p = map_of fs \<and>
        (\<forall>q. name_is_prefix_of q (name_new [1] [[2], [3]]) \<longrightarrow> fib_route t q \<noteq> Map.empty \<longrightarrow>
          name_count q \<le> name_count p))"
proof -
  let ?t = "fib_insert (fib_insert fib_new (name_new [1] []) 5 9) (name_new [1] [[2]]) 6 3"
  have "fib_lookup ?t (name_new [1] [[2], [3]]) = Some [(6, 3)]"
    by (simp add: fib_lookup_def fib_insert_def fib_new_def name_new_def best_match_def name_count_def)
  moreover have "fib_wf ?t" by (simp add: fib_insert_wf)
  note fib_lookup_longest [OF this, of "name_new [1] [[2], [3]]"]
  ultimately show ?thesis unfolding Let_def by (simp only: option.case) blast
qed

text \<open>C20. 
  The three updates on the abstract table, for a well-formed table, which they keep well formed:
  an insertion sets one cost; \<open>remove_prefix\<close> clears every route at or below the prefix; \<open>remove_face\<close> clears
  the routes to the face for the prefix and for every prefix above or below it. The documentation of
  \<open>remove_face\<close> promises less, the removal from the one prefix it is given: the theorem states what the code
  does, and its witness is a table where the two differ.
\<close>

theorem fib_updates_refine:
  assumes "fib_wf t"
  shows "fib_wf (fib_insert t p face cost) \<and> fib_wf (fib_remove_face t p face) \<and> fib_wf (fib_remove_prefix t p) \<and>
    fib_route (fib_insert t p face cost) = (fib_route t)(p := (fib_route t p)(face \<mapsto> cost)) \<and>
    fib_route (fib_remove_face t p face) =
      (\<lambda>q f. if f = face \<and> (name_is_prefix_of p q \<or> name_is_prefix_of q p) then None else fib_route t q f) \<and>
    fib_route (fib_remove_prefix t p) =
      (\<lambda>q. if name_is_prefix_of p q then Map.empty else fib_route t q)"
  using assms
  by (intro conjI ext)
    (simp_all add: fib_insert_wf fib_remove_face_wf fib_remove_prefix_wf fib_insert_route
      fib_remove_face_route fib_remove_prefix_route)

theorem fib_updates_refine_witness:
  "fib_route (fib_remove_face (fib_insert fib_new (name_new [1] [[2]]) 6 3) (name_new [1] []) 6) = (\<lambda>q. Map.empty)"
proof -
  have "fib_wf (fib_insert fib_new (name_new [1] [[2]]) 6 3)"
    using fib_updates_refine [OF fib_new_wf] by blast
  from fib_updates_refine [OF this, of "name_new [1] []" 6]
  have "fib_route (fib_remove_face (fib_insert fib_new (name_new [1] [[2]]) 6 3) (name_new [1] []) 6) =
      (\<lambda>q f. if f = 6 \<and> (name_is_prefix_of (name_new [1] []) q \<or> name_is_prefix_of q (name_new [1] []))
        then None else fib_route (fib_insert fib_new (name_new [1] [[2]]) 6 3) q f)" by blast
  then show ?thesis
    by (auto simp: fun_eq_iff fib_insert_route fib_route_def fib_new_def name_new_def fib_insert_def)
qed

section \<open>The interface of a routing table\<close>

text \<open>What the forwarder relies on: a table whose lookups answer from the routes below the name,
  and whose insertions add routes.\<close>

locale route_table =
  fixes wf :: "'t \<Rightarrow> bool"
    and route :: "'t \<Rightarrow> name \<Rightarrow> FaceId \<Rightarrow> u8 option"
    and ins :: "'t \<Rightarrow> name \<Rightarrow> FaceId \<Rightarrow> u8 \<Rightarrow> 't"
    and look :: "'t \<Rightarrow> name \<Rightarrow> (FaceId \<times> u8) list option"
  assumes ins_wf: "wf t \<Longrightarrow> wf (ins t p f c)"
    and ins_route: "wf t \<Longrightarrow> route (ins t p f c) = (route t)(p := (route t p)(f \<mapsto> c))"
    and look_None: "wf t \<Longrightarrow> look t n = None \<Longrightarrow> name_is_prefix_of q n \<Longrightarrow> route t q = Map.empty"
    and look_Some: "wf t \<Longrightarrow> look t n = Some fs \<Longrightarrow> fs \<noteq> []"
begin

lemma look_after_insert:
  "wf t \<Longrightarrow> name_is_prefix_of p n \<Longrightarrow> \<exists>fs. look (ins t p f c) n = Some fs \<and> fs \<noteq> []"
  using look_None [of "ins t p f c" n p] look_Some [of "ins t p f c" n]
  by (cases "look (ins t p f c) n") (auto simp: ins_wf ins_route)

end

interpretation fib_table: route_table fib_wf fib_route fib_insert fib_lookup
proof
  fix t n q fs
  assume wf: "fib_wf t"
  show "fib_lookup t n = None \<Longrightarrow> name_is_prefix_of q n \<Longrightarrow> fib_route t q = Map.empty"
    using fib_lookup_lpm [OF wf, of n] by simp
  show "fib_lookup t n = Some fs \<Longrightarrow> fs \<noteq> []"
    using fib_lookup_lpm [OF wf, of n] by auto
qed (simp_all add: fib_insert_wf fib_insert_route)

end
