(* ===== verification/Icn_Store.thy ===== *)
theory Icn_Store
  imports Icn_Interest Icn_Fib
begin

text \<open>
  The content store (\<open>crates/icn/src/cs.rs\<close>): an LRU cache of data packets by name. The cache
  itself is \<open>LruCache\<close> of the \<open>lru\<close> crate, a parameter: the record \<open>lru_ops\<close> of its operations on an
  opaque type of caches, with \<open>lru_ok\<close> saying what the crate documents of them. \<open>lru_list\<close> is a
  concrete cache that satisfies it.
\<close>

record cached_data =
  cd_data :: icn_data
  cd_inserted_at :: instant

section \<open>The cache as a parameter\<close>

record 'c lru_ops =
  lru_new :: "nat \<Rightarrow> 'c"
  lru_get :: "'c \<Rightarrow> name \<Rightarrow> 'c \<times> cached_data option"
  lru_put :: "'c \<Rightarrow> name \<Rightarrow> cached_data \<Rightarrow> 'c \<times> cached_data option"
  lru_peek :: "'c \<Rightarrow> name \<Rightarrow> cached_data option"
  \<comment> \<open>from most to least recently used\<close>
  lru_iter :: "'c \<Rightarrow> (name \<times> cached_data) list"
  lru_cap :: "'c \<Rightarrow> nat"

abbreviation (input) but :: "name \<Rightarrow> (name \<times> cached_data) list \<Rightarrow> (name \<times> cached_data) list" where
  "but k xs \<equiv> filter (\<lambda>(k', _). k' \<noteq> k) xs"

definition lru_ok :: "'c lru_ops \<Rightarrow> bool" where
  "lru_ok L \<longleftrightarrow>
     (\<forall>n. lru_iter L (lru_new L n) = [] \<and> lru_cap L (lru_new L n) = n) \<and>
     (\<forall>c k. lru_peek L c k = map_of (lru_iter L c) k) \<and>
     (\<forall>c k. snd (lru_get L c k) = map_of (lru_iter L c) k \<and>
        lru_cap L (fst (lru_get L c k)) = lru_cap L c \<and>
        lru_iter L (fst (lru_get L c k)) =
          (case map_of (lru_iter L c) k of None \<Rightarrow> lru_iter L c | Some v \<Rightarrow> (k, v) # but k (lru_iter L c))) \<and>
     (\<forall>c k v. snd (lru_put L c k v) = map_of (lru_iter L c) k \<and>
        lru_cap L (fst (lru_put L c k v)) = lru_cap L c \<and>
        lru_iter L (fst (lru_put L c k v)) =
          (case map_of (lru_iter L c) k of
             None \<Rightarrow> (k, v) # take (lru_cap L c - 1) (lru_iter L c)
           | Some _ \<Rightarrow> (k, v) # but k (lru_iter L c)))"

definition lru_list :: "(nat \<times> (name \<times> cached_data) list) lru_ops" where
  "lru_list = \<lparr>lru_new = (\<lambda>n. (n, [])),
     lru_get = (\<lambda>(n, xs) k. case map_of xs k of
       None \<Rightarrow> ((n, xs), None) | Some v \<Rightarrow> ((n, (k, v) # but k xs), Some v)),
     lru_put = (\<lambda>(n, xs) k v. case map_of xs k of
       None \<Rightarrow> ((n, (k, v) # take (n - 1) xs), None) | Some u \<Rightarrow> ((n, (k, v) # but k xs), Some u)),
     lru_peek = (\<lambda>(n, xs) k. map_of xs k), lru_iter = snd, lru_cap = fst\<rparr>"

lemma lru_list_ok [simp]: "lru_ok lru_list"
  by (auto simp: lru_ok_def lru_list_def split: option.splits)

section \<open>The store\<close>

record 'c content_store =
  cs_entries :: 'c
  cs_hits :: u64
  cs_misses :: u64

definition cs_new :: "'c lru_ops \<Rightarrow> nat \<Rightarrow> 'c content_store" where
  "cs_new L max_entries = \<lparr>cs_entries = lru_new L (max max_entries 1), cs_hits = 0, cs_misses = 0\<rparr>"

definition cs_get :: "'c lru_ops \<Rightarrow> 'c content_store \<Rightarrow> name \<Rightarrow> 'c content_store \<times> icn_data option" where
  "cs_get L s n =
     (let (c, r) = lru_get L (cs_entries s) n in
      case r of
        Some entry \<Rightarrow> (s\<lparr>cs_entries := c, cs_hits := cs_hits s + 1\<rparr>, Some (cd_data entry))
      | None \<Rightarrow> (s\<lparr>cs_entries := c, cs_misses := cs_misses s + 1\<rparr>, None))"

definition cs_get_prefix :: "'c lru_ops \<Rightarrow> 'c content_store \<Rightarrow> name \<Rightarrow> 'c content_store \<times> icn_data option" where
  "cs_get_prefix L s p =
     (case best_match (\<lambda>(key, _). name_is_prefix_of key p) (\<lambda>(key, _). name_count key)
             (lru_iter L (cs_entries s)) of
        Some (key, _) \<Rightarrow> (s\<lparr>cs_hits := cs_hits s + 1\<rparr>, map_option cd_data (lru_peek L (cs_entries s) key))
      | None \<Rightarrow> (s\<lparr>cs_misses := cs_misses s + 1\<rparr>, None))"

definition cs_insert ::
  "'c lru_ops \<Rightarrow> instant \<Rightarrow> 'c content_store \<Rightarrow> name \<Rightarrow> icn_data \<Rightarrow> 'c content_store \<times> cached_data option" where
  "cs_insert L now s n d =
     (let (c, r) = lru_put L (cs_entries s) n \<lparr>cd_data = d, cd_inserted_at = now\<rparr>
      in (s\<lparr>cs_entries := c\<rparr>, r))"

definition cs_contains :: "'c lru_ops \<Rightarrow> 'c content_store \<Rightarrow> name \<Rightarrow> bool" where
  "cs_contains L s n \<longleftrightarrow> lru_peek L (cs_entries s) n \<noteq> None"

definition cs_len :: "'c lru_ops \<Rightarrow> 'c content_store \<Rightarrow> nat" where
  "cs_len L s = length (lru_iter L (cs_entries s))"

section \<open>Behaviour\<close>

text \<open>The contents of a store as a map, and its invariant: within capacity, one entry per name,
  each data packet filed under its own name when it is inserted so.\<close>

definition cs_map :: "'c lru_ops \<Rightarrow> 'c content_store \<Rightarrow> name \<rightharpoonup> icn_data" where
  "cs_map L s = map_option cd_data \<circ> map_of (lru_iter L (cs_entries s))"

definition cs_wf :: "'c lru_ops \<Rightarrow> 'c content_store \<Rightarrow> bool" where
  "cs_wf L s \<longleftrightarrow> 0 < lru_cap L (cs_entries s) \<and> cs_len L s \<le> lru_cap L (cs_entries s) \<and>
     distinct (map fst (lru_iter L (cs_entries s)))"

lemma lru_facts:
  assumes "lru_ok L"
  shows "lru_iter L (lru_new L n) = []" and "lru_cap L (lru_new L n) = n"
    and "lru_peek L c k = map_of (lru_iter L c) k"
    and "snd (lru_get L c k) = map_of (lru_iter L c) k"
    and "lru_cap L (fst (lru_get L c k)) = lru_cap L c"
    and "lru_iter L (fst (lru_get L c k)) = (case map_of (lru_iter L c) k of
      None \<Rightarrow> lru_iter L c | Some v \<Rightarrow> (k, v) # but k (lru_iter L c))"
    and "snd (lru_put L c k v) = map_of (lru_iter L c) k"
    and "lru_cap L (fst (lru_put L c k v)) = lru_cap L c"
    and "lru_iter L (fst (lru_put L c k v)) = (case map_of (lru_iter L c) k of
      None \<Rightarrow> (k, v) # take (lru_cap L c - 1) (lru_iter L c) | Some _ \<Rightarrow> (k, v) # but k (lru_iter L c))"
  using assms unfolding lru_ok_def by blast+

lemma map_of_but: "map_of (but k xs) j = (if j = k then None else map_of xs j)"
  by (induction xs) auto

lemma map_of_take_Some: "map_of (take n xs) k = Some v \<Longrightarrow> map_of xs k = Some v"
  by (metis append_take_drop_id map_add_find_right map_of_append map_add_Some_iff)

lemma cs_new_wf: "lru_ok L \<Longrightarrow> cs_wf L (cs_new L n) \<and> cs_map L (cs_new L n) = Map.empty"
  by (simp add: cs_wf_def cs_new_def cs_map_def cs_len_def lru_facts)

lemma length_but: "(k, v) \<in> set xs \<Longrightarrow> length xs \<le> c \<Longrightarrow> Suc (length (but k xs)) \<le> c"
  using length_filter_less [of "(k, v)" xs "\<lambda>(k', _). k' \<noteq> k"] by simp


lemma cs_get_unfold:
  "lru_ok L \<Longrightarrow> snd (cs_get L s n) = cs_map L s n \<and>
     cs_entries (fst (cs_get L s n)) = fst (lru_get L (cs_entries s) n)"
  using lru_facts(4) [of L "cs_entries s" n]
  by (cases "map_of (lru_iter L (cs_entries s)) n")
    (auto simp: cs_get_def cs_map_def split: prod.splits)

lemma cs_get_keeps:
  assumes "lru_ok L"
  shows "cs_map L (fst (cs_get L s n)) = cs_map L s"
    and "cs_wf L s \<Longrightarrow> cs_wf L (fst (cs_get L s n))"
proof -
  let ?xs = "lru_iter L (cs_entries s)"
  have e: "cs_entries (fst (cs_get L s n)) = fst (lru_get L (cs_entries s) n)"
    using cs_get_unfold [OF assms] by simp
  show "cs_map L (fst (cs_get L s n)) = cs_map L s"
    by (rule ext) (auto simp: cs_map_def e lru_facts [OF assms] map_of_but split: option.splits)
  show "cs_wf L s \<Longrightarrow> cs_wf L (fst (cs_get L s n))"
    by (auto intro: length_but simp: cs_wf_def cs_len_def e lru_facts [OF assms] distinct_map_filter split: option.splits)
qed

lemma cs_insert_entries:
  "cs_entries (fst (cs_insert L now s n d)) =
     fst (lru_put L (cs_entries s) n \<lparr>cd_data = d, cd_inserted_at = now\<rparr>)"
  by (simp add: cs_insert_def split: prod.splits)

lemma cs_insert_wf:
  assumes "lru_ok L" and "cs_wf L s"
  shows "cs_wf L (fst (cs_insert L now s n d))"
proof -
  let ?xs = "lru_iter L (cs_entries s)"
  have "distinct (map fst (take k ?xs))" for k
    using assms(2) by (simp add: cs_wf_def take_map [symmetric])
  moreover have "n \<notin> fst ` set (take k ?xs)" if "map_of ?xs n = None" for k
    using that by (auto simp: map_of_eq_None_iff dest: in_set_takeD)
  ultimately show ?thesis
    using assms(2)
    by (auto intro: length_but simp: cs_wf_def cs_len_def cs_insert_entries lru_facts [OF assms(1)] distinct_map_filter
        split: option.splits)
qed

lemma cs_insert_map:
  assumes "lru_ok L"
  shows "cs_map L (fst (cs_insert L now s n d)) n = Some d"
    and "m \<noteq> n \<Longrightarrow> cs_map L (fst (cs_insert L now s n d)) m = Some x \<Longrightarrow> cs_map L s m = Some x"
    and "cs_contains L s n \<or> cs_len L s < lru_cap L (cs_entries s) \<Longrightarrow>
      cs_map L (fst (cs_insert L now s n d)) = (cs_map L s)(n \<mapsto> d)"
  by (auto simp: cs_map_def cs_insert_entries lru_facts [OF assms] map_of_but cs_contains_def cs_len_def
      fun_eq_iff dest: map_of_take_Some split: option.splits)

lemma map_of_butlast:
  "distinct (map fst xs) \<Longrightarrow> xs \<noteq> [] \<Longrightarrow>
     map_of (take (length xs - 1) xs) = (map_of xs)(fst (last xs) := None)"
proof (induction xs rule: rev_induct)
  case (snoc x xs)
  then have "fst x \<notin> fst ` set xs" by auto
  then show ?case using snoc.prems
    by (auto simp: fun_eq_iff map_of_append map_add_def map_of_eq_None_iff split: option.splits)
qed simp

text \<open>
  Inserting into a store: the new packet is found under its name; the packets of other names
  stay, except that a full store that did not hold the name loses its least recently used packet,
  and only that one. What is returned is the packet replaced under the same name, never the one
  evicted.
\<close>

theorem cs_insert_lru:
  assumes "lru_ok L" and "cs_wf L s"
  shows "cs_map L (fst (cs_insert L now s n d)) =
      (if cs_map L s n \<noteq> None \<or> cs_len L s < lru_cap L (cs_entries s) then cs_map L s
       else (cs_map L s)(fst (last (lru_iter L (cs_entries s))) := None))(n \<mapsto> d) \<and>
    map_option cd_data (snd (cs_insert L now s n d)) = cs_map L s n \<and>
    cs_wf L (fst (cs_insert L now s n d))"
proof (intro conjI)
  let ?xs = "lru_iter L (cs_entries s)"
  show "cs_wf L (fst (cs_insert L now s n d))" using assms by (rule cs_insert_wf)
  show "map_option cd_data (snd (cs_insert L now s n d)) = cs_map L s n"
    using lru_facts(7) [OF assms(1)] by (simp add: cs_insert_def cs_map_def split: prod.splits)
      (metis snd_conv)
  show "cs_map L (fst (cs_insert L now s n d)) =
      (if cs_map L s n \<noteq> None \<or> cs_len L s < lru_cap L (cs_entries s) then cs_map L s
       else (cs_map L s)(fst (last ?xs) := None))(n \<mapsto> d)"
  proof (cases "cs_map L s n \<noteq> None \<or> cs_len L s < lru_cap L (cs_entries s)")
    case True
    then show ?thesis
      using cs_insert_map(3) [OF assms(1)] by (auto simp: cs_contains_def cs_map_def lru_facts [OF assms(1)])
  next
    case False
    then have none: "map_of ?xs n = None" and full: "length ?xs = lru_cap L (cs_entries s)" "?xs \<noteq> []"
      using assms(2) by (auto simp: cs_wf_def cs_len_def cs_map_def)
    have "map_of (take (lru_cap L (cs_entries s) - 1) ?xs) = (map_of ?xs)(fst (last ?xs) := None)"
      using map_of_butlast [of ?xs] assms(2) full by (simp add: cs_wf_def)
    then show ?thesis
      using False by (auto simp: cs_map_def cs_insert_entries lru_facts [OF assms(1)] none fun_eq_iff)
  qed
qed

lemma cs_get_prefix_result:
  assumes "lru_ok L"
  shows "case snd (cs_get_prefix L s p) of
      None \<Rightarrow> \<forall>key. name_is_prefix_of key p \<longrightarrow> cs_map L s key = None
    | Some d \<Rightarrow> \<exists>key. name_is_prefix_of key p \<and> cs_map L s key = Some d \<and>
        (\<forall>q. name_is_prefix_of q p \<longrightarrow> cs_map L s q \<noteq> None \<longrightarrow> name_count q \<le> name_count key)"
proof -
  let ?xs = "lru_iter L (cs_entries s)"
  let ?b = "best_match (\<lambda>(key, _). name_is_prefix_of key p) (\<lambda>(key, _). name_count key) ?xs"
  have mem: "cs_map L s q \<noteq> None \<longleftrightarrow> q \<in> fst ` set ?xs" for q
    by (simp add: cs_map_def map_of_eq_None_iff)
  show ?thesis
  proof (cases ?b)
    case None
    then have "\<forall>e \<in> set ?xs. \<not> name_is_prefix_of (fst e) p"
      by (simp add: best_match_None case_prod_beta)
    then have "cs_map L s q = None" if "name_is_prefix_of q p" for q
      using mem [of q] that by fastforce
    then show ?thesis using None by (simp add: cs_get_prefix_def)
  next
    case (Some e)
    from best_match_Some [OF Some] have e: "e \<in> set ?xs" "name_is_prefix_of (fst e) p"
      "\<forall>e' \<in> set ?xs. name_is_prefix_of (fst e') p \<longrightarrow> name_count (fst e') \<le> name_count (fst e)"
      by (auto simp: case_prod_beta)
    then obtain d where d: "cs_map L s (fst e) = Some d" using mem [of "fst e"] by auto
    with Some have "snd (cs_get_prefix L s p) = Some d"
      by (simp add: cs_get_prefix_def cs_map_def lru_facts [OF assms] case_prod_beta)
    then show ?thesis using e d mem by (auto intro!: exI [of _ "fst e"])
  qed
qed

lemma cs_get_prefix_keeps [simp]:
  "cs_entries (fst (cs_get_prefix L s p)) = cs_entries s"
  by (simp add: cs_get_prefix_def split: option.splits prod.splits)

text \<open>
  The prefix lookup returns the cached packet with the longest name that is a prefix of the name
  asked for, and misses exactly when no cached name is one; it changes nothing but the counters.
  A cached name that extends the name asked for is never returned.
\<close>

theorem cs_get_prefix_longest:
  assumes "lru_ok L"
  shows "cs_map L (fst (cs_get_prefix L s p)) = cs_map L s \<and>
    (case snd (cs_get_prefix L s p) of
      None \<Rightarrow> \<forall>key. name_is_prefix_of key p \<longrightarrow> cs_map L s key = None
    | Some d \<Rightarrow> \<exists>key. name_is_prefix_of key p \<and> cs_map L s key = Some d \<and>
        (\<forall>q. name_is_prefix_of q p \<longrightarrow> cs_map L s q \<noteq> None \<longrightarrow> name_count q \<le> name_count key))"
  using cs_get_prefix_result [OF assms] by (simp add: cs_map_def)

section \<open>A small store\<close>

text \<open>Two packets of one producer, the name of the second below the first, in a store of one entry.\<close>

definition sample_data :: "bytes list \<Rightarrow> icn_data" where
  "sample_data path = data_new ext_toy (name_new (replicate 32 1) path) [42]
     \<lparr>prf_packet_hash = replicate 32 4, prf_signature = replicate 64 5\<rparr>"

definition sample_store :: "(nat \<times> (name \<times> cached_data) list) content_store" where
  "sample_store = fst (cs_insert lru_list 0 (cs_new lru_list 1) (dat_name (sample_data [])) (sample_data []))"

lemma sample_data_name [simp]: "dat_name (sample_data path) = name_new (replicate 32 1) path"
  by (simp add: sample_data_def data_new_def)

lemma name_new_eq [simp]: "name_new h p = name_new h' p' \<longleftrightarrow> h = h' \<and> p = p'"
  by (simp add: name_new_def)

lemma sample_store_wf: "cs_wf lru_list sample_store"
  unfolding sample_store_def by (rule cs_insert_wf) (simp_all add: cs_new_wf)

theorem cs_insert_lru_witness:
  "cs_map lru_list (fst (cs_insert lru_list 7 sample_store (name_new (replicate 32 1) [[2]]) (sample_data [[2]])))
     = [name_new (replicate 32 1) [[2]] \<mapsto> sample_data [[2]]] \<and>
   snd (cs_insert lru_list 7 sample_store (name_new (replicate 32 1) [[2]]) (sample_data [[2]])) = None"
proof -
  have m: "cs_map lru_list sample_store = [name_new (replicate 32 1) [] \<mapsto> sample_data []]"
    "\<not> cs_len lru_list sample_store < lru_cap lru_list (cs_entries sample_store)"
    "fst (last (lru_iter lru_list (cs_entries sample_store))) = name_new (replicate 32 1) []"
    by (simp_all add: sample_store_def cs_new_def cs_insert_def lru_list_def cs_map_def cs_len_def fun_eq_iff)
  show ?thesis
    using cs_insert_lru [OF lru_list_ok sample_store_wf, of 7 "name_new (replicate 32 1) [[2]]" "sample_data [[2]]"]
    by (simp add: m fun_upd_twist)
qed

theorem cs_get_prefix_longest_witness:
  "snd (cs_get_prefix lru_list sample_store (name_new (replicate 32 1) [[2]])) = Some (sample_data []) \<and>
   (\<exists>key. name_is_prefix_of key (name_new (replicate 32 1) [[2]]) \<and>
     cs_map lru_list sample_store key = Some (sample_data []))"
proof -
  have r: "snd (cs_get_prefix lru_list sample_store (name_new (replicate 32 1) [[2]])) = Some (sample_data [])"
    by (simp add: sample_store_def cs_new_def cs_insert_def lru_list_def cs_get_prefix_def best_match_def
        name_new_def)
  with cs_get_prefix_longest [OF lru_list_ok, of sample_store "name_new (replicate 32 1) [[2]]"]
  show ?thesis by auto
qed

end
