(* ===== verification/Icn_Pit.thy ===== *)
theory Icn_Pit
  imports Icn_Interest Icn_Fib
begin

text \<open>
  The pending interest table (\<open>crates/icn/src/pit.rs\<close>): pending interests by name, with the faces
  that asked, and the nonces of loop detection. Both hash maps are maps; \<open>Instant::now()\<close> is an
  argument. The table keeps, as an invariant, that every entry is filed under the name of its
  interest and lists each asking face once.
\<close>

record pit_entry =
  pe_interest :: interest
  pe_in_faces :: "FaceId list"
  pe_out_face :: "FaceId option"
  pe_expires_at :: instant
  pe_satisfied :: bool

datatype PitOp = PitInserted | PitAggregated

record pit =
  pit_entries :: "name \<rightharpoonup> pit_entry"
  pit_nonce_tracker :: "FaceId \<times> bytes \<rightharpoonup> instant"
  pit_nonce_ttl :: nat

definition pit_new :: pit where
  "pit_new = \<lparr>pit_entries = Map.empty, pit_nonce_tracker = Map.empty, pit_nonce_ttl = from_secs 60\<rparr>"

definition pit_find :: "pit \<Rightarrow> name \<Rightarrow> pit_entry option" where
  "pit_find t n = pit_entries t n"

definition pit_insert_or_aggregate ::
  "instant \<Rightarrow> pit \<Rightarrow> name \<Rightarrow> FaceId \<Rightarrow> interest \<Rightarrow> nat \<Rightarrow> pit \<times> PitOp" where
  "pit_insert_or_aggregate now t n in_face i timeout =
     (let fresh = (t\<lparr>pit_entries := (pit_entries t)(n \<mapsto>
            \<lparr>pe_interest = i, pe_in_faces = [in_face], pe_out_face = None,
             pe_expires_at = now + timeout, pe_satisfied = False\<rparr>)\<rparr>, PitInserted)
      in case pit_entries t n of
           Some e \<Rightarrow>
             if \<not> pe_satisfied e then
               (t\<lparr>pit_entries := (pit_entries t)(n \<mapsto>
                  (if in_face \<in> set (pe_in_faces e) then e
                   else e\<lparr>pe_in_faces := pe_in_faces e @ [in_face]\<rparr>))\<rparr>, PitAggregated)
             else fresh
         | None \<Rightarrow> fresh)"

definition pit_set_out_face :: "pit \<Rightarrow> name \<Rightarrow> FaceId \<Rightarrow> pit" where
  "pit_set_out_face t n out_face =
     (case pit_entries t n of
        Some e \<Rightarrow> t\<lparr>pit_entries := (pit_entries t)(n \<mapsto> e\<lparr>pe_out_face := Some out_face\<rparr>)\<rparr>
      | None \<Rightarrow> t)"

definition pit_satisfy :: "pit \<Rightarrow> name \<Rightarrow> pit \<times> FaceId list option" where
  "pit_satisfy t n =
     (case pit_entries t n of
        Some e \<Rightarrow> (t\<lparr>pit_entries := (pit_entries t)(n \<mapsto> e\<lparr>pe_satisfied := True\<rparr>)\<rparr>, Some (pe_in_faces e))
      | None \<Rightarrow> (t, None))"

text \<open>The entries removed are returned in the order of the hash map, which is unspecified; here
  they are the map of the removed entries.\<close>

definition pit_expired :: "instant \<Rightarrow> pit_entry \<Rightarrow> bool" where
  "pit_expired now e \<longleftrightarrow> pe_satisfied e \<or> pe_expires_at e \<le> now"

definition pit_purge_expired :: "instant \<Rightarrow> pit \<Rightarrow> pit \<times> (name \<rightharpoonup> pit_entry)" where
  "pit_purge_expired now t =
     (t\<lparr>pit_entries := (\<lambda>n. case pit_entries t n of
            Some e \<Rightarrow> if pit_expired now e then None else Some e | None \<Rightarrow> None),
        pit_nonce_tracker := (\<lambda>k. case pit_nonce_tracker t k of
            Some u \<Rightarrow> if u > now then Some u else None | None \<Rightarrow> None)\<rparr>,
      (\<lambda>n. case pit_entries t n of
            Some e \<Rightarrow> if pit_expired now e then Some e else None | None \<Rightarrow> None))"

definition pit_check_loop :: "pit \<Rightarrow> FaceId \<Rightarrow> bytes \<Rightarrow> bool" where
  "pit_check_loop t in_face nonce \<longleftrightarrow> pit_nonce_tracker t (in_face, nonce) \<noteq> None"

definition pit_record_nonce :: "instant \<Rightarrow> pit \<Rightarrow> FaceId \<Rightarrow> bytes \<Rightarrow> pit" where
  "pit_record_nonce now t in_face nonce =
     t\<lparr>pit_nonce_tracker := (pit_nonce_tracker t)((in_face, nonce) \<mapsto> now + pit_nonce_ttl t)\<rparr>"

lemmas pit_defs = pit_insert_or_aggregate_def pit_set_out_face_def pit_satisfy_def
  pit_purge_expired_def pit_record_nonce_def pit_find_def

section \<open>Invariant\<close>

definition pit_wf :: "pit \<Rightarrow> bool" where
  "pit_wf t \<longleftrightarrow> (\<forall>n e. pit_entries t n = Some e \<longrightarrow>
     int_name (pe_interest e) = n \<and> pe_in_faces e \<noteq> [] \<and> distinct (pe_in_faces e))"

lemma pit_new_wf [simp]: "pit_wf pit_new"
  by (simp add: pit_wf_def pit_new_def)

lemma pit_wf_ops:
  assumes "pit_wf t"
  shows "int_name i = n \<Longrightarrow> pit_wf (fst (pit_insert_or_aggregate now t n f i timeout))"
    and "pit_wf (pit_set_out_face t n g)" and "pit_wf (fst (pit_satisfy t n))"
    and "pit_wf (fst (pit_purge_expired now t))" and "pit_wf (pit_record_nonce now t f nonce)"
  using assms by (auto simp: pit_wf_def pit_defs Let_def split: option.splits if_splits)

section \<open>Aggregation\<close>

text \<open>
  Interests for one name between two purges: the first creates the entry, the others join it, and
  satisfying the entry returns every face that asked, each once, in the order of arrival.
\<close>

fun pit_insert_all :: "pit \<Rightarrow> name \<Rightarrow> (instant \<times> FaceId \<times> interest \<times> nat) list \<Rightarrow> pit \<times> PitOp list" where
  "pit_insert_all t n [] = (t, [])"
| "pit_insert_all t n ((now, f, i, timeout) # xs) =
     (let (t, r) = pit_insert_or_aggregate now t n f i timeout; (t, rs) = pit_insert_all t n xs
      in (t, r # rs))"

text \<open>The faces in order of first arrival.\<close>

definition join_face :: "FaceId list \<Rightarrow> FaceId \<Rightarrow> FaceId list" where
  "join_face acc f = (if f \<in> set acc then acc else acc @ [f])"

definition arrivals :: "FaceId list \<Rightarrow> FaceId list" where
  "arrivals fs = foldl join_face [] fs"

lemma pit_aggregate_step:
  "pit_entries t n = Some e \<Longrightarrow> \<not> pe_satisfied e \<Longrightarrow>
     pit_insert_or_aggregate now t n f i timeout =
       (t\<lparr>pit_entries := (pit_entries t)(n \<mapsto> e\<lparr>pe_in_faces := join_face (pe_in_faces e) f\<rparr>)\<rparr>, PitAggregated)"
  by (simp add: pit_insert_or_aggregate_def join_face_def)

lemma pit_insert_all_pending:
  "pit_entries t n = Some e \<Longrightarrow> \<not> pe_satisfied e \<Longrightarrow>
   \<exists>t'. pit_insert_all t n xs = (t', replicate (length xs) PitAggregated) \<and>
     pit_entries t' n = Some (e\<lparr>pe_in_faces := foldl join_face (pe_in_faces e) (map (\<lambda>(_, f, _). f) xs)\<rparr>)"
proof (induction xs arbitrary: t e)
  case (Cons x xs)
  obtain now f i timeout where x: "x = (now, f, i, timeout)" by (cases x)
  let ?e = "e\<lparr>pe_in_faces := join_face (pe_in_faces e) f\<rparr>"
  let ?t = "t\<lparr>pit_entries := (pit_entries t)(n \<mapsto> ?e)\<rparr>"
  from Cons.IH [of ?t ?e] Cons.prems
  obtain t' where "pit_insert_all ?t n xs = (t', replicate (length xs) PitAggregated)"
    "pit_entries t' n = Some (?e\<lparr>pe_in_faces := foldl join_face (pe_in_faces ?e) (map (\<lambda>(_, f, _). f) xs)\<rparr>)"
    by auto
  with Cons.prems show ?case by (auto simp: x pit_aggregate_step)
qed simp

text \<open>A first interest for a name opens an entry, all later ones join it until it is satisfied,
  and satisfying it returns the asking faces without repetition in order of arrival.\<close>

theorem pit_aggregates:
  assumes "pit_find t n = None \<or> (\<exists>e. pit_find t n = Some e \<and> pe_satisfied e)" and "xs \<noteq> []"
  shows "\<exists>t'. pit_insert_all t n xs = (t', PitInserted # replicate (length xs - 1) PitAggregated) \<and>
    snd (pit_satisfy t' n) = Some (arrivals (map (\<lambda>(_, f, _). f) xs))"
proof -
  obtain now f i timeout ys where xs: "xs = (now, f, i, timeout) # ys"
    using assms(2) by (cases xs) auto
  let ?e = "\<lparr>pe_interest = i, pe_in_faces = [f], pe_out_face = None,
             pe_expires_at = now + timeout, pe_satisfied = False\<rparr>"
  let ?t = "t\<lparr>pit_entries := (pit_entries t)(n \<mapsto> ?e)\<rparr>"
  have "pit_insert_or_aggregate now t n f i timeout = (?t, PitInserted)"
    using assms(1) by (auto simp: pit_insert_or_aggregate_def pit_find_def)
  moreover from pit_insert_all_pending [of ?t n ?e ys]
  obtain t' where "pit_insert_all ?t n ys = (t', replicate (length ys) PitAggregated)"
    "pit_entries t' n = Some (?e\<lparr>pe_in_faces := foldl join_face [f] (map (\<lambda>(_, f, _). f) ys)\<rparr>)" by auto
  moreover have "join_face [] f = [f]" by (simp add: join_face_def)
  ultimately show ?thesis by (simp add: xs pit_satisfy_def arrivals_def)
qed

theorem pit_aggregates_witness:
  "let i = interest_new (replicate 8 0) (name_new (replicate 32 1) []);
       (t, ops) = pit_insert_all pit_new (int_name i) [(0, 1, i, from_secs 4), (5, 2, i, from_secs 4), (9, 1, i, from_secs 4)]
   in ops = [PitInserted, PitAggregated, PitAggregated] \<and> snd (pit_satisfy t (int_name i)) = Some [1, 2]"
proof -
  let ?i = "interest_new (replicate 8 0) (name_new (replicate 32 1) [])"
  have "pit_find pit_new (int_name ?i) = None" by (simp add: pit_find_def pit_new_def)
  then show ?thesis
    using pit_aggregates [of pit_new "int_name ?i" "[(0, 1, ?i, from_secs 4), (5, 2, ?i, from_secs 4), (9, 1, ?i, from_secs 4)]"]
    by (auto simp: Let_def arrivals_def join_face_def numeral_2_eq_2 split: prod.splits)
qed

text \<open>A purge removes exactly the satisfied and the expired entries, and returns them.\<close>

lemma pit_purge_exact:
  "pit_purge_expired now t = (t', removed) \<Longrightarrow>
     (pit_entries t' n = Some e \<longleftrightarrow> pit_entries t n = Some e \<and> \<not> pit_expired now e) \<and>
     (removed n = Some e \<longleftrightarrow> pit_entries t n = Some e \<and> pit_expired now e)"
  by (auto simp: pit_purge_expired_def split: option.splits if_splits)

text \<open>Loop detection recognises a repeated pair of face and nonce until a purge past its time to
  live, and never the same nonce on another face.\<close>

lemma pit_loop_detection:
  "pit_check_loop (pit_record_nonce now t f nonce) g m \<longleftrightarrow> (g = f \<and> m = nonce) \<or> pit_check_loop t g m"
  "pit_check_loop (fst (pit_purge_expired later (pit_record_nonce now t f nonce))) f nonce \<longleftrightarrow>
     later < now + pit_nonce_ttl t"
  by (auto simp: pit_check_loop_def pit_defs)

end
