(* ===== verification/Icn_Strategy.thy ===== *)
theory Icn_Strategy
  imports Icn_Pit
begin

text \<open>
  The forwarding strategies (\<open>crates/icn/src/strategy.rs\<close>): the decisions, the selector check and
  the \<open>BestRoute\<close> strategy with its back-off. \<open>Instant::now()\<close> is an
  argument, and \<open>elapsed()\<close> saturates at zero as the library's does. The base of the back-off is taken to be below
  \<open>2 ^ 57\<close> seconds (it is one second by default): beyond, multiplying it by up to 64 overflows and panics.
\<close>

datatype StrategyDecision =
    ForwardTo FaceId
  | Multicast "FaceId list"
  | SuppressAggregate
  | ServeFromCache
  | NoRoute

record failure_record =
  fr_last_failure :: instant
  fr_consecutive_failures :: u32

record best_route =
  br_failures :: "FaceId \<rightharpoonup> failure_record"
  br_backoff_base :: duration
  br_max_backoff :: duration

definition best_route_new :: best_route where
  "best_route_new = \<lparr>br_failures = Map.empty, br_backoff_base = from_secs 1, br_max_backoff = from_secs 30\<rparr>"

definition best_route_with_backoff :: "duration \<Rightarrow> duration \<Rightarrow> best_route" where
  "best_route_with_backoff base mx =
     \<lparr>br_failures = Map.empty, br_backoff_base = base, br_max_backoff = mx\<rparr>"

definition record_failure :: "instant \<Rightarrow> best_route \<Rightarrow> FaceId \<Rightarrow> best_route" where
  "record_failure now b face =
     (let r = (case br_failures b face of
                 Some r \<Rightarrow> r | None \<Rightarrow> \<lparr>fr_last_failure = now, fr_consecutive_failures = 0\<rparr>)
      in b\<lparr>br_failures := (br_failures b)(face \<mapsto>
           \<lparr>fr_last_failure = now, fr_consecutive_failures = fr_consecutive_failures r + 1\<rparr>)\<rparr>)"

definition record_success :: "best_route \<Rightarrow> FaceId \<Rightarrow> best_route" where
  "record_success b face = b\<lparr>br_failures := (br_failures b)(face := None)\<rparr>"

definition is_in_backoff :: "instant \<Rightarrow> best_route \<Rightarrow> FaceId \<Rightarrow> bool" where
  "is_in_backoff now b face =
     (case br_failures b face of
        Some r \<Rightarrow>
          let backoff = min (br_backoff_base b * 2 ^ unat (min (fr_consecutive_failures r) 6)) (br_max_backoff b)
          in now - fr_last_failure r < backoff
      | None \<Rightarrow> False)"

definition selector_satisfied :: "interest \<Rightarrow> icn_data \<Rightarrow> bool" where
  "selector_satisfied i d =
     (case int_selector i of
        None \<Rightarrow> True
      | Some sel \<Rightarrow>
          if sel_must_be_fresh sel \<and> (case md_freshness (dat_metadata d) of Stale _ \<Rightarrow> True | Fresh \<Rightarrow> False)
          then False
          else if (case sel_min_sequence sel of
                     None \<Rightarrow> False
                   | Some min_seq \<Rightarrow>
                       (case md_sequence (dat_metadata d) of
                          Some data_seq \<Rightarrow> data_seq < min_seq
                        | None \<Rightarrow> True))
          then False
          else if (case md_content_hash (dat_metadata d) of
                     None \<Rightarrow> False
                   | Some h \<Rightarrow> h \<in> set (sel_exclude_hashes sel))
          then False
          else True)"

fun first_available :: "instant \<Rightarrow> best_route \<Rightarrow> (FaceId \<times> u8) list \<Rightarrow> StrategyDecision" where
  "first_available now b [] = NoRoute"
| "first_available now b ((face_id, _) # fs) =
     (if \<not> is_in_backoff now b face_id then ForwardTo face_id else first_available now b fs)"

definition best_route_decide ::
  "best_route \<Rightarrow> instant \<Rightarrow> interest \<Rightarrow> (FaceId \<times> u8) list \<Rightarrow> pit_entry option \<Rightarrow> icn_data option
     \<Rightarrow> StrategyDecision" where
  "best_route_decide b now i fib_faces pit_hit cs_hit =
     (if (case cs_hit of Some d \<Rightarrow> selector_satisfied i d | None \<Rightarrow> False) then ServeFromCache
      else if (case pit_hit of Some e \<Rightarrow> \<not> pe_satisfied e | None \<Rightarrow> False) then SuppressAggregate
      else first_available now b fib_faces)"

section \<open>Behaviour\<close>

lemma first_available_NoRoute:
  "first_available now b fs = NoRoute \<longleftrightarrow> (\<forall>(f, _) \<in> set fs. is_in_backoff now b f)"
proof (induction fs)
  case (Cons x fs)
  then show ?case by (cases x; cases "is_in_backoff now b (fst x)") auto
qed simp

lemma first_available_cheapest:
  assumes "sorted (map snd fs)" and "first_available now b fs = ForwardTo f"
  shows "\<not> is_in_backoff now b f \<and> (\<exists>c. (f, c) \<in> set fs \<and>
    (\<forall>(g, c') \<in> set fs. \<not> is_in_backoff now b g \<longrightarrow> c \<le> c'))"
  using assms
proof (induction fs)
  case (Cons x fs)
  show ?case
  proof (cases "is_in_backoff now b (fst x)")
    case True
    then have "first_available now b fs = ForwardTo f" using Cons.prems(2) by (cases x) simp
    moreover have "sorted (map snd fs)" using Cons.prems(1) by simp
    ultimately obtain c where "\<not> is_in_backoff now b f" "(f, c) \<in> set fs"
      "\<forall>(g, c') \<in> set fs. \<not> is_in_backoff now b g \<longrightarrow> c \<le> c'"
      using Cons.IH by blast
    with True show ?thesis by (cases x) auto
  next
    case False
    then have "fst x = f" using Cons.prems(2) by (cases x) simp
    moreover have "\<forall>y \<in> set fs. snd x \<le> snd y" using Cons.prems(1) by simp
    ultimately show ?thesis using False by (cases x) fastforce
  qed
qed simp

lemma first_available_not:
  "first_available now b fs \<noteq> ServeFromCache" "first_available now b fs \<noteq> SuppressAggregate"
  "first_available now b fs \<noteq> Multicast gs"
  by (induction fs rule: first_available.induct) simp_all

text \<open>
  The decision of \<open>BestRoute\<close>, in its order: the cached packet when it satisfies the selector,
  aggregation when the interest is pending, else the cheapest face that is not backing off, and
  no route exactly when every face is backing off.
\<close>

theorem best_route_decision:
  assumes "sorted (map snd fs)"
  shows "case best_route_decide b now i fs pit_hit cs_hit of
      ServeFromCache \<Rightarrow> \<exists>d. cs_hit = Some d \<and> selector_satisfied i d
    | SuppressAggregate \<Rightarrow> \<exists>e. pit_hit = Some e \<and> \<not> pe_satisfied e
    | ForwardTo f \<Rightarrow> \<not> is_in_backoff now b f \<and> (\<exists>c. (f, c) \<in> set fs \<and>
        (\<forall>(g, c') \<in> set fs. \<not> is_in_backoff now b g \<longrightarrow> c \<le> c'))
    | NoRoute \<Rightarrow> \<forall>(f, _) \<in> set fs. is_in_backoff now b f
    | Multicast gs \<Rightarrow> False"
  using first_available_cheapest [OF assms] first_available_NoRoute first_available_not
  by (auto simp: best_route_decide_def split: StrategyDecision.splits option.splits if_splits)

end
