(* ===== verification/Icn_Forwarder.thy ===== *)
theory Icn_Forwarder
  imports Icn_Store Icn_Strategy
begin

text \<open>
  The forwarder (\<open>crates/icn/src/forwarder.rs\<close>): tables, strategy, faces, waiters and keys, and the
  handlers of interests and data over them. \<open>express\<close> borrows the forwarder mutably until it
  returns, so no other operation runs while it waits; what its awaits yield (the answer of a face,
  the first packet of a race, the times read) is the argument \<open>fw_env\<close>. A call ends with a result,
  panics, is dropped by its caller while it waits for a face, or waits for a notification that no
  operation can send while it holds the borrow.
\<close>

section \<open>Waiters\<close>

type_synonym interest_result = "string + icn_data option"

text \<open>The sender of a one-shot channel is a number; \<open>notify\<close> returns what it sends to whom.\<close>

record pit_notifier =
  pn_waiters :: "name \<rightharpoonup> nat list"

definition notifier_new :: pit_notifier where
  "notifier_new = \<lparr>pn_waiters = Map.empty\<rparr>"

definition notifier_register :: "pit_notifier \<Rightarrow> name \<Rightarrow> nat \<Rightarrow> pit_notifier" where
  "notifier_register p n tx = p\<lparr>pn_waiters := (pn_waiters p)(n \<mapsto>
     (case pn_waiters p n of None \<Rightarrow> [] | Some ws \<Rightarrow> ws) @ [tx])\<rparr>"

definition notifier_notify ::
  "pit_notifier \<Rightarrow> name \<Rightarrow> interest_result \<Rightarrow> pit_notifier \<times> (nat \<times> interest_result) list" where
  "notifier_notify p n result =
     (case pn_waiters p n of
        Some ws \<Rightarrow> (p\<lparr>pn_waiters := (pn_waiters p)(n := None)\<rparr>, map (\<lambda>tx. (tx, result)) ws)
      | None \<Rightarrow> (p, []))"

section \<open>The forwarder\<close>

record face_capabilities =
  fc_disruption_tolerance :: duration
  fc_mtu :: nat
  fc_is_local :: bool

type_synonym strategy =
  "instant \<Rightarrow> interest \<Rightarrow> (FaceId \<times> u8) list \<Rightarrow> pit_entry option \<Rightarrow> icn_data option \<Rightarrow> StrategyDecision"

record 'c forwarder =
  fw_cs :: "'c content_store"
  fw_fib :: fib
  fw_pit :: pit
  fw_strategy :: strategy
  fw_faces :: "FaceId \<rightharpoonup> face_capabilities"
  fw_notifier :: pit_notifier
  fw_key_store :: "bytes \<rightharpoonup> keys"

text \<open>What becomes of an await on the faces: an answer, a call that is dropped before, or a face that panics
  (a panic of a spawned task reaches the call through \<open>unwrap\<close> of its handle).\<close>

datatype 'a awaited = Answered 'a | CallDropped | FacePanics

record fw_env =
  env_now :: instant
  env_later :: instant
  env_tx :: nat
  \<comment> \<open>what \<open>express_interest\<close> of a face yields\<close>
  env_answer :: "FaceId \<Rightarrow> interest \<Rightarrow> interest_result awaited"
  \<comment> \<open>the first packet of the race between faces, \<open>None\<close> on timeout\<close>
  env_race :: "FaceId list \<Rightarrow> interest \<Rightarrow> icn_data option awaited"

datatype fw_outcome = Done interest_result | Panicked | Dropped | Hangs

definition forwarder_with_strategy :: "'c lru_ops \<Rightarrow> strategy \<Rightarrow> 'c forwarder" where
  "forwarder_with_strategy L st = \<lparr>fw_cs = cs_new L 1000, fw_fib = fib_new, fw_pit = pit_new,
     fw_strategy = st, fw_faces = Map.empty, fw_notifier = notifier_new, fw_key_store = Map.empty\<rparr>"

text \<open>The record of failures of the strategy never changes: \<open>strategy_as_best_route_mut\<close> returns
  \<open>None\<close>, so \<open>record_success\<close> and \<open>record_failure\<close> are never called.\<close>

definition forwarder_new :: "'c lru_ops \<Rightarrow> 'c forwarder" where
  "forwarder_new L = \<lparr>fw_cs = cs_new L 1000, fw_fib = fib_new, fw_pit = pit_new,
     fw_strategy = best_route_decide best_route_new, fw_faces = Map.empty,
     fw_notifier = notifier_new, fw_key_store = Map.empty\<rparr>"

definition fw_register_face :: "'c forwarder \<Rightarrow> FaceId \<Rightarrow> face_capabilities \<Rightarrow> 'c forwarder" where
  "fw_register_face s f cap = s\<lparr>fw_faces := (fw_faces s)(f \<mapsto> cap)\<rparr>"

definition fw_unregister_face :: "'c forwarder \<Rightarrow> FaceId \<Rightarrow> 'c forwarder" where
  "fw_unregister_face s f = s\<lparr>fw_faces := (fw_faces s)(f := None),
     fw_fib := fib_remove_face (fw_fib s) (name_new (replicate 32 0) []) f\<rparr>"

definition fw_add_route :: "'c forwarder \<Rightarrow> name \<Rightarrow> FaceId \<Rightarrow> u8 \<Rightarrow> 'c forwarder" where
  "fw_add_route s p f cost = s\<lparr>fw_fib := fib_insert (fw_fib s) p f cost\<rparr>"

definition fw_register_keys :: "'c forwarder \<Rightarrow> bytes \<Rightarrow> keys \<Rightarrow> 'c forwarder" where
  "fw_register_keys s h k = s\<lparr>fw_key_store := (fw_key_store s)(h \<mapsto> k)\<rparr>"

text \<open>The \<open>Debug\<close> form of a byte array.\<close>

fun debug_items :: "bytes \<Rightarrow> string" where
  "debug_items [] = []"
| "debug_items [b] = show_nat (unat b)"
| "debug_items (b # bs) = show_nat (unat b) @ '', '' @ debug_items bs"

text \<open>\<open>verify_data\<close> panics in \<open>producer_hash\<close> on a name whose first component is not 32 bytes.\<close>

definition fw_verify_data :: "ext \<Rightarrow> 'c forwarder \<Rightarrow> icn_data \<Rightarrow> (string + unit) option" where
  "fw_verify_data E s d =
     (case name_producer_hash (dat_name d) of
        None \<Rightarrow> None
      | Some producer_hash \<Rightarrow> Some (
          case fw_key_store s producer_hash of
            None \<Rightarrow> Inl (''unknown producer: ['' @ debug_items producer_hash @ '']'')
          | Some k \<Rightarrow>
              (case verify_proof E k (data_signed_hash E d) (dat_signature d) of
                 Inl e \<Rightarrow> Inl (''signature verification failed: '' @ proof_error_text e)
               | Inr _ \<Rightarrow> Inr ())))"

text \<open>The end of a forwarding call: satisfy the entry, notify the waiters, purge.\<close>

definition fw_finish :: "instant \<Rightarrow> 'c forwarder \<Rightarrow> name \<Rightarrow> interest_result \<Rightarrow> 'c forwarder" where
  "fw_finish later s n result = s\<lparr>
     fw_pit := fst (pit_purge_expired later (fst (pit_satisfy (fw_pit s) n))),
     fw_notifier := fst (notifier_notify (fw_notifier s) n result)\<rparr>"

definition fw_satisfy :: "'c forwarder \<Rightarrow> name \<Rightarrow> 'c forwarder" where
  "fw_satisfy s n = s\<lparr>fw_pit := fst (pit_satisfy (fw_pit s) n)\<rparr>"

definition fw_cache :: "'c lru_ops \<Rightarrow> instant \<Rightarrow> 'c forwarder \<Rightarrow> icn_data \<Rightarrow> 'c forwarder" where
  "fw_cache L now s d = s\<lparr>fw_cs := fst (cs_insert L now (fw_cs s) (dat_name d) d)\<rparr>"

text \<open>What follows the arrival of a packet in both forwarding calls: verify, cache, finish.\<close>

definition fw_accept ::
  "ext \<Rightarrow> 'c lru_ops \<Rightarrow> instant \<Rightarrow> 'c forwarder \<Rightarrow> name \<Rightarrow> icn_data \<Rightarrow> 'c forwarder \<times> fw_outcome" where
  "fw_accept E L later s n d =
     (case fw_verify_data E s d of
        None \<Rightarrow> (s, Panicked)
      | Some (Inl e) \<Rightarrow> (fw_satisfy s n, Done (Inl (''signature verification failed: '' @ e)))
      | Some (Inr _) \<Rightarrow> (fw_finish later (fw_cache L later s d) n (Inr (Some d)), Done (Inr (Some d))))"

definition fw_forward_and_wait ::
  "ext \<Rightarrow> 'c lru_ops \<Rightarrow> fw_env \<Rightarrow> 'c forwarder \<Rightarrow> interest \<Rightarrow> FaceId \<Rightarrow> FaceId \<Rightarrow> 'c forwarder \<times> fw_outcome" where
  "fw_forward_and_wait E L env s i in_face out_face_id =
     (let face_timeout = (case fw_faces s out_face_id of
            Some cap \<Rightarrow> fc_disruption_tolerance cap | None \<Rightarrow> from_secs 4);
          timeout = max (int_lifetime i) face_timeout;
          n = int_name i;
          t = fst (pit_insert_or_aggregate (env_now env) (fw_pit s) n in_face i timeout);
          s = s\<lparr>fw_pit := pit_set_out_face t n out_face_id\<rparr>
      in case fw_faces s out_face_id of
           None \<Rightarrow> (fw_satisfy s n, Done (Inl ''face not found''))
         | Some _ \<Rightarrow>
             (case env_answer env out_face_id i of
                CallDropped \<Rightarrow> (s, Dropped)
              | FacePanics \<Rightarrow> (s, Panicked)
              | Answered (Inr (Some d)) \<Rightarrow> fw_accept E L (env_later env) s n d
              | Answered (Inr None) \<Rightarrow> (fw_finish (env_later env) s n (Inr None), Done (Inr None))
              | Answered (Inl e) \<Rightarrow> (fw_finish (env_later env) s n (Inl e), Done (Inl e))))"

definition fw_multicast_and_wait ::
  "ext \<Rightarrow> 'c lru_ops \<Rightarrow> fw_env \<Rightarrow> 'c forwarder \<Rightarrow> interest \<Rightarrow> FaceId \<Rightarrow> FaceId list \<Rightarrow> 'c forwarder \<times> fw_outcome" where
  "fw_multicast_and_wait E L env s i in_face face_ids =
     (let n = int_name i;
          s = s\<lparr>fw_pit := fst (pit_insert_or_aggregate (env_now env) (fw_pit s) n in_face i (int_lifetime i))\<rparr>
      in case env_race env (filter (\<lambda>f. fw_faces s f \<noteq> None) face_ids) i of
           CallDropped \<Rightarrow> (s, Dropped)
         | FacePanics \<Rightarrow> (s, Panicked)
         | Answered (Some d) \<Rightarrow> fw_accept E L (env_later env) s n d
         | Answered None \<Rightarrow> (fw_finish (env_later env) s n (Inr None), Done (Inr None)))"

definition fw_express ::
  "ext \<Rightarrow> 'c lru_ops \<Rightarrow> fw_env \<Rightarrow> 'c forwarder \<Rightarrow> interest \<Rightarrow> FaceId \<Rightarrow> 'c forwarder \<times> fw_outcome" where
  "fw_express E L env s i in_face =
     (if pit_check_loop (fw_pit s) in_face (int_nonce i) then (s, Done (Inl ''loop detected''))
      else
        let s = s\<lparr>fw_pit := pit_record_nonce (env_now env) (fw_pit s) in_face (int_nonce i)\<rparr>;
            (cs, cs_hit) = (if int_can_be_prefix i then cs_get_prefix L (fw_cs s) (int_name i)
                            else cs_get L (fw_cs s) (int_name i));
            s = s\<lparr>fw_cs := cs\<rparr>;
            pit_hit = pit_find (fw_pit s) (int_name i);
            fib_faces = (case fib_lookup (fw_fib s) (int_name i) of None \<Rightarrow> [] | Some fs \<Rightarrow> fs)
        in case fw_strategy s (env_now env) i fib_faces pit_hit cs_hit of
             ServeFromCache \<Rightarrow>
               (case cs_hit of Some d \<Rightarrow> (s, Done (Inr (Some d))) | None \<Rightarrow> (s, Panicked))
           | SuppressAggregate \<Rightarrow>
               (s\<lparr>fw_notifier := notifier_register (fw_notifier s) (int_name i) (env_tx env)\<rparr>, Hangs)
           | ForwardTo face_id \<Rightarrow> fw_forward_and_wait E L env s i in_face face_id
           | Multicast face_ids \<Rightarrow> fw_multicast_and_wait E L env s i in_face face_ids
           | NoRoute \<Rightarrow> (s, Done (Inr None)))"

text \<open>\<open>receive_data\<close>; its result has no packet.\<close>

definition fw_receive_data ::
  "ext \<Rightarrow> 'c lru_ops \<Rightarrow> fw_env \<Rightarrow> 'c forwarder \<Rightarrow> icn_data \<Rightarrow> FaceId \<Rightarrow> 'c forwarder \<times> fw_outcome" where
  "fw_receive_data E L env s d in_face =
     (case fw_verify_data E s d of
        None \<Rightarrow> (s, Panicked)
      | Some (Inl e) \<Rightarrow> (s, Done (Inl e))
      | Some (Inr _) \<Rightarrow>
          let n = dat_name d;
              (t, matched) = pit_satisfy (fw_pit s) n;
              s = s\<lparr>fw_pit := t,
                    fw_notifier := (if matched \<noteq> None
                      then fst (notifier_notify (fw_notifier s) n (Inr (Some d))) else fw_notifier s)\<rparr>;
              s = fw_cache L (env_later env) s d
          in (s\<lparr>fw_pit := fst (pit_purge_expired (env_later env) (fw_pit s))\<rparr>, Done (Inr None)))"

section \<open>Histories\<close>

text \<open>The calls that change a forwarder. \<open>cs_mut\<close> hands out its store, whose methods are called through it:
  \<open>insert\<close> verifies nothing, \<open>get\<close> and \<open>get_prefix\<close> return what they find.\<close>

datatype fw_op =
    OpRegisterFace FaceId face_capabilities
  | OpUnregisterFace FaceId
  | OpAddRoute name FaceId u8
  | OpRegisterKeys bytes keys
  | OpExpress fw_env interest FaceId
  | OpReceiveData fw_env icn_data FaceId
  | OpCsInsert instant name icn_data
  | OpCsGet name
  | OpCsGetPrefix name

definition fw_cs_insert :: "'c lru_ops \<Rightarrow> instant \<Rightarrow> 'c forwarder \<Rightarrow> name \<Rightarrow> icn_data \<Rightarrow> 'c forwarder" where
  "fw_cs_insert L now s n d = s\<lparr>fw_cs := fst (cs_insert L now (fw_cs s) n d)\<rparr>"

fun fw_exec :: "ext \<Rightarrow> 'c lru_ops \<Rightarrow> 'c forwarder \<Rightarrow> fw_op \<Rightarrow> 'c forwarder \<times> fw_outcome" where
  "fw_exec E L s (OpRegisterFace f cap) = (fw_register_face s f cap, Done (Inr None))"
| "fw_exec E L s (OpUnregisterFace f) = (fw_unregister_face s f, Done (Inr None))"
| "fw_exec E L s (OpAddRoute p f c) = (fw_add_route s p f c, Done (Inr None))"
| "fw_exec E L s (OpRegisterKeys h k) = (fw_register_keys s h k, Done (Inr None))"
| "fw_exec E L s (OpExpress env i f) = fw_express E L env s i f"
| "fw_exec E L s (OpReceiveData env d f) = fw_receive_data E L env s d f"
| "fw_exec E L s (OpCsInsert now n d) = (fw_cs_insert L now s n d, Done (Inr None))"
| "fw_exec E L s (OpCsGet n) =
     (let (cs, hit) = cs_get L (fw_cs s) n in (s\<lparr>fw_cs := cs\<rparr>, Done (Inr hit)))"
| "fw_exec E L s (OpCsGetPrefix n) =
     (let (cs, hit) = cs_get_prefix L (fw_cs s) n in (s\<lparr>fw_cs := cs\<rparr>, Done (Inr hit)))"

fun fw_run :: "ext \<Rightarrow> 'c lru_ops \<Rightarrow> 'c forwarder \<Rightarrow> fw_op list \<Rightarrow> 'c forwarder \<times> fw_outcome list" where
  "fw_run E L s [] = (s, [])"
| "fw_run E L s (op # ops) =
     (let (s, r) = fw_exec E L s op; (s, rs) = fw_run E L s ops in (s, r # rs))"

text \<open>A packet that a set of calls accounts for: keys registered for its producer prove it, or it was put
  into the store by hand.\<close>

definition authentic :: "ext \<Rightarrow> fw_op set \<Rightarrow> icn_data \<Rightarrow> bool" where
  "authentic E K d \<longleftrightarrow> (\<exists>h k. OpRegisterKeys h k \<in> K \<and> name_producer_hash (dat_name d) = Some h \<and>
     verify_proof E k (data_signed_hash E d) (dat_signature d) = Inr ()) \<or> (\<exists>now n. OpCsInsert now n d \<in> K)"

lemma authentic_mono: "authentic E K d \<Longrightarrow> K \<subseteq> K' \<Longrightarrow> authentic E K' d"
  unfolding authentic_def by blast

text \<open>The invariant of authenticity: the keys held are registered ones, the packets cached are
  authentic.\<close>

definition fw_auth :: "ext \<Rightarrow> 'c lru_ops \<Rightarrow> fw_op set \<Rightarrow> 'c forwarder \<Rightarrow> bool" where
  "fw_auth E L K s \<longleftrightarrow> (\<forall>h k. fw_key_store s h = Some k \<longrightarrow> OpRegisterKeys h k \<in> K) \<and>
     (\<forall>n d. cs_map L (fw_cs s) n = Some d \<longrightarrow> authentic E K d)"

lemma fw_verify_authentic:
  "fw_auth E L K s \<Longrightarrow> fw_verify_data E s d = Some (Inr ()) \<Longrightarrow> authentic E K d"
  unfolding fw_verify_data_def fw_auth_def authentic_def
  by (cases "name_producer_hash (dat_name d)";
      cases "fw_key_store s (the (name_producer_hash (dat_name d)))") (auto split: sum.splits)

lemma fw_cs_insert_auth:
  assumes "lru_ok L" and "fw_auth E L K s" and "authentic E K d"
  shows "fw_auth E L K (fw_cs_insert L now s n d)"
  using assms(2,3) cs_insert_map(1,2) [OF assms(1), where now = now and s = "fw_cs s" and n = n and d = d]
  unfolding fw_auth_def fw_cs_insert_def by (simp, metis option.inject)

lemma fw_cache_auth:
  "lru_ok L \<Longrightarrow> fw_auth E L K s \<Longrightarrow> authentic E K d \<Longrightarrow> fw_auth E L K (fw_cache L now s d)"
  using fw_cs_insert_auth [of L E K s d now "dat_name d"] by (simp add: fw_cs_insert_def fw_cache_def)

lemma fw_auth_cong:
  "fw_key_store s' = fw_key_store s \<Longrightarrow> fw_cs s' = fw_cs s \<Longrightarrow> fw_auth E L K s' = fw_auth E L K s"
  by (simp add: fw_auth_def)

lemma fw_auth_updates [simp]:
  "fw_auth E L K (fw_satisfy s n) = fw_auth E L K s"
  "fw_auth E L K (fw_finish later s n r) = fw_auth E L K s"
  "fw_auth E L K (s\<lparr>fw_pit := t\<rparr>) = fw_auth E L K s"
  "fw_auth E L K (s\<lparr>fw_notifier := p\<rparr>) = fw_auth E L K s"
  "fw_auth E L K (s\<lparr>fw_fib := b\<rparr>) = fw_auth E L K s"
  "fw_auth E L K (s\<lparr>fw_faces := m\<rparr>) = fw_auth E L K s"
  by (rule fw_auth_cong; simp add: fw_satisfy_def fw_finish_def)+

text \<open>A step keeps the invariant \<open>fw_auth\<close> and yields authentic packets.\<close>

definition auth_ok :: "ext \<Rightarrow> 'c lru_ops \<Rightarrow> fw_op set \<Rightarrow> 'c forwarder \<times> fw_outcome \<Rightarrow> bool" where
  "auth_ok E L K r \<longleftrightarrow> fw_auth E L K (fst r) \<and> (\<forall>d. snd r = Done (Inr (Some d)) \<longrightarrow> authentic E K d)"

lemma auth_ok_pair [simp]:
  "auth_ok E L K (s, r) \<longleftrightarrow> fw_auth E L K s \<and> (\<forall>d. r = Done (Inr (Some d)) \<longrightarrow> authentic E K d)"
  by (simp add: auth_ok_def)

lemma fw_accept_auth: "lru_ok L \<Longrightarrow> fw_auth E L K s \<Longrightarrow> auth_ok E L K (fw_accept E L later s n d)"
  using fw_verify_authentic [of E L K s d] fw_cache_auth [of L E K s d later]
  unfolding fw_accept_def
  by (cases "fw_verify_data E s d"; cases "the (fw_verify_data E s d)") simp_all

lemma fw_forward_auth:
  assumes L: "lru_ok L" and s: "fw_auth E L K s"
  shows "auth_ok E L K (fw_forward_and_wait E L env s i f g)"
    and "auth_ok E L K (fw_multicast_and_wait E L env s i f gs)"
proof -
  have acc: "auth_ok E L K (fw_accept E L later (s\<lparr>fw_pit := t\<rparr>) n d)" for later t n d
    by (rule fw_accept_auth) (simp_all add: L s)
  show "auth_ok E L K (fw_forward_and_wait E L env s i f g)"
    unfolding fw_forward_and_wait_def Let_def
    by (simp split: option.split sum.split awaited.split add: acc s)
  show "auth_ok E L K (fw_multicast_and_wait E L env s i f gs)"
    unfolding fw_multicast_and_wait_def Let_def
    by (simp split: option.split awaited.split add: acc s)
qed

text \<open>A lookup in the store keeps what it holds, and a hit is held.\<close>

lemma fw_cs_hit:
  assumes "lru_ok L"
    and "(cs, hit) = (if b then cs_get_prefix L c n else cs_get L c n)"
  shows "cs_map L cs = cs_map L c" and "hit = Some d \<Longrightarrow> \<exists>n. cs_map L c n = Some d"
proof -
  show "cs_map L cs = cs_map L c"
    using assms(2) cs_get_keeps(1) [OF assms(1), where s = c and n = n]
      cs_get_prefix_keeps [where L = L and s = c and p = n]
    by (cases b) (auto simp: cs_map_def dest: arg_cong [where f = fst])
  assume "hit = Some d"
  then have "snd (if b then cs_get_prefix L c n else cs_get L c n) = Some d"
    using assms(2) by (metis snd_conv)
  then show "\<exists>n. cs_map L c n = Some d"
    using cs_get_unfold [OF assms(1), where s = c and n = n]
      cs_get_prefix_result [OF assms(1), where s = c and p = n]
    by (cases b) auto
qed

lemma fw_express_auth:
  assumes "lru_ok L" and "fw_auth E L K s"
  shows "auth_ok E L K (fw_express E L env s i f)"
proof (cases "pit_check_loop (fw_pit s) f (int_nonce i)")
  case True
  then show ?thesis using assms by (simp add: fw_express_def auth_ok_def)
next
  case False
  let ?s = "s\<lparr>fw_pit := pit_record_nonce (env_now env) (fw_pit s) f (int_nonce i)\<rparr>"
  obtain cs hit where hit: "(cs, hit) = (if int_can_be_prefix i then cs_get_prefix L (fw_cs ?s) (int_name i)
      else cs_get L (fw_cs ?s) (int_name i))" by (metis surj_pair)
  have auth: "fw_auth E L K (?s\<lparr>fw_cs := cs\<rparr>)" and d: "hit = Some d \<Longrightarrow> authentic E K d" for d
    using fw_cs_hit [OF assms(1) hit] assms(2) by (auto simp: fw_auth_def)
  show ?thesis
    unfolding fw_express_def Let_def if_not_P [OF False] hit [symmetric] prod.case
    using auth d by (auto intro!: fw_forward_auth [OF assms(1)]
        split: StrategyDecision.split option.split)
qed

lemma fw_receive_auth:
  assumes "lru_ok L" and "fw_auth E L K s"
  shows "auth_ok E L K (fw_receive_data E L env s d f)"
proof (cases "fw_verify_data E s d")
  case (Some r)
  show ?thesis
  proof (cases r)
    case (Inr u)
    then have "authentic E K d" using fw_verify_authentic [OF assms(2)] Some by simp
    then have "fw_auth E L K (fw_cache L (env_later env) (s\<lparr>fw_pit := t, fw_notifier := p\<rparr>) d)" for t p
      by (intro fw_cache_auth) (simp_all add: assms)
    then show ?thesis using Some Inr by (simp add: fw_receive_data_def Let_def split: prod.split)
  qed (use Some assms in \<open>simp add: fw_receive_data_def\<close>)
qed (use assms in \<open>simp add: fw_receive_data_def\<close>)

lemma fw_auth_mono: "fw_auth E L K s \<Longrightarrow> K \<subseteq> K' \<Longrightarrow> fw_auth E L K' s"
  unfolding fw_auth_def using authentic_mono by blast

lemma fw_cs_read_auth:
  assumes "lru_ok L" and "fw_auth E L K s" and "(cs, hit) = (if b then cs_get_prefix L (fw_cs s) n else cs_get L (fw_cs s) n)"
  shows "auth_ok E L K (s\<lparr>fw_cs := cs\<rparr>, Done (Inr hit))"
  using fw_cs_hit [OF assms(1,3)] assms(2) by (auto simp: fw_auth_def)

lemma fw_exec_auth:
  assumes "lru_ok L" and "fw_auth E L K s"
  shows "auth_ok E L (insert op K) (fw_exec E L s op)"
proof -
  have s: "fw_auth E L (insert op K) s" using assms(2) by (rule fw_auth_mono) blast
  show ?thesis
  proof (cases op)
    case (OpCsInsert now n d)
    then have "authentic E (insert op K) d" by (auto simp: authentic_def)
    then show ?thesis using fw_cs_insert_auth [OF assms(1) s] OpCsInsert by simp
  next
    case (OpCsGet n)
    then show ?thesis using fw_cs_read_auth [OF assms(1) s, of _ _ False n] by (simp split: prod.split)
  next
    case (OpCsGetPrefix n)
    then show ?thesis using fw_cs_read_auth [OF assms(1) s, of _ _ True n] by (simp split: prod.split)
  next
    case (OpRegisterKeys h k)
    then show ?thesis using s by (auto simp: fw_auth_def fw_register_keys_def)
  qed (use s assms(1) in \<open>simp_all add: fw_express_auth fw_receive_auth fw_register_face_def
    fw_unregister_face_def fw_add_route_def\<close>)
qed

lemma fw_run_auth:
  "lru_ok L \<Longrightarrow> fw_auth E L K s \<Longrightarrow> fw_run E L s ops = (s', rs) \<Longrightarrow>
     fw_auth E L (K \<union> set ops) s' \<and> (\<forall>d. Done (Inr (Some d)) \<in> set rs \<longrightarrow> authentic E (K \<union> set ops) d)"
proof (induction ops arbitrary: K s rs)
  case (Cons op ops)
  obtain s1 r where x: "fw_exec E L s op = (s1, r)" by fastforce
  obtain rs2 where run: "fw_run E L s1 ops = (s', rs2)" "rs = r # rs2"
    using Cons.prems(3) by (auto simp: x split: prod.splits)
  have ok: "fw_auth E L (insert op K) s1" "\<forall>d. r = Done (Inr (Some d)) \<longrightarrow> authentic E (insert op K) d"
    using fw_exec_auth [OF Cons.prems(1,2), of op] by (simp_all add: x)
  have K: "K \<union> set (op # ops) = insert op K \<union> set ops" by simp
  show ?case
    using Cons.IH [OF Cons.prems(1) ok(1) run(1)] ok(2)
    unfolding K run(2) by (auto intro: authentic_mono)
qed simp

lemma forwarder_new_auth: "lru_ok L \<Longrightarrow> fw_auth E L K (forwarder_with_strategy L st)"
  by (simp add: fw_auth_def forwarder_with_strategy_def cs_new_wf)

text \<open>C4. 
  Whatever methods are called on a new forwarder and on the store it hands out by \<open>cs_mut\<close>, with any strategy
  and any behaviour of the faces, every packet it returns and every packet it caches was proved by keys
  registered for the producer that the packet's name begins with, or was put into the store by hand. So
  nothing that comes from a face is served without a proof; what is inserted through \<open>cs_mut\<close> is.
\<close>

theorem forwarder_authentic:
  assumes "lru_ok L" and "fw_run E L (forwarder_with_strategy L st) ops = (s, rs)"
    and "Done (Inr (Some d)) \<in> set rs \<or> cs_map L (fw_cs s) n = Some d"
  shows "(\<exists>h k. OpRegisterKeys h k \<in> set ops \<and> name_producer_hash (dat_name d) = Some h \<and>
      verify_proof E k (data_signed_hash E d) (dat_signature d) = Inr ()) \<or>
    (\<exists>now m. OpCsInsert now m d \<in> set ops)"
proof -
  have "authentic E ({} \<union> set ops) d"
    using fw_run_auth [OF assms(1) forwarder_new_auth [OF assms(1)] assms(2), of "{}"] assms(3)
    by (auto simp: fw_auth_def)
  then show ?thesis by (simp add: authentic_def)
qed

section \<open>Pending interests\<close>

text \<open>Between calls that return, every entry of the pending table is satisfied and nobody waits.\<close>

definition fw_quiet :: "'c forwarder \<Rightarrow> bool" where
  "fw_quiet s \<longleftrightarrow> (\<forall>n e. pit_entries (fw_pit s) n = Some e \<longrightarrow> pe_satisfied e) \<and>
     pn_waiters (fw_notifier s) = Map.empty"

definition all_satisfied :: "pit \<Rightarrow> name set \<Rightarrow> bool" where
  "all_satisfied t N \<longleftrightarrow> (\<forall>n e. n \<notin> N \<longrightarrow> pit_entries t n = Some e \<longrightarrow> pe_satisfied e)"

lemma all_satisfied_ops:
  "all_satisfied t N \<Longrightarrow> all_satisfied (fst (pit_insert_or_aggregate now t n f i timeout)) (insert n N)"
  "all_satisfied t N \<Longrightarrow> n \<in> N \<Longrightarrow> all_satisfied (pit_set_out_face t n g) N"
  "all_satisfied t N \<Longrightarrow> all_satisfied (fst (pit_satisfy t n)) N"
  "all_satisfied t N \<Longrightarrow> all_satisfied (fst (pit_purge_expired now t)) N"
  "all_satisfied (pit_record_nonce now t f nonce) N = all_satisfied t N"
  by (auto simp: all_satisfied_def pit_defs Let_def split: option.splits if_splits)

lemma all_satisfied_satisfy:
  assumes "all_satisfied t (insert n N)"
  shows "all_satisfied (fst (pit_satisfy t n)) N"
  unfolding all_satisfied_def
proof (intro allI impI)
  fix m e
  assume m: "m \<notin> N" "pit_entries (fst (pit_satisfy t n)) m = Some e"
  show "pe_satisfied e"
  proof (cases "m = n")
    case True
    with m show ?thesis by (auto simp: pit_satisfy_def split: option.splits)
  next
    case False
    with m assms show ?thesis by (auto simp: all_satisfied_def pit_satisfy_def split: option.splits)
  qed
qed

lemma fw_quiet_alt:
  "fw_quiet s \<longleftrightarrow> all_satisfied (fw_pit s) {} \<and> pn_waiters (fw_notifier s) = Map.empty"
  by (simp add: fw_quiet_def all_satisfied_def)

lemma notify_empty: "pn_waiters p = Map.empty \<Longrightarrow> pn_waiters (fst (notifier_notify p n r)) = Map.empty"
  by (simp add: notifier_notify_def)

text \<open>A call that starts quiet never hangs, and if it returns it ends quiet.\<close>

definition quiet_ok :: "'c forwarder \<times> fw_outcome \<Rightarrow> bool" where
  "quiet_ok r \<longleftrightarrow> snd r \<noteq> Hangs \<and> (\<forall>x. snd r = Done x \<longrightarrow> fw_quiet (fst r))"

lemma fw_accept_quiet:
  assumes "all_satisfied (fw_pit s) {n}" and "pn_waiters (fw_notifier s) = Map.empty"
  shows "quiet_ok (fw_accept E L later s n d)" "quiet_ok (fw_finish later s n r, Done r)"
    "quiet_ok (fw_satisfy s n, Done r)"
  using assms all_satisfied_satisfy [of "fw_pit s" n "{}"]
  by (auto simp: fw_accept_def quiet_ok_def fw_quiet_alt fw_satisfy_def fw_finish_def fw_cache_def
      notify_empty all_satisfied_ops(4) split: option.split sum.split)

lemma fw_forward_quiet:
  assumes "fw_quiet s"
  shows "quiet_ok (fw_forward_and_wait E L env s i f g)"
    and "quiet_ok (fw_multicast_and_wait E L env s i f gs)"
proof -
  let ?t = "\<lambda>timeout. fst (pit_insert_or_aggregate (env_now env) (fw_pit s) (int_name i) f i timeout)"
  have t: "all_satisfied (?t timeout) {int_name i}"
    "all_satisfied (pit_set_out_face (?t timeout) (int_name i) g) {int_name i}" for timeout
    using assms all_satisfied_ops(1) [of "fw_pit s" "{}"] by (simp_all add: fw_quiet_alt all_satisfied_ops(2))
  show "quiet_ok (fw_forward_and_wait E L env s i f g)"
    unfolding fw_forward_and_wait_def Let_def using assms t
    by (auto simp: fw_quiet_alt quiet_ok_def [of "(_, Dropped)"] quiet_ok_def [of "(_, Panicked)"] intro!: fw_accept_quiet
        split: option.split sum.split awaited.split)
  show "quiet_ok (fw_multicast_and_wait E L env s i f gs)"
    unfolding fw_multicast_and_wait_def Let_def using assms t
    by (auto simp: fw_quiet_alt quiet_ok_def [of "(_, Dropped)"] quiet_ok_def [of "(_, Panicked)"] intro!: fw_accept_quiet
        split: option.split awaited.split)
qed

text \<open>The part of \<open>express\<close> before the decision: the state it decides in, and the cache hit.\<close>

definition fw_lookup :: "'c lru_ops \<Rightarrow> fw_env \<Rightarrow> 'c forwarder \<Rightarrow> interest \<Rightarrow> FaceId \<Rightarrow> 'c forwarder \<times> icn_data option" where
  "fw_lookup L env s i f =
     (let (cs, hit) = (if int_can_be_prefix i then cs_get_prefix L (fw_cs s) (int_name i)
                       else cs_get L (fw_cs s) (int_name i))
      in (s\<lparr>fw_pit := pit_record_nonce (env_now env) (fw_pit s) f (int_nonce i), fw_cs := cs\<rparr>, hit))"

definition fw_fib_faces :: "'c forwarder \<Rightarrow> name \<Rightarrow> (FaceId \<times> u8) list" where
  "fw_fib_faces s n = (case fib_lookup (fw_fib s) n of None \<Rightarrow> [] | Some fs \<Rightarrow> fs)"

lemma fw_express_decide:
  assumes "\<not> pit_check_loop (fw_pit s) f (int_nonce i)" and "fw_lookup L env s i f = (s1, hit)"
  shows "fw_express E L env s i f =
    (case fw_strategy s (env_now env) i (fw_fib_faces s (int_name i)) (pit_find (fw_pit s) (int_name i)) hit of
       ServeFromCache \<Rightarrow> (case hit of Some d \<Rightarrow> (s1, Done (Inr (Some d))) | None \<Rightarrow> (s1, Panicked))
     | SuppressAggregate \<Rightarrow>
         (s1\<lparr>fw_notifier := notifier_register (fw_notifier s1) (int_name i) (env_tx env)\<rparr>, Hangs)
     | ForwardTo g \<Rightarrow> fw_forward_and_wait E L env s1 i f g
     | Multicast gs \<Rightarrow> fw_multicast_and_wait E L env s1 i f gs
     | NoRoute \<Rightarrow> (s1, Done (Inr None)))"
proof -
  obtain cs h where c: "(if int_can_be_prefix i then cs_get_prefix L (fw_cs s) (int_name i)
      else cs_get L (fw_cs s) (int_name i)) = (cs, h)" by fastforce
  then have s1: "s1 = s\<lparr>fw_pit := pit_record_nonce (env_now env) (fw_pit s) f (int_nonce i), fw_cs := cs\<rparr>"
    and h: "h = hit"
    using assms(2) by (simp_all add: fw_lookup_def)
  have nonce: "pit_find (pit_record_nonce (env_now env) (fw_pit s) f (int_nonce i)) (int_name i) =
      pit_find (fw_pit s) (int_name i)"
    by (simp add: pit_find_def pit_record_nonce_def)
  show ?thesis
    unfolding fw_express_def Let_def if_not_P [OF assms(1)] s1 h [symmetric] fw_fib_faces_def
    using c by (cases "int_can_be_prefix i") (simp_all add: nonce)
qed

lemma fw_lookup_fields:
  assumes "fw_lookup L env s i f = (s1, hit)"
  shows "fw_pit s1 = pit_record_nonce (env_now env) (fw_pit s) f (int_nonce i)"
    and "fw_notifier s1 = fw_notifier s" and "fw_strategy s1 = fw_strategy s"
    and "fw_faces s1 = fw_faces s" and "fw_fib s1 = fw_fib s" and "fw_key_store s1 = fw_key_store s"
  using assms by (auto simp: fw_lookup_def split: prod.splits)

lemma fw_express_quiet:
  assumes "fw_quiet s" and "fw_strategy s = best_route_decide b"
  shows "quiet_ok (fw_express E L env s i f)"
proof (cases "pit_check_loop (fw_pit s) f (int_nonce i)")
  case True
  then show ?thesis using assms by (simp add: fw_express_def quiet_ok_def)
next
  case False
  obtain s1 hit where l: "fw_lookup L env s i f = (s1, hit)" by fastforce
  have q: "fw_quiet s1"
    using assms(1) by (simp add: fw_quiet_alt fw_lookup_fields [OF l] all_satisfied_ops)
  have "best_route_decide b (env_now env) i fs (pit_find (fw_pit s) (int_name i)) hit \<noteq> SuppressAggregate" for fs
    using assms(1) first_available_not(2) by (auto simp: best_route_decide_def fw_quiet_def pit_find_def split: option.splits)
  then show ?thesis
    unfolding fw_express_decide [OF False l] assms(2)
    using q by (auto simp: fw_forward_quiet split: StrategyDecision.split option.split) (auto simp: quiet_ok_def)
qed

lemma fw_receive_quiet:
  assumes "fw_quiet s"
  shows "quiet_ok (fw_receive_data E L env s d f)"
  using assms all_satisfied_ops(3) [of "fw_pit s" "{}" "dat_name d"]
  by (auto simp: fw_receive_data_def quiet_ok_def fw_quiet_alt fw_cache_def Let_def notify_empty
      all_satisfied_ops(4) split: option.split sum.split prod.split)

lemma fw_strategy_const:
  "fw_strategy (fst (fw_exec E L s op)) = fw_strategy s"
proof -
  have acc: "fw_strategy (fst (fw_accept E L later t n d)) = fw_strategy t" for later t n d
    by (simp add: fw_accept_def fw_satisfy_def fw_finish_def fw_cache_def split: option.split sum.split)
  have fwd: "fw_strategy (fst (fw_forward_and_wait E L env t i f g)) = fw_strategy t"
    "fw_strategy (fst (fw_multicast_and_wait E L env t i f gs)) = fw_strategy t" for env t i f g gs
    by (simp_all add: fw_forward_and_wait_def fw_multicast_and_wait_def Let_def acc fw_satisfy_def
        fw_finish_def split: option.split sum.split awaited.split)
  have "fw_strategy (fst (fw_express E L env s i f)) = fw_strategy s" for env i f
  proof (cases "pit_check_loop (fw_pit s) f (int_nonce i)")
    case True
    then show ?thesis by (simp add: fw_express_def)
  next
    case False
    obtain s1 hit where l: "fw_lookup L env s i f = (s1, hit)" by fastforce
    show ?thesis
      unfolding fw_express_decide [OF False l]
      by (simp add: fwd fw_lookup_fields [OF l] split: StrategyDecision.split option.split)
  qed
  moreover have "fw_strategy (fst (fw_receive_data E L env s d f)) = fw_strategy s" for env d f
    by (simp add: fw_receive_data_def Let_def fw_cache_def split: option.split sum.split prod.split)
  ultimately show ?thesis
    by (cases op) (simp_all add: fw_register_face_def fw_unregister_face_def fw_add_route_def fw_register_keys_def
      fw_cs_insert_def split: prod.split)
qed

lemma fw_exec_quiet:
  "fw_quiet s \<Longrightarrow> fw_strategy s = best_route_decide b \<Longrightarrow> quiet_ok (fw_exec E L s op)"
  by (cases op) (simp_all add: fw_express_quiet fw_receive_quiet,
    simp_all add: quiet_ok_def fw_quiet_def fw_register_face_def fw_unregister_face_def fw_add_route_def
      fw_register_keys_def fw_cs_insert_def split: prod.split)

lemma fw_run_quiet:
  "fw_quiet s \<Longrightarrow> fw_strategy s = best_route_decide b \<Longrightarrow> fw_run E L s ops = (s', rs) \<Longrightarrow>
     Dropped \<notin> set rs \<Longrightarrow> Panicked \<notin> set rs \<Longrightarrow> Hangs \<notin> set rs \<and> fw_quiet s'"
proof (induction ops arbitrary: s rs)
  case (Cons op ops)
  obtain s1 r where x: "fw_exec E L s op = (s1, r)" by fastforce
  obtain rs2 where run: "fw_run E L s1 ops = (s', rs2)" "rs = r # rs2"
    using Cons.prems(3) by (auto simp: x split: prod.splits)
  have "quiet_ok (s1, r)" using fw_exec_quiet [OF Cons.prems(1,2), of E L op] by (simp add: x)
  then have "r \<noteq> Hangs" "fw_quiet s1"
    using Cons.prems(4,5) run(2) by (cases r; simp add: quiet_ok_def)+
  moreover have "fw_strategy s1 = best_route_decide b"
    using fw_strategy_const [of E L s op] Cons.prems(2) by (simp add: x)
  ultimately show ?case using Cons.IH [OF _ _ run(1)] Cons.prems(4,5) run(2) by auto
qed simp

text \<open>C22. 
  As long as no call is dropped or panics, no call on a forwarder with the default strategy waits
  for a notification: \<open>express\<close> always returns, every pending entry is satisfied when it does,
  and no waiter is ever registered. The aggregation of interests never takes place.
\<close>

theorem forwarder_never_waits:
  assumes "fw_run E L (forwarder_new L) ops = (s, rs)" and "Dropped \<notin> set rs" and "Panicked \<notin> set rs"
  shows "Hangs \<notin> set rs \<and> pn_waiters (fw_notifier s) = Map.empty \<and>
    (\<forall>n e. pit_find (fw_pit s) n = Some e \<longrightarrow> pe_satisfied e)"
proof -
  have "fw_quiet (forwarder_new L)" and "fw_strategy (forwarder_new L) = best_route_decide best_route_new"
    by (simp_all add: fw_quiet_def forwarder_new_def pit_new_def notifier_new_def)
  from fw_run_quiet [OF this assms] show ?thesis by (simp add: fw_quiet_def pit_find_def)
qed

text \<open>Once a call has been dropped while its interest was pending, it stays pending.\<close>

lemma fw_express_pending_hangs:
  assumes "fw_strategy s = best_route_decide b" and "pit_find (fw_pit s) (int_name i) = Some e" "\<not> pe_satisfied e"
    and "\<not> pit_check_loop (fw_pit s) f (int_nonce i)" and "lru_ok L"
    and "\<not> int_can_be_prefix i" and "cs_map L (fw_cs s) (int_name i) = None"
  shows "snd (fw_express E L env s i f) = Hangs"
proof -
  obtain s1 hit where l: "fw_lookup L env s i f = (s1, hit)" by fastforce
  have "hit = None"
    using l cs_get_unfold [OF assms(5), where s = "fw_cs s" and n = "int_name i"] assms(6,7)
    by (auto simp: fw_lookup_def split: prod.splits)
  then show ?thesis
    unfolding fw_express_decide [OF assms(4) l] assms(1) by (simp add: best_route_decide_def assms(2,3))
qed

lemma first_available_new: "first_available now best_route_new ((g, c) # fs) = ForwardTo g"
  by (simp add: best_route_new_def is_in_backoff_def)

lemma pit_insert_find:
  "\<exists>e. pit_find (pit_set_out_face (fst (pit_insert_or_aggregate now t n f i timeout)) n g) n = Some e \<and>
     \<not> pe_satisfied e"
  by (auto simp: pit_defs Let_def split: option.splits)

text \<open>An interest that is neither cached nor pending goes to the cheapest face of its route.\<close>

definition fw_misses :: "'c lru_ops \<Rightarrow> 'c forwarder \<Rightarrow> interest \<Rightarrow> FaceId \<Rightarrow> FaceId \<Rightarrow> bool" where
  "fw_misses L s i f g \<longleftrightarrow> fw_quiet s \<and> fw_strategy s = best_route_decide best_route_new \<and>
     \<not> pit_check_loop (fw_pit s) f (int_nonce i) \<and> \<not> int_can_be_prefix i \<and>
     cs_map L (fw_cs s) (int_name i) = None \<and>
     (\<exists>c fs. fib_lookup (fw_fib s) (int_name i) = Some ((g, c) # fs)) \<and> fw_faces s g \<noteq> None"

lemma fw_express_forwards:
  assumes L: "lru_ok L" and m: "fw_misses L s i f g"
  obtains s1 hit where "fw_lookup L env s i f = (s1, hit)"
    and "fw_express E L env s i f = fw_forward_and_wait E L env s1 i f g"
    and "cs_map L (fw_cs s1) = cs_map L (fw_cs s)"
proof -
  obtain s1 hit where l: "fw_lookup L env s i f = (s1, hit)" by fastforce
  have hit: "hit = None" and cs: "cs_map L (fw_cs s1) = cs_map L (fw_cs s)"
    using l m cs_get_unfold [OF L, where s = "fw_cs s" and n = "int_name i"]
      cs_get_keeps(1) [OF L, where s = "fw_cs s" and n = "int_name i"]
    by (auto simp: fw_misses_def fw_lookup_def split: prod.splits)
  have "(case pit_find (fw_pit s) (int_name i) of None \<Rightarrow> False | Some e \<Rightarrow> \<not> pe_satisfied e) = False"
    using m by (auto simp: fw_misses_def fw_quiet_def pit_find_def split: option.splits)
  then have "best_route_decide best_route_new (env_now env) i (fw_fib_faces s (int_name i))
      (pit_find (fw_pit s) (int_name i)) hit = ForwardTo g"
    using m by (auto simp: fw_misses_def best_route_decide_def hit fw_fib_faces_def first_available_new
        simp del: first_available.simps)
  then have "fw_express E L env s i f = fw_forward_and_wait E L env s1 i f g"
    using m by (subst fw_express_decide [OF _ l]) (simp_all add: fw_misses_def)
  then show thesis using that [OF l] cs by blast
qed

text \<open>
  Dropping one call blocks its name: if the caller of \<open>express\<close> gives up while the face has not
  answered, the entry stays pending, and the next call for the same name, from whatever face and
  with whatever answers, waits for a notification that cannot come while it holds the forwarder.
\<close>

theorem forwarder_dropped_blocks:
  assumes L: "lru_ok L" and m: "fw_misses L s i f g" and drop: "env_answer env g i = CallDropped"
    and i': "int_name i' = int_name i" "\<not> int_can_be_prefix i'" "(f', int_nonce i') \<noteq> (f, int_nonce i)"
      "\<not> pit_check_loop (fw_pit s) f' (int_nonce i')"
  shows "\<exists>s'. fw_express E L env s i f = (s', Dropped) \<and> snd (fw_express E L env' s' i' f') = Hangs"
proof -
  obtain s1 hit where l: "fw_lookup L env s i f = (s1, hit)"
    and fwd: "fw_express E L env s i f = fw_forward_and_wait E L env s1 i f g"
    and cs: "cs_map L (fw_cs s1) = cs_map L (fw_cs s)"
    using L m by (rule fw_express_forwards)
  define timeout where "timeout = max (int_lifetime i) (fc_disruption_tolerance (the (fw_faces s g)))"
  define s' where "s' = s1\<lparr>fw_pit := pit_set_out_face (fst (pit_insert_or_aggregate (env_now env) (fw_pit s1)
    (int_name i) f i timeout)) (int_name i) g\<rparr>"
  have first: "fw_express E L env s i f = (s', Dropped)"
    using m drop unfolding fwd
    by (auto simp: fw_misses_def fw_forward_and_wait_def Let_def fw_lookup_fields [OF l] s'_def timeout_def)
  obtain e where e: "pit_find (fw_pit s') (int_name i') = Some e" "\<not> pe_satisfied e"
    using pit_insert_find [of "env_now env" "fw_pit s1" "int_name i" f i timeout g] i'(1) by (auto simp: s'_def)
  have "snd (fw_express E L env' s' i' f') = Hangs"
  proof (rule fw_express_pending_hangs [OF _ e])
    show "fw_strategy s' = best_route_decide best_route_new"
      using m by (simp add: fw_misses_def s'_def fw_lookup_fields [OF l])
    show "\<not> pit_check_loop (fw_pit s') f' (int_nonce i')"
      using i'(3,4) by (auto simp: s'_def fw_lookup_fields [OF l] pit_check_loop_def pit_defs Let_def split: option.splits)
    show "cs_map L (fw_cs s') (int_name i') = None"
      using m i'(1) by (simp add: fw_misses_def s'_def cs)
  qed (use L i' in auto)
  with first show ?thesis by blast
qed

section \<open>Answers\<close>

lemma fw_verify_cong: "fw_key_store s' = fw_key_store s \<Longrightarrow> fw_verify_data E s' d = fw_verify_data E s d"
  by (cases "name_producer_hash (dat_name d)") (simp_all add: fw_verify_data_def)

lemma fw_express_cached:
  assumes "lru_ok L" "fw_strategy s = best_route_decide b" "cs_map L (fw_cs s) (int_name i) = Some d"
    "\<not> int_can_be_prefix i" "selector_satisfied i d" "\<not> pit_check_loop (fw_pit s) f (int_nonce i)"
  shows "snd (fw_express E L env s i f) = Done (Inr (Some d))"
proof -
  obtain s1 hit where l: "fw_lookup L env s i f = (s1, hit)" by fastforce
  have "hit = Some d"
    using l cs_get_unfold [OF assms(1), where s = "fw_cs s" and n = "int_name i"] assms(3,4)
    by (auto simp: fw_lookup_def split: prod.splits)
  then show ?thesis
    unfolding fw_express_decide [OF assms(6) l] assms(2) by (simp add: best_route_decide_def assms(5))
qed

text \<open>A packet put into the store by hand is served whatever its proof is, even by a forwarder without any
  keys.\<close>

lemma forwarder_serves_inserted:
  assumes "lru_ok L" and "int_name i = n" and "\<not> int_can_be_prefix i" and "selector_satisfied i d"
  shows "snd (fw_run E L (forwarder_new L) [OpCsInsert now n d, OpExpress env i f]) =
    [Done (Inr None), Done (Inr (Some d))]"
proof -
  let ?s = "fw_cs_insert L now (forwarder_new L) n d"
  have "snd (fw_express E L env ?s i f) = Done (Inr (Some d))"
    using assms by (intro fw_express_cached [where b = best_route_new])
      (simp_all add: fw_cs_insert_def forwarder_new_def pit_new_def pit_check_loop_def cs_insert_map)
  then show ?thesis by (simp split: prod.split) (metis snd_conv)
qed

text \<open>C21. 
  An interest that misses is answered by the packet its face returns, provided the packet is
  proved by its own producer's keys; that packet is then cached under its own name and serves
  later interests in that name that its selector admits. Its name is not compared with the name
  that was asked for.
\<close>

theorem forwarder_answers:
  assumes L: "lru_ok L" and m: "fw_misses L s i f g"
    and ans: "env_answer env g i = Answered (Inr (Some d))" and v: "fw_verify_data E s d = Some (Inr ())"
    and i': "int_name i' = dat_name d" "\<not> int_can_be_prefix i'" "selector_satisfied i' d"
      "(f', int_nonce i') \<noteq> (f, int_nonce i)" "\<not> pit_check_loop (fw_pit s) f' (int_nonce i')"
  shows "\<exists>s'. fw_express E L env s i f = (s', Done (Inr (Some d))) \<and> fw_quiet s' \<and>
    cs_map L (fw_cs s') (dat_name d) = Some d \<and> snd (fw_express E L env' s' i' f') = Done (Inr (Some d))"
proof -
  obtain s1 hit where l: "fw_lookup L env s i f = (s1, hit)"
    and fwd: "fw_express E L env s i f = fw_forward_and_wait E L env s1 i f g"
    using L m by (rule fw_express_forwards)
  define timeout where "timeout = max (int_lifetime i) (fc_disruption_tolerance (the (fw_faces s g)))"
  define s2 where "s2 = s1\<lparr>fw_pit := pit_set_out_face (fst (pit_insert_or_aggregate (env_now env) (fw_pit s1)
    (int_name i) f i timeout)) (int_name i) g\<rparr>"
  define s' where "s' = fw_finish (env_later env) (fw_cache L (env_later env) s2 d) (int_name i) (Inr (Some d))"
  have "fw_verify_data E s2 d = Some (Inr ())"
    using v fw_verify_cong [of s2 s] by (simp add: s2_def fw_lookup_fields [OF l])
  then have first: "fw_express E L env s i f = (s', Done (Inr (Some d)))"
    using m ans unfolding fwd
    by (auto simp: fw_misses_def fw_forward_and_wait_def Let_def fw_lookup_fields [OF l] s2_def s'_def
        timeout_def fw_accept_def)
  have st: "fw_strategy s = best_route_decide best_route_new" and q: "fw_quiet s" using m by (simp_all add: fw_misses_def)
  have quiet: "fw_quiet s'"
    using fw_express_quiet [OF q st, of E L env i f] by (simp add: first quiet_ok_def)
  have cs: "cs_map L (fw_cs s') (dat_name d) = Some d"
    by (simp add: s'_def fw_finish_def fw_cache_def cs_insert_map(1) [OF L])
  have "pit_nonce_tracker (fw_pit s') k = None" if "k \<noteq> (f, int_nonce i)" "pit_nonce_tracker (fw_pit s) k = None" for k
    using that by (auto simp: s'_def s2_def fw_finish_def fw_cache_def fw_lookup_fields [OF l] pit_defs Let_def
        split: option.splits)
  then have "\<not> pit_check_loop (fw_pit s') f' (int_nonce i')"
    using i'(4,5) by (simp add: pit_check_loop_def)
  moreover have "fw_strategy s' = best_route_decide best_route_new"
    using st by (simp add: s'_def s2_def fw_finish_def fw_cache_def fw_lookup_fields [OF l])
  ultimately have "snd (fw_express E L env' s' i' f') = Done (Inr (Some d))"
    using fw_express_cached [OF L] cs i' by metis
  with first quiet cs show ?thesis by blast
qed

text \<open>
  Unregistering a face keeps its routes for every prefix of a producer other than the all-zero
  one: the prefix handed to the table matches only names that begin with 32 zero bytes.
\<close>

theorem unregister_keeps_routes:
  assumes "fib_wf (fw_fib s)" and "nm_components p = h # cs" and "h \<noteq> replicate 32 0"
  shows "fib_route (fw_fib (fw_unregister_face s f)) p = fib_route (fw_fib s) p \<and>
    fw_faces (fw_unregister_face s f) f = None"
  using assms by (auto simp: fw_unregister_face_def fun_eq_iff fib_remove_face_route name_new_def)

section \<open>A small forwarder\<close>

text \<open>One producer with registered keys, one face, one route.\<close>

definition demo_producer :: bytes where
  "demo_producer = replicate 32 9"

definition producer_keys :: keys where
  "producer_keys = keys_from_secrets (replicate 32 1) (replicate 32 2)"

definition demo_data :: "bytes list \<Rightarrow> icn_data" where
  "demo_data path = data_new ext_toy (name_new demo_producer path) [42]
     (generate_proof ext_toy producer_keys
       (blake3 ext_toy (name_to_bytes (name_new demo_producer path) @ [42])))"

definition demo_setup :: "fw_op list" where
  "demo_setup = [OpRegisterFace 7 \<lparr>fc_disruption_tolerance = from_secs 4, fc_mtu = 500, fc_is_local = True\<rparr>,
     OpAddRoute (name_new demo_producer []) 7 1, OpRegisterKeys demo_producer producer_keys]"

definition demo_forwarder :: "(nat \<times> (name \<times> cached_data) list) forwarder" where
  "demo_forwarder = fst (fw_run ext_toy lru_list (forwarder_new lru_list) demo_setup)"

definition demo_env :: "interest_result awaited \<Rightarrow> fw_env" where
  "demo_env r = \<lparr>env_now = 5, env_later = 6, env_tx = 0, env_answer = (\<lambda>_ _. r), env_race = (\<lambda>_ _. CallDropped)\<rparr>"

definition demo_interest :: "u8 \<Rightarrow> bytes list \<Rightarrow> interest" where
  "demo_interest k path = interest_new (replicate 8 k) (name_new demo_producer path)"

lemma demo_data_verifies: "fw_verify_data ext_toy demo_forwarder (demo_data path) = Some (Inr ())"
  by (simp add: fw_verify_data_def demo_data_def data_new_def name_producer_hash_def name_new_def
      demo_producer_def demo_forwarder_def demo_setup_def fw_register_keys_def data_signed_hash_def
      verify_generated producer_keys_def keys_wf_def keys_from_secrets_def)

lemma demo_misses: "fw_misses lru_list demo_forwarder (demo_interest k path) f 7"
  by (simp add: fw_misses_def fw_quiet_def demo_forwarder_def demo_setup_def demo_interest_def
      interest_new_def forwarder_new_def fw_register_face_def fw_add_route_def fw_register_keys_def
      pit_new_def notifier_new_def pit_check_loop_def cs_new_wf fib_lookup_def fib_insert_def fib_new_def
      best_match_def name_new_def)

theorem forwarder_answers_witness:
  "\<exists>s'. fw_express ext_toy lru_list (demo_env (Answered (Inr (Some (demo_data [[2]]))))) demo_forwarder
      (demo_interest 0 [[1]]) 3 = (s', Done (Inr (Some (demo_data [[2]])))) \<and> fw_quiet s' \<and>
    cs_map lru_list (fw_cs s') (dat_name (demo_data [[2]])) = Some (demo_data [[2]]) \<and>
    snd (fw_express ext_toy lru_list (demo_env CallDropped) s' (demo_interest 1 [[2]]) 4) =
      Done (Inr (Some (demo_data [[2]])))"
  by (rule forwarder_answers [OF lru_list_ok demo_misses _ demo_data_verifies])
    (simp_all add: demo_env_def demo_interest_def interest_new_def demo_data_def data_new_def
      selector_satisfied_def pit_check_loop_def demo_forwarder_def demo_setup_def forwarder_new_def
      fw_register_face_def fw_add_route_def fw_register_keys_def pit_new_def)

theorem forwarder_dropped_blocks_witness:
  "\<exists>s'. fw_express ext_toy lru_list (demo_env CallDropped) demo_forwarder (demo_interest 0 [[1]]) 3 = (s', Dropped) \<and>
    snd (fw_express ext_toy lru_list (demo_env (Answered (Inr (Some (demo_data [[1]]))))) s' (demo_interest 1 [[1]]) 4) = Hangs"
  by (rule forwarder_dropped_blocks [OF lru_list_ok demo_misses])
    (simp_all add: demo_env_def demo_interest_def interest_new_def pit_check_loop_def demo_forwarder_def
      demo_setup_def forwarder_new_def fw_register_face_def fw_add_route_def fw_register_keys_def pit_new_def)

lemma demo_forwarder_fib:
  "fib_wf (fw_fib demo_forwarder)" "fib_route (fw_fib demo_forwarder) (name_new demo_producer []) 7 = Some 1"
  by (simp_all add: demo_forwarder_def demo_setup_def forwarder_new_def fw_register_face_def
      fw_add_route_def fw_register_keys_def fib_insert_wf fib_insert_route)

theorem unregister_keeps_routes_witness:
  "fib_route (fw_fib (fw_unregister_face demo_forwarder 7)) (name_new demo_producer []) 7 = Some 1"
proof -
  have "nm_components (name_new demo_producer []) = demo_producer # []" "demo_producer \<noteq> replicate 32 0"
    by (simp_all add: name_new_def demo_producer_def)
  from unregister_keeps_routes [OF demo_forwarder_fib(1) this, of 7] demo_forwarder_fib(2)
  show ?thesis by simp
qed

theorem forwarder_never_waits_witness:
  "let (s, rs) = fw_run ext_toy lru_list (forwarder_new lru_list) demo_setup
   in Hangs \<notin> set rs \<and> pn_waiters (fw_notifier s) = Map.empty \<and>
    (\<forall>n e. pit_find (fw_pit s) n = Some e \<longrightarrow> pe_satisfied e)"
proof -
  obtain s rs where r: "fw_run ext_toy lru_list (forwarder_new lru_list) demo_setup = (s, rs)" by fastforce
  then have "Dropped \<notin> set rs" "Panicked \<notin> set rs" by (auto simp: demo_setup_def)
  with forwarder_never_waits [OF r] show ?thesis by (simp add: r)
qed

definition demo_history :: "fw_op list" where
  "demo_history = [OpRegisterKeys demo_producer producer_keys, OpReceiveData (demo_env CallDropped) (demo_data []) 7,
     OpCsInsert 8 (name_new demo_producer [[5]]) (demo_data [[6]])]"

theorem forwarder_authentic_witness:
  "\<exists>h k. OpRegisterKeys h k \<in> set demo_history \<and>
    name_producer_hash (dat_name (demo_data [])) = Some h \<and>
    verify_proof ext_toy k (data_signed_hash ext_toy (demo_data [])) (dat_signature (demo_data [])) = Inr ()"
proof -
  let ?s = "forwarder_with_strategy lru_list (best_route_decide best_route_new)"
  obtain s rs where r: "fw_run ext_toy lru_list ?s (take 2 demo_history) = (s, rs)" by fastforce
  obtain s' rs' where r': "fw_run ext_toy lru_list ?s demo_history = (s', rs')" by fastforce
  have "fw_verify_data ext_toy (fw_register_keys ?s demo_producer producer_keys) (demo_data []) = Some (Inr ())"
    by (simp add: fw_verify_data_def demo_data_def data_new_def name_producer_hash_def name_new_def
        demo_producer_def fw_register_keys_def data_signed_hash_def verify_generated producer_keys_def
        keys_wf_def keys_from_secrets_def)
  then have "cs_map lru_list (fw_cs s) (dat_name (demo_data [])) = Some (demo_data [])"
    using r by (auto simp: demo_history_def fw_receive_data_def Let_def fw_cache_def cs_insert_map
        split: prod.splits)
  then show ?thesis using forwarder_authentic [OF lru_list_ok r] by (auto simp: demo_history_def)
qed

end
