(* ===== verification/Icn_Face.thy ===== *)
theory Icn_Face
  imports Icn_Forwarder
begin

text \<open>
  \<open>crates/icn/src/face.rs\<close>: the in-memory face, a pair of ends connected by unbounded channels. A call
  of \<open>express_interest\<close> takes the receiver of the data channel out of its mutex, leaving the receiver
  of a closed channel in its place, waits on it, and puts it back; the model has these as separate
  steps, so that calls can overlap.
\<close>

section \<open>The pair of faces\<close>

text \<open>What the mutex \<open>data_rx\<close> holds: the receiver of the pair's channel, or one whose sender is gone.\<close>

datatype data_rx = PairRx | ClosedRx

text \<open>One end. \<open>te_data\<close> is what has arrived on the data channel, \<open>None\<close> once its receiver was dropped.\<close>

record test_face =
  te_id :: FaceId
  te_interests :: "interest list"
  te_data :: "icn_data list option"
  te_rx :: data_rx
  te_capabilities :: face_capabilities

definition test_face_new :: "FaceId \<Rightarrow> test_face" where
  "test_face_new i = \<lparr> te_id = i, te_interests = [], te_data = Some [], te_rx = PairRx,
     te_capabilities = \<lparr> fc_disruption_tolerance = from_secs 5, fc_mtu = 1500, fc_is_local = True \<rparr> \<rparr>"

definition test_face_pair :: "test_face \<times> test_face" where
  "test_face_pair = (test_face_new 1, test_face_new 2)"

text \<open>An operation acts on its own end and on the end connected to it, in this order.\<close>

definition tf_send_interest :: "interest \<Rightarrow> test_face \<times> test_face \<Rightarrow> test_face \<times> test_face" where
  "tf_send_interest i = (\<lambda>(f, g). (f, g\<lparr>te_interests := te_interests g @ [i]\<rparr>))"

definition tf_recv_interest :: "test_face \<Rightarrow> test_face \<times> interest option" where
  "tf_recv_interest f = (case te_interests f of
       [] \<Rightarrow> (f, None)
     | i # is \<Rightarrow> (f\<lparr>te_interests := is\<rparr>, Some i))"

text \<open>The next value of a receiver, if there is one; a closed channel has none.\<close>

definition rx_pop :: "data_rx \<Rightarrow> test_face \<Rightarrow> test_face \<times> icn_data option" where
  "rx_pop rx f = (case (rx, te_data f) of
       (PairRx, Some (d # ds)) \<Rightarrow> (f\<lparr>te_data := Some ds\<rparr>, Some d)
     | _ \<Rightarrow> (f, None))"

definition tf_recv_data :: "test_face \<Rightarrow> test_face \<times> icn_data option" where
  "tf_recv_data f = rx_pop (te_rx f) f"

definition tf_send_data :: "icn_data \<Rightarrow> test_face \<times> test_face \<Rightarrow> (test_face \<times> test_face) \<times> (string + unit)" where
  "tf_send_data d = (\<lambda>(f, g). case te_data g of
       Some ds \<Rightarrow> ((f, g\<lparr>te_data := Some (ds @ [d])\<rparr>), Inr ())
     | None \<Rightarrow> ((f, g), Inl ''failed to send Data: channel closed''))"

section \<open>Expressing an interest\<close>

text \<open>The first part sends the interest and takes the receiver.\<close>

definition tf_express_begin :: "interest \<Rightarrow> test_face \<times> test_face \<Rightarrow> data_rx \<times> test_face \<times> test_face" where
  "tf_express_begin i s = (case tf_send_interest i s of (f, g) \<Rightarrow> (te_rx f, f\<lparr>te_rx := ClosedRx\<rparr>, g))"

text \<open>The wait is over when the receiver has a value, when it is closed, or at the timeout.\<close>

definition tf_express_wait :: "bool \<Rightarrow> data_rx \<Rightarrow> test_face \<Rightarrow> (test_face \<times> icn_data option) option" where
  "tf_express_wait timeout rx f = (case rx_pop rx f of
       (f', Some d) \<Rightarrow> Some (f', Some d)
     | (f', None) \<Rightarrow> if rx = ClosedRx \<or> timeout then Some (f', None) else None)"

text \<open>The last part puts the receiver back; the one it replaces is dropped.\<close>

definition tf_express_end :: "data_rx \<Rightarrow> test_face \<Rightarrow> test_face" where
  "tf_express_end rx f = f\<lparr>te_rx := rx, te_data := (if te_rx f = PairRx then None else te_data f)\<rparr>"

text \<open>A call that no other call at the same end overlaps; \<open>ds\<close> is the data the other end sends during
  the wait, and \<open>None\<close> a call that still waits.\<close>

fun tf_arrive :: "icn_data list \<Rightarrow> test_face \<times> test_face \<Rightarrow> test_face \<times> test_face" where
  "tf_arrive [] s = s"
| "tf_arrive (d # ds) (f, g) = (case fst (tf_send_data d (g, f)) of (g, f) \<Rightarrow> tf_arrive ds (f, g))"

definition tf_express_interest ::
  "interest \<Rightarrow> icn_data list \<Rightarrow> bool \<Rightarrow> test_face \<times> test_face \<Rightarrow>
     ((test_face \<times> test_face) \<times> (string + icn_data option)) option" where
  "tf_express_interest i ds timeout s = (case tf_express_begin i s of (rx, s) \<Rightarrow>
     (case tf_arrive ds s of (f, g) \<Rightarrow>
       (case tf_express_wait timeout rx f of
          None \<Rightarrow> None
        | Some (f, r) \<Rightarrow> Some ((tf_express_end rx f, g), Inr r))))"

section \<open>What the face delivers\<close>

lemmas tf_defs = tf_send_interest_def tf_recv_interest_def tf_recv_data_def tf_send_data_def rx_pop_def
  tf_express_begin_def tf_express_wait_def tf_express_end_def tf_express_interest_def

lemma tf_arrive_live:
  "te_data f = Some q \<Longrightarrow> tf_arrive ds (f, g) = (f\<lparr>te_data := Some (q @ ds)\<rparr>, g)"
  by (induction ds arbitrary: f q) (simp_all add: tf_send_data_def)

text \<open>
  Calls that do not overlap: the interest arrives at the other end, and the call returns the first data
  packet not yet taken, whether it was sent during this call or left over from an earlier one, and
  \<open>None\<close> at the timeout when there is none. Nothing is lost: what remains is there for the next call.
\<close>

theorem test_face_express:
  assumes "te_rx f = PairRx" and "te_data f = Some q"
  shows "tf_express_interest i ds timeout (f, g) =
    (let g' = g\<lparr>te_interests := te_interests g @ [i]\<rparr> in
     case q @ ds of
       d # rest \<Rightarrow> Some ((f\<lparr>te_data := Some rest\<rparr>, g'), Inr (Some d))
     | [] \<Rightarrow> if timeout then Some ((f, g'), Inr None) else None)"
  using assms by (auto simp: tf_defs tf_arrive_live Let_def split: list.splits)

theorem test_face_express_witness:
  "tf_express_interest i [d] False test_face_pair =
     Some ((test_face_new 1, (test_face_new 2)\<lparr>te_interests := [i]\<rparr>), Inr (Some d))"
  using test_face_express [of "test_face_new 1" "[]" i "[d]" False "test_face_new 2"]
  by (simp add: test_face_pair_def test_face_new_def)

text \<open>
  A data packet that arrives after its interest timed out answers the next interest, whatever its name.
\<close>

theorem test_face_stale_data:
  "\<exists>s1 s2. tf_express_interest i [] True test_face_pair = Some (s1, Inr None) \<and>
     tf_express_interest j [] True (tf_arrive [d] s1) = Some (s2, Inr (Some d))"
  by (simp add: test_face_pair_def test_face_new_def tf_defs)

text \<open>
  Two overlapping calls can disconnect the pair: the second call takes the closed receiver, the first
  puts the pair's receiver back, and the second replaces it. From then on the other end cannot send.
\<close>

theorem test_face_overlap_closes:
  assumes "te_rx f = PairRx" and "te_data f = Some (d # q)"
  shows "let (rx1, f1, g1) = tf_express_begin i (f, g); (rx2, f2, g2) = tf_express_begin j (f1, g1) in
    \<exists>f3. tf_express_wait False rx1 f2 = Some (f3, Some d) \<and>
      (let f4 = tf_express_end rx1 f3; f5 = tf_express_end rx2 f4 in
       tf_express_wait False rx2 f4 = Some (f4, None) \<and>
       snd (tf_send_data e (g2, f5)) = Inl ''failed to send Data: channel closed'' \<and>
       tf_recv_data f5 = (f5, None))"
  using assms by (simp add: tf_defs Let_def)

end
