(* ===== verification/Icn_Link_Face.thy ===== *)
theory Icn_Link_Face
  imports Icn_Forwarder Link
begin

text \<open>
  \<open>crates/icn/src/link_face.rs\<close>: a face of the forwarder over a transport link. The face shares its
  link between the calls through a mutex, which a panic poisons, puts the packets it sends into an
  unbounded queue for the caller to route, and wakes a waiting \<open>express_interest\<close> through a
  notification: it wakes the waiter if one is registered and not yet woken, and else stores a permit, of which
  there is at most one. A call is its first part, up to the wait, and its reaction to the events that follow.
\<close>

section \<open>The face\<close>

text \<open>A waiting call, registered with the notification and then woken by it.\<close>

datatype lf_waiter = NoWaiter | Registered | Notified

record link_face =
  lf_id :: FaceId
  lf_link :: link
  lf_poisoned :: bool         \<comment> \<open>a call panicked with the mutex locked\<close>
  lf_packets :: "bytes list"  \<comment> \<open>\<open>packet_tx\<close>\<close>
  lf_permit :: bool           \<comment> \<open>\<open>data_notify\<close>\<close>
  lf_waiter :: lf_waiter

definition link_face_new :: "FaceId \<Rightarrow> link \<Rightarrow> link_face" where
  "link_face_new i l =
     \<lparr> lf_id = i, lf_link = l, lf_poisoned = False, lf_packets = [], lf_permit = False,
       lf_waiter = NoWaiter \<rparr>"

text \<open>\<open>notify_one\<close>.\<close>

definition lf_notify_one :: "link_face \<Rightarrow> link_face" where
  "lf_notify_one f = (if lf_waiter f = Registered then f\<lparr>lf_waiter := Notified\<rparr> else f\<lparr>lf_permit := True\<rparr>)"

text \<open>How a call ends: with a result, or with a panic.\<close>

datatype 'r lf_result = LfDone "string + 'r" | LfPanic

definition lf_deliver_packet :: "ext \<Rightarrow> instant \<Rightarrow> bytes \<Rightarrow> link_face \<Rightarrow> link_face \<times> unit lf_result" where
  "lf_deliver_packet E now packet f = (case packet_from_bytes packet of
       Inl e \<Rightarrow> (f, LfDone (Inl (''invalid packet: '' @ packet_error_text e)))
     | Inr p \<Rightarrow>
         if lf_poisoned f then (f, LfPanic)
         else (case link_deliver E now p (lf_link f) of
             (l, Inl e) \<Rightarrow> (f\<lparr>lf_link := l\<rparr>, LfDone (Inl (''deliver failed: '' @ transport_error_text e)))
           | (l, Inr _) \<Rightarrow> (lf_notify_one (f\<lparr>lf_link := l\<rparr>), LfDone (Inr ()))))"

text \<open>The part that \<open>express_interest\<close> and \<open>send_data\<close> share: send over the link, queue the packet.\<close>

definition lf_transmit ::
  "ext \<Rightarrow> instant \<Rightarrow> bytes \<Rightarrow> bytes \<Rightarrow> bytes \<Rightarrow> link_face \<Rightarrow> link_face \<times> unit lf_result" where
  "lf_transmit E now eph iv msg f =
     (if lf_poisoned f then (f, LfPanic)
      else case link_send E now eph iv msg (lf_link f) of
          (l, Inl e) \<Rightarrow> (f\<lparr>lf_link := l\<rparr>, LfDone (Inl (''send failed: '' @ transport_error_text e)))
        | (l, Inr p) \<Rightarrow> (f\<lparr>lf_link := l, lf_packets := lf_packets f @ [packet_to_bytes p]\<rparr>, LfDone (Inr ())))"

definition lf_send_data ::
  "ext \<Rightarrow> instant \<Rightarrow> bytes \<Rightarrow> bytes \<Rightarrow> icn_data \<Rightarrow> link_face \<Rightarrow> link_face \<times> unit lf_result" where
  "lf_send_data E now eph iv d f = lf_transmit E now eph iv (data_to_bytes d) f"

text \<open>The look at the link at the head of the loop; \<open>None\<close> goes on to wait.\<close>

definition lf_check :: "link_face \<Rightarrow> link_face \<times> icn_data option lf_result option" where
  "lf_check f =
     (if lf_poisoned f then (f, Some LfPanic)
      else case link_recv (lf_link f) of
          (l, None) \<Rightarrow> (f\<lparr>lf_link := l\<rparr>, None)
        | (l, Some bytes) \<Rightarrow>
            (case data_from_bytes bytes of
               None \<Rightarrow> (f\<lparr>lf_link := l, lf_poisoned := True\<rparr>, Some LfPanic)
             | Some (Inl _) \<Rightarrow> (f\<lparr>lf_link := l\<rparr>, None)
             | Some (Inr d) \<Rightarrow> (f\<lparr>lf_link := l\<rparr>, Some (LfDone (Inr (Some d))))))"

lemma lf_check_permit: "lf_check f = (f', r) \<Longrightarrow> lf_permit f' = lf_permit f \<and> lf_waiter f' = lf_waiter f"
  by (auto simp: lf_check_def split: if_splits prod.splits option.splits sum.splits)

text \<open>The loop until the call has ended or waits: with a permit at hand \<open>notified()\<close> returns at once and the loop
  goes round again, without one the call registers.\<close>

function lf_loop :: "link_face \<Rightarrow> link_face \<times> icn_data option lf_result option" where
  "lf_loop f = (case lf_check f of
       (f, Some r) \<Rightarrow> (f, Some r)
     | (f, None) \<Rightarrow> if lf_permit f then lf_loop (f\<lparr>lf_permit := False\<rparr>) else (f\<lparr>lf_waiter := Registered\<rparr>, None))"
  by pat_completeness auto
termination by (relation "measure (\<lambda>f. if lf_permit f then 1 else 0)") (auto dest: lf_check_permit [OF sym])

declare lf_loop.simps [simp del]

text \<open>What happens while a call waits: a packet is delivered to the face, the call is polled, or its
  timer, started anew in each round, runs out.\<close>

datatype lf_event = LfPacket instant bytes | LfPoll | LfTimeout

text \<open>The loop on a sequence of events, \<open>None\<close> when the call still waits after them. A poll goes on
  only after a notification. A call that ends at the timeout gives up its registration, and hands a notification
  it has not yet seen back.\<close>

fun lf_wait :: "ext \<Rightarrow> lf_event list \<Rightarrow> link_face \<Rightarrow> link_face \<times> icn_data option lf_result option" where
  "lf_wait E [] f = (f, None)"
| "lf_wait E (LfPacket now packet # es) f = lf_wait E es (fst (lf_deliver_packet E now packet f))"
| "lf_wait E (LfTimeout # es) f =
     (f\<lparr>lf_waiter := NoWaiter, lf_permit := lf_permit f \<or> lf_waiter f = Notified\<rparr>, Some (LfDone (Inr None)))"
| "lf_wait E (LfPoll # es) f =
     (if lf_waiter f \<noteq> Notified then lf_wait E es f
      else case lf_loop (f\<lparr>lf_waiter := NoWaiter\<rparr>) of
          (f, Some r) \<Rightarrow> (f, Some r)
        | (f, None) \<Rightarrow> lf_wait E es f)"

definition lf_express_interest ::
  "ext \<Rightarrow> instant \<Rightarrow> bytes \<Rightarrow> bytes \<Rightarrow> interest \<Rightarrow> lf_event list \<Rightarrow> link_face \<Rightarrow>
     link_face \<times> icn_data option lf_result option" where
  "lf_express_interest E now eph iv i es f = (case lf_transmit E now eph iv (interest_to_bytes i) f of
       (f, LfPanic) \<Rightarrow> (f, Some LfPanic)
     | (f, LfDone (Inl e)) \<Rightarrow> (f, Some (LfDone (Inl e)))
     | (f, LfDone (Inr _)) \<Rightarrow>
         (case lf_loop f of
            (f, Some r) \<Rightarrow> (f, Some r)
          | (f, None) \<Rightarrow> lf_wait E es f))"

definition lf_capabilities :: face_capabilities where
  "lf_capabilities = \<lparr> fc_disruption_tolerance = from_secs 3600, fc_mtu = 500, fc_is_local = False \<rparr>"

section \<open>Messages over the face\<close>

definition lf_ready :: "link_face \<Rightarrow> bool" where
  "lf_ready f \<longleftrightarrow> \<not> lf_poisoned f \<and> lf_waiter f = NoWaiter \<and> lnk_inbound (lf_link f) = [] \<and>
     length (lnk_remote (lf_link f)) = 16 \<and> length (lnk_transport_id (lf_link f)) = 16"

lemma lf_carry:
  assumes "hash_ok E" "aes_ok E" "lnk_state (lf_link f) = Established" "lnk_shared_key (lf_link f) = Some k"
    and "\<not> lf_poisoned f" "length (lnk_remote (lf_link f)) = 16" "length (lnk_transport_id (lf_link f)) = 16"
    and "link_fits (lf_link f) m"
  obtains out p where "lf_transmit E now eph iv m f = (f\<lparr>lf_link := (lf_link f)\<lparr>lnk_outbound := out, lnk_last_outbound := now\<rparr>,
      lf_packets := lf_packets f @ [p]\<rparr>, LfDone (Inr ()))"
    and "\<And>t g. link_ends (lf_link f) (lf_link g) \<Longrightarrow> \<not> lf_poisoned g \<Longrightarrow> lf_deliver_packet E t p g =
      (lf_notify_one (g\<lparr>lf_link := (lf_link g)\<lparr>lnk_inbound := lnk_inbound (lf_link g) @ [m], lnk_last_inbound := t\<rparr>\<rparr>),
       LfDone (Inr ()))"
proof -
  let ?p = "link_packet (lf_link f) FLAG_UNSET DATA NONE (encrypt_link_data E m k (lnk_link_id (lf_link f)))"
  have "lf_transmit E now eph iv m f = (f\<lparr>lf_link := (lf_link f)\<lparr>lnk_outbound := lnk_outbound (lf_link f) @ [?p],
      lnk_last_outbound := now\<rparr>, lf_packets := lf_packets f @ [packet_to_bytes ?p]\<rparr>, LfDone (Inr ()))"
    using link_send_ok [OF assms(1-4,8), of now eph iv] assms(5) by (simp add: lf_transmit_def)
  moreover have "lf_deliver_packet E t (packet_to_bytes ?p) g =
      (lf_notify_one (g\<lparr>lf_link := (lf_link g)\<lparr>lnk_inbound := lnk_inbound (lf_link g) @ [m], lnk_last_inbound := t\<rparr>\<rparr>),
       LfDone (Inr ()))" if "link_ends (lf_link f) (lf_link g)" "\<not> lf_poisoned g" for t g
    using link_deliver_sent [OF assms(1,2) that(1) assms(4), of t m] link_packet_wf [OF assms(6,7)] that(2)
    by (simp add: lf_deliver_packet_def packet_dec_enc)
  ultimately show ?thesis by (rule that)
qed

text \<open>C11. 
  An interest expressed over a pair of link faces is answered: the packet the face queues, delivered
  at the other end, makes the interest available there, with its lifetime cut to 32 bits; and when
  the data packet that end sends back has been delivered and the call is polled, the call
  returns exactly that data.
\<close>

theorem link_face_exchange:
  assumes "hash_ok E" and "aes_ok E" and "link_ends (lf_link f) (lf_link g)"
    and "lf_ready f" and "lf_ready g" and "\<not> lf_permit f" and "interest_wf i" and "data_wf d"
    and "link_fits (lf_link f) (interest_to_bytes i)" and "link_fits (lf_link g) (data_to_bytes d)"
  shows "\<exists>f1 p g1 l m g3 q. lf_express_interest E t0 eph iv i [] f = (f1, None) \<and> lf_packets f1 = lf_packets f @ [p] \<and>
    lf_deliver_packet E t1 p g = (g1, LfDone (Inr ())) \<and> link_recv (lf_link g1) = (l, Some m) \<and>
    interest_from_bytes m = Some (Inr (i\<lparr>int_lifetime := from_millis (as_millis (int_lifetime i) mod 2 ^ 32)\<rparr>)) \<and>
    lf_send_data E t2 eph' iv' d g1 = (g3, LfDone (Inr ())) \<and> lf_packets g3 = lf_packets g @ [q] \<and>
    snd (lf_express_interest E t0 eph iv i [LfPoll, LfPacket t3 q, LfPoll] f) = Some (LfDone (Inr (Some d)))"
proof -
  obtain k where k: "lnk_shared_key (lf_link f) = Some k" "lnk_shared_key (lf_link g) = Some k"
    using assms(3) unfolding link_ends_def by blast
  have est: "lnk_state (lf_link f) = Established" "lnk_state (lf_link g) = Established"
    using assms(3) by (simp_all add: link_ends_def)
  note ready = assms(4,5) [unfolded lf_ready_def]
  obtain out p where 1: "lf_transmit E t0 eph iv (interest_to_bytes i) f = (f\<lparr>lf_link := (lf_link f)\<lparr>lnk_outbound := out,
      lnk_last_outbound := t0\<rparr>, lf_packets := lf_packets f @ [p]\<rparr>, LfDone (Inr ()))" (is "_ = (?f1, _)")
    and 2: "lf_deliver_packet E t1 p g = (g\<lparr>lf_link := (lf_link g)\<lparr>lnk_inbound := [interest_to_bytes i],
      lnk_last_inbound := t1\<rparr>, lf_permit := True\<rparr>, LfDone (Inr ()))" (is "_ = (?g1, _)")
    by (rule lf_carry [OF assms(1,2) est(1) k(1) _ _ _ assms(9), of t0 eph iv])
      (use ready assms(3) in \<open>simp_all add: lf_notify_one_def\<close>)
  obtain out' q where 3: "lf_transmit E t2 eph' iv' (data_to_bytes d) ?g1 = (?g1\<lparr>lf_link := (lf_link ?g1)\<lparr>lnk_outbound := out',
      lnk_last_outbound := t2\<rparr>, lf_packets := lf_packets g @ [q]\<rparr>, LfDone (Inr ()))"
    and 4: "lf_deliver_packet E t3 q (?f1\<lparr>lf_waiter := Registered\<rparr>) = (?f1\<lparr>lf_link := (lf_link ?f1)\<lparr>lnk_inbound := [data_to_bytes d],
      lnk_last_inbound := t3\<rparr>, lf_waiter := Notified\<rparr>, LfDone (Inr ()))"
    by (rule lf_carry [OF assms(1,2), of ?g1 k "data_to_bytes d" t2 eph' iv'])
      (use ready est k assms(3,10) in \<open>simp_all add: link_ends_def link_fits_def lf_notify_one_def\<close>)
  have c: "lf_loop ?f1 = (?f1\<lparr>lf_waiter := Registered\<rparr>, None)"
    using ready assms(6) by (subst lf_loop.simps) (simp add: lf_check_def link_recv_def)
  have "snd (lf_express_interest E t0 eph iv i [LfPoll, LfPacket t3 q, LfPoll] f) = Some (LfDone (Inr (Some d)))"
    using ready assms(6) data_dec_enc [OF assms(8), of "[]"]
    by (simp add: lf_express_interest_def 1 c 4) (subst lf_loop.simps, simp add: lf_check_def link_recv_def)
  then show ?thesis using 2 3 interest_dec_enc [OF assms(7), of "[]"]
    by (intro exI [of _ "?f1\<lparr>lf_waiter := Registered\<rparr>"] exI [of _ p] exI [of _ ?g1] exI [of _ "(lf_link ?g1)\<lparr>lnk_inbound := []\<rparr>"]
        exI [of _ "interest_to_bytes i"] exI [of _ "?g1\<lparr>lf_link := (lf_link ?g1)\<lparr>lnk_outbound := out',
          lnk_last_outbound := t2\<rparr>, lf_packets := lf_packets g @ [q]\<rparr>"] exI [of _ q])
      (simp add: lf_express_interest_def 1 c link_recv_def lf_send_data_def)
qed

definition demo_face :: "FaceId \<Rightarrow> u8 \<Rightarrow> u8 \<Rightarrow> link_face" where
  "demo_face i m n = link_face_new i (demo_link m n)"

definition lf_demo_interest :: interest where
  "lf_demo_interest = interest_new (replicate 8 7) (name_new (replicate 32 1) [[97]])"

definition lf_demo_data :: icn_data where
  "lf_demo_data = data_new ext_toy (name_new (replicate 32 1) [[97]]) [1, 2, 3]
     \<lparr>prf_packet_hash = replicate 32 4, prf_signature = replicate 64 5\<rparr>"

lemma demo_face_link [simp]: "lf_link (demo_face i m n) = demo_link m n"
  by (simp add: demo_face_def link_face_new_def)

lemma demo_face_ready [simp]: "lf_ready (demo_face i 1 3)" "lf_ready (demo_face i 3 1)" "\<not> lf_permit (demo_face i m n)"
  by (simp_all add: lf_ready_def demo_face_def link_face_new_def)
    (simp_all add: demo_link_def link_setters link_new_def link_with_config_def derive_transport_id_def
      demo_dest_def destination_singleton_def)

lemma demo_packets_wf: "interest_wf lf_demo_interest" "data_wf lf_demo_data"
  by (simp_all add: lf_demo_interest_def lf_demo_data_def interest_wf_def name_wf_def interest_new_def name_new_def
      MAX_COMPONENTS_def data_wf_def data_new_def metadata_wf_def proof_wf_def hash_lengths)

lemma demo_link_fits: "length m \<le> 400 \<Longrightarrow> link_fits (demo_link a b) m"
  using div_le_mono [of "length m" 400 16]
  by (simp add: link_fits_def demo_link_def link_setters link_new_def link_with_config_def link_config_default_def)

lemma demo_packets_fit:
  "link_fits (demo_link 1 3) (interest_to_bytes lf_demo_interest)" "link_fits (demo_link 3 1) (data_to_bytes lf_demo_data)"
proof -
  have n: "length (name_to_bytes (name_new (replicate 32 1) [[97]])) = 36" by (simp add: name_to_bytes_def name_new_def)
  show "link_fits (demo_link 1 3) (interest_to_bytes lf_demo_interest)"
    using n write_varint_length_le [of 36]
    by (intro demo_link_fits) (simp add: interest_to_bytes_def lf_demo_interest_def interest_new_def)
  show "link_fits (demo_link 3 1) (data_to_bytes lf_demo_data)"
    using n write_varint_length_le [of 36] write_varint_length_le [of 33]
    by (intro demo_link_fits) (simp add: data_to_bytes_def lf_demo_data_def data_new_def metadata_to_bytes_def
        proof_to_bytes_def hash_lengths)
qed

theorem link_face_exchange_witness:
  "\<exists>f1 p g1 l m g3 q. lf_express_interest ext_toy 0 [] [] lf_demo_interest [] (demo_face 1 1 3) = (f1, None) \<and>
    lf_packets f1 = lf_packets (demo_face 1 1 3) @ [p] \<and>
    lf_deliver_packet ext_toy 1 p (demo_face 2 3 1) = (g1, LfDone (Inr ())) \<and> link_recv (lf_link g1) = (l, Some m) \<and>
    interest_from_bytes m = Some (Inr (lf_demo_interest\<lparr>int_lifetime := from_millis (as_millis (int_lifetime lf_demo_interest) mod 2 ^ 32)\<rparr>)) \<and>
    lf_send_data ext_toy 2 [] [] lf_demo_data g1 = (g3, LfDone (Inr ())) \<and> lf_packets g3 = lf_packets (demo_face 2 3 1) @ [q] \<and>
    snd (lf_express_interest ext_toy 0 [] [] lf_demo_interest [LfPoll, LfPacket 3 q, LfPoll] (demo_face 1 1 3)) =
      Some (LfDone (Inr (Some lf_demo_data)))"
  by (rule link_face_exchange) (use demo_packets_wf demo_packets_fit in simp_all)

section \<open>Answers that are not seen\<close>

lemma lf_wait_not_woken: "lf_waiter f \<noteq> Notified \<Longrightarrow> lf_wait E (replicate n LfPoll @ es) f = lf_wait E es f"
  by (induction n) simp_all

text \<open>
  An answer can be left in the queue: between two polls of a waiting call the notification keeps one wake-up
  and one permit, and the loop looks at one message for each. If two messages that are no data, such as
  interests of the peer, and then the answer are delivered before the waiting call is polled, then the call drops
  the first two, does not look at the third however often it is polled, and returns \<open>None\<close> at the timeout with the
  answer still in the link.
\<close>

theorem link_face_strands_data:
  assumes "lf_wait E [LfPacket t1 p1, LfPacket t2 p2, LfPacket t3 q] f = (f2, None)" and "\<not> lf_poisoned f2"
    and "lf_waiter f2 = Notified" and "lnk_inbound (lf_link f2) = [m1, m2, data_to_bytes d]"
    and "data_from_bytes m1 = Some (Inl e1)" and "data_from_bytes m2 = Some (Inl e2)"
  shows "\<exists>f3. lf_wait E ([LfPacket t1 p1, LfPacket t2 p2, LfPacket t3 q] @ replicate (Suc n) LfPoll @ [LfTimeout]) f =
      (f3, Some (LfDone (Inr None))) \<and> data_to_bytes d \<in> set (lnk_inbound (lf_link f3))"
proof -
  let ?l = "\<lambda>ms. (lf_link f2)\<lparr>lnk_inbound := ms\<rparr>"
  let ?r = "lf_loop (f2\<lparr>lf_waiter := NoWaiter\<rparr>)"
  have 1: "lf_check (f2\<lparr>lf_waiter := NoWaiter\<rparr>) = (f2\<lparr>lf_waiter := NoWaiter, lf_link := ?l [m2, data_to_bytes d]\<rparr>, None)"
    "lf_check (f2\<lparr>lf_waiter := NoWaiter, lf_link := ?l [m2, data_to_bytes d], lf_permit := False\<rparr>) =
      (f2\<lparr>lf_waiter := NoWaiter, lf_link := ?l [data_to_bytes d], lf_permit := False\<rparr>, None)"
    using assms(2,4,5,6) by (simp_all add: lf_check_def link_recv_def)
  have "snd ?r = None \<and> lf_waiter (fst ?r) = Registered \<and> data_to_bytes d \<in> set (lnk_inbound (lf_link (fst ?r)))"
    by (subst (1 2 3) lf_loop.simps) (simp add: 1, subst (1 2 3) lf_loop.simps, simp add: 1)
  then have "\<exists>f3. lf_wait E (replicate (Suc n) LfPoll @ [LfTimeout]) f2 = (f3, Some (LfDone (Inr None))) \<and>
      data_to_bytes d \<in> set (lnk_inbound (lf_link f3))"
    using assms(3) lf_wait_not_woken [of "fst ?r" E n "[LfTimeout]"] by (cases ?r) auto
  then show ?thesis using assms(1) by simp
qed

theorem link_face_strands_data_witness:
  "\<exists>p q f3. lf_wait ext_toy ([LfPacket 1 p, LfPacket 2 p, LfPacket 3 q] @ replicate (Suc 5) LfPoll @ [LfTimeout])
      ((demo_face 1 1 3)\<lparr>lf_waiter := Registered\<rparr>) =
      (f3, Some (LfDone (Inr None))) \<and> data_to_bytes lf_demo_data \<in> set (lnk_inbound (lf_link f3))"
proof -
  let ?g = "demo_face 2 3 1" and ?f = "(demo_face 1 1 3)\<lparr>lf_waiter := Registered\<rparr>"
  note ready = demo_face_ready(1,2) [unfolded lf_ready_def]
  have ends: "link_ends (lf_link ?g) (lf_link ?f)" using demo_link_ends by (auto simp: link_ends_def)
  have g: "lnk_state (lf_link ?g) = Established" "lnk_shared_key (lf_link ?g) = Some (replicate 32 7)"
    by (simp_all add: demo_link_def link_setters)
  obtain out p where "lf_transmit ext_toy 0 [] [] [] ?g = (?g\<lparr>lf_link := (lf_link ?g)\<lparr>lnk_outbound := out,
      lnk_last_outbound := 0\<rparr>, lf_packets := lf_packets ?g @ [p]\<rparr>, LfDone (Inr ()))"
    and p: "lf_deliver_packet ext_toy t p f = (lf_notify_one (f\<lparr>lf_link := (lf_link f)\<lparr>lnk_inbound := lnk_inbound (lf_link f) @ [[]],
      lnk_last_inbound := t\<rparr>\<rparr>), LfDone (Inr ()))" if "link_ends (lf_link ?g) (lf_link f)" "\<not> lf_poisoned f" for t f
    by (rule lf_carry [OF _ _ g, of ext_toy "[]" 0 "[]" "[]"]) (use ready in \<open>simp_all add: demo_link_fits\<close>)
  obtain out' q where "lf_transmit ext_toy 0 [] [] (data_to_bytes lf_demo_data) ?g = (?g\<lparr>lf_link := (lf_link ?g)\<lparr>lnk_outbound := out',
      lnk_last_outbound := 0\<rparr>, lf_packets := lf_packets ?g @ [q]\<rparr>, LfDone (Inr ()))"
    and q: "lf_deliver_packet ext_toy t q f = (lf_notify_one (f\<lparr>lf_link := (lf_link f)\<lparr>lnk_inbound := lnk_inbound (lf_link f) @
      [data_to_bytes lf_demo_data], lnk_last_inbound := t\<rparr>\<rparr>), LfDone (Inr ()))"
    if "link_ends (lf_link ?g) (lf_link f)" "\<not> lf_poisoned f" for t f
    by (rule lf_carry [OF _ _ g, of ext_toy "data_to_bytes lf_demo_data" 0 "[]" "[]"]) (use ready demo_packets_fit in simp_all)
  define face where "face ms t permit = ?f\<lparr>lf_link := (lf_link ?f)\<lparr>lnk_inbound := ms, lnk_last_inbound := t\<rparr>,
      lf_waiter := Notified, lf_permit := permit\<rparr>" for ms t permit
  have e: "link_ends (lf_link ?g) (lf_link (face ms t b))" "\<not> lf_poisoned (face ms t b)" for ms t b
    using ends ready by (auto simp: link_ends_def face_def)
  have "fst (lf_deliver_packet ext_toy 1 p ?f) = face [[]] 1 False"
    using p [OF ends, of 1] ready by (simp add: face_def lf_notify_one_def demo_face_def link_face_new_def)
  moreover have "fst (lf_deliver_packet ext_toy 2 p (face [[]] 1 False)) = face [[], []] 2 True"
    using p [OF e, of 2 "[[]]" 1 False] by (simp add: face_def lf_notify_one_def)
  moreover have "fst (lf_deliver_packet ext_toy 3 q (face [[], []] 2 True)) = face [[], [], data_to_bytes lf_demo_data] 3 True"
    using q [OF e, of 3 "[[], []]" 2 True] by (simp add: face_def lf_notify_one_def)
  ultimately have "lf_wait ext_toy [LfPacket 1 p, LfPacket 2 p, LfPacket 3 q] ?f = (face [[], [], data_to_bytes lf_demo_data] 3 True, None)"
    by simp
  from link_face_strands_data [OF this e(2), of "[]" "[]" lf_demo_data DataBufferTooShort DataBufferTooShort 5] show ?thesis
    by (fastforce simp: face_def data_from_bytes_def read_varint_def)
qed

text \<open>
  One message can disable a face for good: ten bytes whose length field overflows make the call that
  takes them from the link panic with the mutex locked, and every later call on the
  face that needs the link panics too.
\<close>

theorem link_face_poisoned:
  assumes "\<not> lf_poisoned f" and "lnk_inbound (lf_link f) = (replicate 9 0xFF @ 1 # rest) # ms" and "lf_check f = (f', r)"
  shows "r = Some LfPanic \<and> lf_transmit E now eph iv m f' = (f', LfPanic) \<and>
    (\<forall>p. packet_wf p \<longrightarrow> lf_deliver_packet E now (packet_to_bytes p) f' = (f', LfPanic))"
  using assms overlong_data [of rest]
  by (auto simp: lf_check_def link_recv_def lf_transmit_def lf_deliver_packet_def packet_dec_enc)

theorem link_face_poisoned_witness:
  "let f = (demo_face 1 1 3)\<lparr>lf_link := (demo_link 1 3)\<lparr>lnk_inbound := [replicate 9 0xFF @ [1]]\<rparr>\<rparr>
   in snd (lf_check f) = Some LfPanic \<and> snd (lf_transmit ext_toy 0 [] [] [1] (fst (lf_check f))) = LfPanic"
  using link_face_poisoned [of "(demo_face 1 1 3)\<lparr>lf_link := (demo_link 1 3)\<lparr>lnk_inbound := [replicate 9 0xFF @ [1]]\<rparr>\<rparr>" "[]" "[]"]
    demo_face_ready(1) [of 1]
  by (simp add: lf_ready_def Let_def) (metis prod.collapse snd_conv)

end
