(* ===== verification/Icn_Manifest.thy ===== *)
theory Icn_Manifest
  imports Icn_Forwarder
begin

text \<open>
  \<open>crates/icn/src/manifest.rs\<close>, and the text form of names from \<open>crates/icn/src/name.rs\<close> that it
  uses: manifests list the content of a producer by name, are serialised as JSON with names as text,
  and are published as signed data packets. A Rust string is the list of its UTF-8 bytes,
  written as characters. The JSON reader and writer are a parameter on manifests whose names
  are texts; the names are read and written by the code's own functions.
\<close>

section \<open>Names as text\<close>

definition component_display :: "ext \<Rightarrow> bytes \<Rightarrow> string" where
  "component_display E c =
     (if length c = 32 then hex_prefix E c
      else if utf8_valid c then bytes_str c else hex_prefix E c)"

definition name_display :: "ext \<Rightarrow> name \<Rightarrow> string" where
  "name_display E n =
     concat (map (\<lambda>c. CHR ''/'' # component_display E c) (nm_components n)) @
     (case nm_content_hash n of Some h \<Rightarrow> ''?blake3='' @ hex_prefix E h | None \<Rightarrow> [])"

text \<open>\<open>expand_compact_hex\<close>; the length of the middle part underflows, which panics (\<open>None\<close>), when the
  two ends have more than 64 characters.\<close>

definition expand_compact_hex :: "string \<Rightarrow> string option" where
  "expand_compact_hex compact = (case find_sub ''..'' compact of
       None \<Rightarrow> Some compact
     | Some dot_pos \<Rightarrow>
         let pre = take dot_pos compact; suf = drop (dot_pos + 2) compact
         in if 64 < length pre + length suf then None
            else Some (pre @ replicate (64 - length pre - length suf) CHR ''0'' @ suf))"

definition parse_hash :: "ext \<Rightarrow> string \<Rightarrow> string \<Rightarrow> string \<Rightarrow> (string + bytes) option" where
  "parse_hash E bad_hex bad_len s =
     map_option (\<lambda>hex. case hex_decode E hex of
         Inl e \<Rightarrow> Inl (bad_hex @ e)
       | Inr b \<Rightarrow> if length b \<noteq> 32 then Inl bad_len else Inr b) (expand_compact_hex s)"

definition parse_component :: "ext \<Rightarrow> string \<Rightarrow> bytes" where
  "parse_component E cs = (case hex_decode E cs of Inr b \<Rightarrow> b | Inl _ \<Rightarrow> str_bytes cs)"

definition parse_components :: "ext \<Rightarrow> string \<Rightarrow> (string + bytes list) option" where
  "parse_components E name_part = (case filter (\<lambda>c. c \<noteq> []) (split_char CHR ''/'' name_part) of
       [] \<Rightarrow> Some (Inl ''name must have at least a producer hash'')
     | c # cs \<Rightarrow> map_option (map_sum id (\<lambda>p. p # map (parse_component E) cs))
         (parse_hash E ''invalid producer hash hex: '' ''producer hash must be 32 bytes'' c))"

definition parse_name_from_display :: "ext \<Rightarrow> string \<Rightarrow> (string + name) option" where
  "parse_name_from_display E s =
     (let s = dropWhile (\<lambda>c. c = CHR ''/'') s;
          build = (\<lambda>h. map_sum id (\<lambda>cs. \<lparr>nm_components = cs, nm_content_hash = h\<rparr>))
      in case find_sub ''?blake3='' s of
           None \<Rightarrow> map_option (build None) (parse_components E s)
         | Some q \<Rightarrow>
             (case parse_hash E ''invalid hash hex: '' ''content hash must be 32 bytes'' (drop (q + 8) s) of
                None \<Rightarrow> None
              | Some (Inl e) \<Rightarrow> Some (Inl e)
              | Some (Inr h) \<Rightarrow> map_option (build (Some h)) (parse_components E (take q s))))"

section \<open>Manifests\<close>

text \<open>The types take names as a parameter: \<open>name\<close> in the program, text in the JSON form.\<close>

datatype EntryKind = Blob | Stream | SubManifest

record 'n manifest_entry =
  me_kind :: EntryKind
  me_label :: string
  me_content_name :: 'n
  me_content_hash :: "bytes option"
  me_size :: "u64 option"

record 'n manifest =
  mf_producer :: bytes
  mf_sequence :: u64
  mf_timestamp :: u64
  mf_entries :: "'n manifest_entry list"
  mf_previous :: "'n option"

record 'n chunk_ref =
  cr_name :: 'n
  cr_hash :: bytes
  cr_offset :: u64
  cr_length :: u32

record 'n content_manifest =
  cm_chunks :: "'n chunk_ref list"
  cm_total_size :: u64

datatype ManifestError =
    MfJson
  | MfInvalidName string
  | MfContentHashMismatch (expected_hash: bytes) (actual_hash: bytes)

text \<open>The parameter: \<open>serde_json\<close> on these types, and its documented round trip. A reader that fails gives the
  texts of the names it has come across before.\<close>

record json =
  js_manifest :: "string manifest \<Rightarrow> bytes"
  js_read_manifest :: "bytes \<Rightarrow> string list + string manifest"
  js_content :: "string content_manifest \<Rightarrow> bytes"
  js_read_content :: "bytes \<Rightarrow> string list + string content_manifest"

definition json_ok :: "json \<Rightarrow> bool" where
  "json_ok J \<longleftrightarrow> (\<forall>m. js_read_manifest J (js_manifest J m) = Inr m) \<and>
     (\<forall>c. js_read_content J (js_content J c) = Inr c)"

text \<open>\<open>Serialize\<close> and \<open>Deserialize\<close>: the names are written as text and read back from it, in the
  order of the fields. \<open>None\<close> is a panic of the reader of names.\<close>

definition entry_text :: "ext \<Rightarrow> name manifest_entry \<Rightarrow> string manifest_entry" where
  "entry_text E e = \<lparr>me_kind = me_kind e, me_label = me_label e,
     me_content_name = name_display E (me_content_name e), me_content_hash = me_content_hash e, me_size = me_size e\<rparr>"

definition manifest_text :: "ext \<Rightarrow> name manifest \<Rightarrow> string manifest" where
  "manifest_text E m = \<lparr>mf_producer = mf_producer m, mf_sequence = mf_sequence m, mf_timestamp = mf_timestamp m,
     mf_entries = map (entry_text E) (mf_entries m), mf_previous = map_option (name_display E) (mf_previous m)\<rparr>"

fun read_all :: "('a \<Rightarrow> (string + 'b) option) \<Rightarrow> 'a list \<Rightarrow> (string + 'b list) option" where
  "read_all f [] = Some (Inr [])"
| "read_all f (x # xs) = (case f x of
       None \<Rightarrow> None
     | Some (Inl e) \<Rightarrow> Some (Inl e)
     | Some (Inr y) \<Rightarrow> map_option (map_sum id ((#) y)) (read_all f xs))"

definition entry_read :: "ext \<Rightarrow> string manifest_entry \<Rightarrow> (string + name manifest_entry) option" where
  "entry_read E e = map_option (map_sum id (\<lambda>n. \<lparr>me_kind = me_kind e, me_label = me_label e,
     me_content_name = n, me_content_hash = me_content_hash e, me_size = me_size e\<rparr>))
     (parse_name_from_display E (me_content_name e))"

definition manifest_read :: "ext \<Rightarrow> string manifest \<Rightarrow> (string + name manifest) option" where
  "manifest_read E m = (case read_all (entry_read E) (mf_entries m) of
       None \<Rightarrow> None
     | Some (Inl e) \<Rightarrow> Some (Inl e)
     | Some (Inr es) \<Rightarrow>
         map_option (map_sum id (\<lambda>prev. \<lparr>mf_producer = mf_producer m, mf_sequence = mf_sequence m,
             mf_timestamp = mf_timestamp m, mf_entries = es, mf_previous = prev\<rparr>))
           (case mf_previous m of
              None \<Rightarrow> Some (Inr None)
            | Some t \<Rightarrow> map_option (map_sum id Some) (parse_name_from_display E t)))"

text \<open>A failure of the JSON reader, unless a name before it makes the reader of names panic.\<close>

definition json_fails :: "ext \<Rightarrow> string list \<Rightarrow> (ManifestError + 'a) option" where
  "json_fails E names = map_option (\<lambda>_. Inl MfJson) (read_all (parse_name_from_display E) names)"

definition manifest_to_json :: "ext \<Rightarrow> json \<Rightarrow> name manifest \<Rightarrow> bytes" where
  "manifest_to_json E J m = js_manifest J (manifest_text E m)"

definition manifest_from_data :: "ext \<Rightarrow> json \<Rightarrow> icn_data \<Rightarrow> (ManifestError + name manifest) option" where
  "manifest_from_data E J d = (case js_read_manifest J (dat_content d) of
       Inl names \<Rightarrow> json_fails E names
     | Inr t \<Rightarrow> map_option (\<lambda>r. case r of
           Inl _ \<Rightarrow> Inl MfJson
         | Inr m \<Rightarrow>
             (case md_content_hash (dat_metadata d) of
                None \<Rightarrow> Inr m
              | Some h \<Rightarrow> if h \<noteq> blake3 E (dat_content d)
                  then Inl (MfContentHashMismatch h (blake3 E (dat_content d))) else Inr m)) (manifest_read E t))"

definition manifest_to_data :: "ext \<Rightarrow> json \<Rightarrow> keys \<Rightarrow> name manifest \<Rightarrow> icn_data" where
  "manifest_to_data E J keys m =
     (let content = manifest_to_json E J m;
          nm = name_new (mf_producer m) [str_bytes ''manifest''];
          message_hash = blake3 E (name_to_bytes nm @ content);
          d = data_new E nm content (generate_proof E keys message_hash)
      in d\<lparr>dat_metadata := (dat_metadata d)\<lparr>md_sequence := Some (mf_sequence m),
             md_content_hash := Some (blake3 E content)\<rparr>\<rparr>)"

definition manifest_find :: "string \<Rightarrow> 'n manifest \<Rightarrow> 'n manifest_entry option" where
  "manifest_find label m = find (\<lambda>e. me_label e = label) (mf_entries m)"

definition manifest_is_newer_than :: "u64 \<Rightarrow> 'n manifest \<Rightarrow> bool" where
  "manifest_is_newer_than seq m \<longleftrightarrow> mf_sequence m > seq"

definition chunk_text :: "ext \<Rightarrow> name chunk_ref \<Rightarrow> string chunk_ref" where
  "chunk_text E c = \<lparr>cr_name = name_display E (cr_name c), cr_hash = cr_hash c, cr_offset = cr_offset c, cr_length = cr_length c\<rparr>"

definition chunk_read :: "ext \<Rightarrow> string chunk_ref \<Rightarrow> (string + name chunk_ref) option" where
  "chunk_read E c = map_option (map_sum id (\<lambda>n. \<lparr>cr_name = n, cr_hash = cr_hash c, cr_offset = cr_offset c,
     cr_length = cr_length c\<rparr>)) (parse_name_from_display E (cr_name c))"

definition content_from_data :: "ext \<Rightarrow> json \<Rightarrow> icn_data \<Rightarrow> (ManifestError + name content_manifest) option" where
  "content_from_data E J d = (case js_read_content J (dat_content d) of
       Inl names \<Rightarrow> json_fails E names
     | Inr t \<Rightarrow> map_option (map_sum (\<lambda>_. MfJson) (\<lambda>cs. \<lparr>cm_chunks = cs, cm_total_size = cm_total_size t\<rparr>))
         (read_all (chunk_read E) (cm_chunks t)))"

definition content_to_json :: "ext \<Rightarrow> json \<Rightarrow> name content_manifest \<Rightarrow> bytes" where
  "content_to_json E J c = js_content J \<lparr>cm_chunks = map (chunk_text E) (cm_chunks c), cm_total_size = cm_total_size c\<rparr>"

definition content_chunk_count :: "'n content_manifest \<Rightarrow> nat" where
  "content_chunk_count c = length (cm_chunks c)"

section \<open>What survives the text form\<close>

text \<open>The documented form of hexadecimal text: two digits for each byte, in order.\<close>

definition hex_digits_ok :: "ext \<Rightarrow> bool" where
  "hex_digits_ok E \<longleftrightarrow> (\<forall>a b. hex_encode E (a @ b) = hex_encode E a @ hex_encode E b) \<and> hex_encode E [0] = ''00''"

lemma hex_digits_toy [simp]: "hex_digits_ok ext_toy"
proof -
  have "toy_hex (a @ b) = toy_hex a @ toy_hex b" for a b by (induction a) simp_all
  then show ?thesis by (simp add: hex_digits_ok_def ext_toy_def)
qed

lemma hex_append: "hex_digits_ok E \<Longrightarrow> hex_encode E (a @ b) = hex_encode E a @ hex_encode E b"
  by (simp add: hex_digits_ok_def)

lemma hex_zeros: "hex_digits_ok E \<Longrightarrow> hex_ok E \<Longrightarrow> hex_encode E (replicate n 0) = replicate (2 * n) CHR ''0''"
proof (induction n)
  case 0
  then show ?case using hex_facts(2) [of E "[]"] by simp
next
  case (Suc n)
  have "hex_encode E ([0] @ replicate n 0) = ''00'' @ replicate (2 * n) CHR ''0''"
    unfolding hex_append [OF Suc.prems(1)] using Suc by (simp add: hex_digits_ok_def)
  then show ?case by simp
qed

text \<open>The compact form of a hash keeps its first and its last four bytes; reading it back puts zeros
  in between.\<close>

definition squash :: "bytes \<Rightarrow> bytes" where
  "squash h = take 4 h @ replicate 24 0 @ drop 28 h"

lemma hex_prefix_chars:
  assumes "hex_ok E" "c \<notin> set ''0123456789abcdef.''"
  shows "c \<notin> set (hex_prefix E b)"
  using hex_facts(3) [OF assms(1), of c] assms(2) by (auto simp: hex_prefix_def)

lemma parse_hash_squash:
  assumes "hex_ok E" "hex_digits_ok E" "length h = 32"
  shows "parse_hash E x y (hex_prefix E h) = Some (Inr (squash h))"
proof -
  let ?a = "hex_encode E (take 4 h)" and ?b = "hex_encode E (drop 28 h)"
  have len: "length ?a = 8" "length ?b = 8" using hex_facts(2) [OF assms(1)] assms(3) by simp_all
  have "CHR ''.'' \<notin> set ?a" using hex_facts(3) [OF assms(1), of "CHR ''.''" "take 4 h"] by auto
  then have "find_sub ''..'' (?a @ ''..'' @ ?b) = Some 8" using find_sub_here [of "CHR ''.''" ?a "''.''" ?b] len by simp
  then have "expand_compact_hex (hex_prefix E h) = Some (?a @ replicate 48 CHR ''0'' @ ?b)"
    using len assms(3) by (simp add: expand_compact_hex_def hex_prefix_def Let_def)
  also have "?a @ replicate 48 CHR ''0'' @ ?b = hex_encode E (squash h)"
    using hex_zeros [OF assms(2,1), of 24] assms(2) by (simp add: squash_def hex_append)
  finally have "expand_compact_hex (hex_prefix E h) = Some (hex_encode E (squash h))" .
  moreover have "hex_decode E (hex_encode E (squash h)) = Inr (squash h)" using hex_facts(1) [OF assms(1)] .
  ultimately show ?thesis using assms(3) by (simp add: parse_hash_def squash_def)
qed

text \<open>Path components that the text form keeps: texts without the two separators that cannot be
  taken for hexadecimal digits, and not of the length of a hash.\<close>

definition plain_component :: "ext \<Rightarrow> bytes \<Rightarrow> bool" where
  "plain_component E c \<longleftrightarrow> c \<noteq> [] \<and> length c \<noteq> 32 \<and> utf8_valid c \<and>
     CHR ''/'' \<notin> set (bytes_str c) \<and> CHR ''?'' \<notin> set (bytes_str c) \<and> isl (hex_decode E (bytes_str c))"

lemma plain_component_text:
  assumes "plain_component E c"
  shows "component_display E c = bytes_str c" "parse_component E (bytes_str c) = c" "bytes_str c \<noteq> []"
  using assms by (auto simp: plain_component_def component_display_def parse_component_def bytes_str_def split: sum.splits)
    (use str_bytes_str [of c] in \<open>simp add: bytes_str_def\<close>)

definition squash_name :: "name \<Rightarrow> name" where
  "squash_name n = \<lparr>nm_components = squash (hd (nm_components n)) # tl (nm_components n),
     nm_content_hash = map_option squash (nm_content_hash n)\<rparr>"

definition plain_name :: "ext \<Rightarrow> name \<Rightarrow> bool" where
  "plain_name E n \<longleftrightarrow> (\<exists>p path. nm_components n = p # path \<and> length p = 32 \<and> list_all (plain_component E) path) \<and>
     (\<forall>h. nm_content_hash n = Some h \<longrightarrow> length h = 32)"

lemma parse_components_text:
  assumes "hex_ok E" "hex_digits_ok E" "length p = 32" "list_all (plain_component E) path"
  shows "parse_components E (hex_prefix E p @ concat (map (\<lambda>c. CHR ''/'' # component_display E c) path)) =
    Some (Inr (squash p # path))"
proof -
  let ?ws = "map bytes_str path"
  have ws: "concat (map (\<lambda>c. CHR ''/'' # component_display E c) path) = concat (map (\<lambda>v. CHR ''/'' # v) ?ws)"
    using assms(4) by (induction path) (simp_all add: plain_component_text)
  have "list_all (\<lambda>v. CHR ''/'' \<notin> set v) ?ws" using assms(4) by (auto simp: list_all_iff plain_component_def)
  then have "split_char CHR ''/'' (hex_prefix E p @ concat (map (\<lambda>v. CHR ''/'' # v) ?ws)) = hex_prefix E p # ?ws"
    using hex_prefix_chars [OF assms(1)] by (intro split_char_concat) simp_all
  moreover have "filter (\<lambda>c. c \<noteq> []) ?ws = ?ws"
    using assms(4) by (auto simp: filter_id_conv list_all_iff plain_component_text(3))
  moreover have "hex_prefix E p \<noteq> []" using assms(3) by (simp add: hex_prefix_def)
  moreover have "map (parse_component E) ?ws = path"
    using assms(4) by (induction path) (simp_all add: plain_component_text)
  ultimately show ?thesis using parse_hash_squash [OF assms(1-3)] by (simp add: parse_components_def ws)
qed

lemma no_question_mark:
  assumes "hex_ok E" "list_all (plain_component E) path"
  shows "CHR ''?'' \<notin> set (hex_prefix E p @ concat (map (\<lambda>c. CHR ''/'' # component_display E c) path))"
  using assms(2) hex_prefix_chars [OF assms(1), of "CHR ''?''" p]
  by (auto simp: list_all_iff plain_component_text(1)) (auto simp: plain_component_def)

lemma parse_display:
  assumes "hex_ok E" "hex_digits_ok E" "plain_name E n"
  shows "parse_name_from_display E (name_display E n) = Some (Inr (squash_name n))"
proof -
  obtain p path where n: "nm_components n = p # path" "length p = 32" "list_all (plain_component E) path"
    using assms(3) by (auto simp: plain_name_def)
  define body where "body = hex_prefix E p @ concat (map (\<lambda>c. CHR ''/'' # component_display E c) path)"
  define tail where "tail = (case nm_content_hash n of Some h \<Rightarrow> ''?blake3='' @ hex_prefix E h | None \<Rightarrow> [])"
  have d: "name_display E n = CHR ''/'' # body @ tail"
    using n by (simp add: name_display_def body_def tail_def component_display_def)
  obtain x xs where hp: "hex_prefix E p = x # xs" using n(2) by (cases "hex_prefix E p") (auto simp: hex_prefix_def)
  then have "x \<noteq> CHR ''/''" using hex_prefix_chars [OF assms(1), of "CHR ''/''" p] by auto
  then have w: "dropWhile (\<lambda>c. c = CHR ''/'') (name_display E n) = body @ tail" by (simp add: d body_def hp)
  have pc: "parse_components E body = Some (Inr (squash p # path))"
    unfolding body_def by (rule parse_components_text [OF assms(1,2) n(2,3)])
  have q: "CHR ''?'' \<notin> set body" using no_question_mark [OF assms(1) n(3)] by (simp add: body_def)
  show ?thesis
  proof (cases "nm_content_hash n")
    case None
    then have "find_sub ''?blake3='' (body @ tail) = None" using find_sub_absent [OF q] by (simp add: tail_def)
    then show ?thesis using None pc w n by (simp add: parse_name_from_display_def squash_name_def tail_def)
  next
    case (Some h)
    then have t: "tail = ''?blake3='' @ hex_prefix E h" and h: "length h = 32"
      using assms(3) by (simp_all add: tail_def plain_name_def)
    have "find_sub ''?blake3='' (body @ tail) = Some (length body)"
      unfolding t using find_sub_here [OF q, of "''blake3=''" "hex_prefix E h"] by simp
    then show ?thesis using Some pc w n parse_hash_squash [OF assms(1,2) h]
      by (simp add: parse_name_from_display_def squash_name_def t)
  qed
qed

lemma squash_id: "squash h = h \<longleftrightarrow> take 24 (drop 4 h) = replicate 24 0"
proof -
  have "take 4 h @ take 24 (drop 4 h) @ drop 24 (drop 4 h) = h" by (simp only: append_take_drop_id)
  then have "h = take 4 h @ take 24 (drop 4 h) @ drop 28 h" by simp
  then have "squash h = h \<longleftrightarrow> take 4 h @ replicate 24 0 @ drop 28 h = take 4 h @ take 24 (drop 4 h) @ drop 28 h"
    unfolding squash_def by metis
  then show ?thesis by (auto simp del: append_take_drop_id)
qed

text \<open>
  The text form of a name keeps its path and loses most of its hashes: for every name whose
  path components are plain texts, reading back what \<open>Display\<close> writes succeeds and gives the
  name with the 24 middle bytes of the producer hash and of the content hash set to zero; it is the
  same name exactly if these bytes were zero.
\<close>

theorem name_text_form:
  assumes "hex_ok E" and "hex_digits_ok E" and "plain_name E n"
  shows "parse_name_from_display E (name_display E n) = Some (Inr (squash_name n)) \<and>
    (squash_name n = n \<longleftrightarrow> (\<forall>h \<in> insert (hd (nm_components n)) (set_option (nm_content_hash n)).
      take 24 (drop 4 h) = replicate 24 0))"
proof -
  have "nm_components n \<noteq> []" using assms(3) by (auto simp: plain_name_def)
  then have "squash_name n = n \<longleftrightarrow> squash (hd (nm_components n)) = hd (nm_components n) \<and>
      map_option squash (nm_content_hash n) = nm_content_hash n"
    by (cases n; cases "nm_components n") (auto simp: squash_name_def)
  also have "map_option squash (nm_content_hash n) = nm_content_hash n \<longleftrightarrow>
      (\<forall>h \<in> set_option (nm_content_hash n). squash h = h)" by (cases "nm_content_hash n") auto
  finally show ?thesis using parse_display [OF assms] by (simp add: squash_id)
qed

definition demo_name :: name where
  "demo_name = name_with_content_hash (name_new (replicate 32 0xAB) [[0x63, 0x68, 0x61, 0x74], [0x78]]) (replicate 32 0xCD)"

lemma demo_name_plain: "plain_name ext_toy demo_name"
proof -
  have "plain_component ext_toy [0x63, 0x68, 0x61, 0x74]" "plain_component ext_toy [0x78]" by code_simp+
  then show ?thesis by (simp add: plain_name_def demo_name_def name_with_content_hash_def name_new_def)
qed

theorem name_text_form_witness:
  "parse_name_from_display ext_toy (name_display ext_toy demo_name) = Some (Inr (squash_name demo_name)) \<and>
     squash_name demo_name \<noteq> demo_name"
  using name_text_form [OF _ _ demo_name_plain] by (simp add: demo_name_def name_with_content_hash_def name_new_def)

text \<open>A path component that is the hexadecimal text of some bytes is read back as those bytes.\<close>

lemma parse_component_hex: "hex_ok E \<Longrightarrow> parse_component E (hex_encode E b) = b"
  by (simp add: parse_component_def hex_facts)

text \<open>A text with more than 64 characters around its dots makes the reader panic.\<close>

lemma parse_name_panics: "parse_name_from_display E (replicate 65 CHR ''a'' @ ''..'') = None"
proof -
  have "find_sub ''..'' (replicate 65 CHR ''a'' @ ''..'' @ []) = Some 65"
    using find_sub_here [of "CHR ''.''" "replicate 65 CHR ''a''" "''.''" "[]"] by simp
  then have "expand_compact_hex (replicate 65 CHR ''a'' @ ''..'') = None" by (simp add: expand_compact_hex_def)
  moreover have "find_sub ''?blake3='' (replicate 65 CHR ''a'' @ ''..'') = None" by (rule find_sub_absent) simp
  moreover have "split_char CHR ''/'' (replicate 65 CHR ''a'' @ ''..'') = [replicate 65 CHR ''a'' @ ''..'']"
    by (rule split_char_word) simp
  moreover have "dropWhile (\<lambda>c. c = CHR ''/'') (replicate 65 CHR ''a'' @ ''..'') = replicate 65 CHR ''a'' @ ''..''"
    by (simp add: numeral_nat)
  ultimately show ?thesis by (simp add: parse_name_from_display_def parse_components_def parse_hash_def)
qed

section \<open>Published manifests\<close>

definition squash_entry :: "name manifest_entry \<Rightarrow> name manifest_entry" where
  "squash_entry e = e\<lparr>me_content_name := squash_name (me_content_name e)\<rparr>"

definition squash_manifest :: "name manifest \<Rightarrow> name manifest" where
  "squash_manifest m = m\<lparr>mf_entries := map squash_entry (mf_entries m), mf_previous := map_option squash_name (mf_previous m)\<rparr>"

lemma read_all_map:
  "list_all (\<lambda>x. f (g x) = Some (Inr (h x))) xs \<Longrightarrow> read_all f (map g xs) = Some (Inr (map h xs))"
  by (induction xs) simp_all

lemma entry_read_text:
  assumes "hex_ok E" "hex_digits_ok E" "plain_name E (me_content_name e)"
  shows "entry_read E (entry_text E e) = Some (Inr (squash_entry e))"
  using parse_display [OF assms] by (cases e) (simp add: entry_read_def entry_text_def squash_entry_def)

definition plain_manifest :: "ext \<Rightarrow> name manifest \<Rightarrow> bool" where
  "plain_manifest E m \<longleftrightarrow> length (mf_producer m) = 32 \<and> list_all (\<lambda>e. plain_name E (me_content_name e)) (mf_entries m) \<and>
     (\<forall>n. mf_previous m = Some n \<longrightarrow> plain_name E n)"

lemma manifest_read_text:
  assumes "hex_ok E" "hex_digits_ok E" "plain_manifest E m"
  shows "manifest_read E (manifest_text E m) = Some (Inr (squash_manifest m))"
proof -
  have "list_all (\<lambda>e. entry_read E (entry_text E e) = Some (Inr (squash_entry e))) (mf_entries m)"
    using assms(3) entry_read_text [OF assms(1,2)] by (simp add: plain_manifest_def list_all_iff)
  then have "read_all (entry_read E) (map (entry_text E) (mf_entries m)) = Some (Inr (map squash_entry (mf_entries m)))"
    by (rule read_all_map)
  then show ?thesis using parse_display [OF assms(1,2)] assms(3)
    by (cases m; cases "mf_previous m")
      (auto simp: manifest_read_def manifest_text_def squash_manifest_def plain_manifest_def)
qed

lemma manifest_data_fields:
  "dat_content (manifest_to_data E J k m) = manifest_to_json E J m"
  "dat_name (manifest_to_data E J k m) = name_new (mf_producer m) [str_bytes ''manifest'']"
  "dat_signature (manifest_to_data E J k m) = generate_proof E k (data_signed_hash E (manifest_to_data E J k m))"
  "dat_metadata (manifest_to_data E J k m) =
     \<lparr>md_content_hash = Some (blake3 E (manifest_to_json E J m)), md_sequence = Some (mf_sequence m), md_freshness = Fresh\<rparr>"
  by (simp_all add: manifest_to_data_def data_new_def data_signed_hash_def Let_def)

lemma manifest_verifies:
  assumes "sig_ok E" and "keys_wf k" and "length (mf_producer m) = 32" and "fw_key_store s (mf_producer m) = Some k"
  shows "fw_verify_data E s (manifest_to_data E J k m) = Some (Inr ())"
  using assms(3,4) verify_generated [OF assms(1,2), of "data_signed_hash E (manifest_to_data E J k m)"]
  by (simp add: fw_verify_data_def manifest_data_fields(2) name_producer_hash_def name_new_def manifest_data_fields(3) [symmetric])

lemma manifest_reads:
  "json_ok J \<Longrightarrow> manifest_from_data E J (manifest_to_data E J k m) =
     map_option (map_sum (\<lambda>_. MfJson) id) (manifest_read E (manifest_text E m))"
  by (cases "manifest_read E (manifest_text E m)")
    (auto simp: manifest_from_data_def manifest_data_fields manifest_to_json_def json_ok_def split: sum.split)

lemma manifest_read_back:
  assumes "hex_ok E" and "hex_digits_ok E" and "json_ok J" and "plain_manifest E m"
  shows "manifest_from_data E J (manifest_to_data E J k m) = Some (Inr (squash_manifest m))"
  using manifest_reads [OF assms(3)] manifest_read_text [OF assms(1,2,4)] by simp

text \<open>C12. 
  A published manifest reaches its readers: the data packet survives the wire, a forwarder that knows the
  producer's keys accepts it, and reading it reads every name back from its text. If all its names are plain
  (hashes of 32 bytes, and path components that are UTF-8 texts without slashes and question marks, not of 32
  bytes and not hexadecimal) the manifest comes back with every field but the hashes inside its names, which
  lose their middle bytes. Of other names the text form changes or loses components as well.
\<close>

theorem manifest_published:
  assumes "hash_ok E" and "sig_ok E" and "hex_ok E" and "hex_digits_ok E" and "json_ok J"
    and "keys_wf k" and "length (mf_producer m) = 32" and "length (manifest_to_json E J m) < 2 ^ 32"
    and "fw_key_store s (mf_producer m) = Some k"
  shows "\<exists>d. data_from_bytes (data_to_bytes (manifest_to_data E J k m)) = Some (Inr d) \<and>
    fw_verify_data E s d = Some (Inr ()) \<and>
    manifest_from_data E J d = map_option (map_sum (\<lambda>_. MfJson) id) (manifest_read E (manifest_text E m)) \<and>
    (plain_manifest E m \<longrightarrow> manifest_from_data E J d = Some (Inr (squash_manifest m)))"
proof -
  let ?d = "manifest_to_data E J k m"
  have "data_wf ?d" using assms(1,2,6,7,8)
    by (simp add: data_wf_def manifest_data_fields name_wf_def name_new_def MAX_COMPONENTS_def metadata_wf_def hash_lengths str_bytes_def)
  then have "data_from_bytes (data_to_bytes ?d) = Some (Inr ?d)" using data_dec_enc [of ?d "[]"] by simp
  moreover have "fw_verify_data E s ?d = Some (Inr ())" using assms(2,6,7,9) by (rule manifest_verifies)
  ultimately show ?thesis using manifest_reads [OF assms(5)] manifest_read_back [OF assms(3-5)] by blast
qed

text \<open>A name that is not plain: its path component \<open>beef\<close> is read back as two bytes.\<close>

lemma name_hex_component:
  assumes "hex_ok E" and "hex_digits_ok E" and "length p = 32" and "hex_encode E [0xBE, 0xEF] = ''beef''"
  shows "parse_name_from_display E (name_display E (name_new p [str_bytes ''beef''])) =
    Some (Inr (name_new (squash p) [[0xBE, 0xEF]]))"
proof -
  let ?h = "hex_prefix E p"
  have d: "name_display E (name_new p [str_bytes ''beef'']) = CHR ''/'' # ?h @ ''/beef''"
  proof -
    have "utf8_valid (str_bytes ''beef'')" "bytes_str (str_bytes ''beef'') = ''beef''" by code_simp (rule bytes_str_bytes)
    then show ?thesis using assms(3) by (simp add: name_display_def name_new_def component_display_def str_bytes_def)
  qed
  obtain x xs where hp: "?h = x # xs" using assms(3) by (cases ?h) (auto simp: hex_prefix_def)
  then have "x \<noteq> CHR ''/''" using hex_prefix_chars [OF assms(1), of "CHR ''/''" p] by auto
  then have w: "dropWhile (\<lambda>c. c = CHR ''/'') (name_display E (name_new p [str_bytes ''beef''])) = ?h @ ''/beef''"
    by (simp add: d hp)
  have "find_sub ''?blake3='' (?h @ ''/beef'') = None"
    using hex_prefix_chars [OF assms(1), of "CHR ''?''" p] by (intro find_sub_absent) auto
  moreover have "split_char CHR ''/'' (?h @ concat (map (\<lambda>v. CHR ''/'' # v) [''beef''])) = ?h # [''beef'']"
    using hex_prefix_chars [OF assms(1)] by (intro split_char_concat) simp_all
  moreover have "parse_component E ''beef'' = [0xBE, 0xEF]"
    using parse_component_hex [OF assms(1), of "[0xBE, 0xEF]"] assms(4) by simp
  moreover have "?h \<noteq> []" by (simp add: hp)
  ultimately show ?thesis using parse_hash_squash [OF assms(1-3)]
    unfolding parse_name_from_display_def w by (simp add: parse_components_def name_new_def)
qed

text \<open>A concrete serialisation with the assumed round trip.\<close>

definition toy_int :: "'a::len word \<Rightarrow> bytes" where
  "toy_int w = be_bytes 8 (unat w)"

definition toy_unint :: "bytes \<Rightarrow> 'a::len word" where
  "toy_unint b = of_nat (be_val b)"

lemma toy_unint_int [simp]: "toy_unint (toy_int (w :: u64)) = w" "toy_unint (toy_int (v :: u32)) = v"
  by (simp_all add: toy_int_def toy_unint_def)

fun toy_opt :: "('a \<Rightarrow> bytes) \<Rightarrow> 'a option \<Rightarrow> bytes" where
  "toy_opt f None = []"
| "toy_opt f (Some x) = 0 # f x"

fun toy_unopt :: "(bytes \<Rightarrow> 'a) \<Rightarrow> bytes \<Rightarrow> 'a option" where
  "toy_unopt g [] = None"
| "toy_unopt g (_ # b) = Some (g b)"

lemma toy_unopt_opt: "(\<And>x. g (f x) = x) \<Longrightarrow> toy_unopt g (toy_opt f x) = x"
  by (cases x) simp_all

definition toy_kind :: "EntryKind \<Rightarrow> u8" where
  "toy_kind k = (case k of Blob \<Rightarrow> 0 | Stream \<Rightarrow> 1 | SubManifest \<Rightarrow> 2)"

definition toy_unkind :: "u8 \<Rightarrow> EntryKind" where
  "toy_unkind b = (if b = 0 then Blob else if b = 1 then Stream else SubManifest)"

lemma toy_unkind_kind [simp]: "toy_unkind (toy_kind k) = k"
  by (cases k) (simp_all add: toy_kind_def toy_unkind_def)

definition toy_entry :: "string manifest_entry \<Rightarrow> bytes" where
  "toy_entry e = toy_puts [[toy_kind (me_kind e)], str_bytes (me_label e), str_bytes (me_content_name e),
     toy_opt id (me_content_hash e), toy_opt toy_int (me_size e)]"

definition toy_unentry :: "bytes \<Rightarrow> string manifest_entry" where
  "toy_unentry b = (let xs = toy_read b in \<lparr>me_kind = toy_unkind (hd (xs ! 0)), me_label = bytes_str (xs ! 1),
     me_content_name = bytes_str (xs ! 2), me_content_hash = toy_unopt id (xs ! 3), me_size = toy_unopt toy_unint (xs ! 4)\<rparr>)"

lemma toy_unentry_entry [simp]: "toy_unentry (toy_entry e) = e"
  by (cases e) (simp add: toy_unentry_def toy_entry_def toy_unopt_opt)

definition toy_chunk :: "string chunk_ref \<Rightarrow> bytes" where
  "toy_chunk c = toy_puts [str_bytes (cr_name c), cr_hash c, toy_int (cr_offset c), toy_int (cr_length c)]"

definition toy_unchunk :: "bytes \<Rightarrow> string chunk_ref" where
  "toy_unchunk b = (let xs = toy_read b in \<lparr>cr_name = bytes_str (xs ! 0), cr_hash = xs ! 1,
     cr_offset = toy_unint (xs ! 2), cr_length = toy_unint (xs ! 3)\<rparr>)"

lemma toy_unchunk_chunk [simp]: "toy_unchunk (toy_chunk c) = c"
  by (cases c) (simp add: toy_unchunk_def toy_chunk_def)

definition json_toy :: json where
  "json_toy = \<lparr>
     js_manifest = (\<lambda>m. toy_puts (mf_producer m # toy_int (mf_sequence m) # toy_int (mf_timestamp m) #
       toy_opt str_bytes (mf_previous m) # map toy_entry (mf_entries m))),
     js_read_manifest = (\<lambda>b. case toy_read b of
         p # q # t # prev # es \<Rightarrow> Inr \<lparr>mf_producer = p, mf_sequence = toy_unint q, mf_timestamp = toy_unint t,
           mf_entries = map toy_unentry es, mf_previous = toy_unopt bytes_str prev\<rparr>
       | _ \<Rightarrow> Inl []),
     js_content = (\<lambda>c. toy_puts (toy_int (cm_total_size c) # map toy_chunk (cm_chunks c))),
     js_read_content = (\<lambda>b. case toy_read b of
         t # cs \<Rightarrow> Inr \<lparr>cm_chunks = map toy_unchunk cs, cm_total_size = toy_unint t\<rparr>
       | [] \<Rightarrow> Inl []) \<rparr>"

lemma json_toy_ok [simp]: "json_ok json_toy"
proof -
  have "js_read_manifest json_toy (js_manifest json_toy m) = Inr m" for m
    by (cases m) (simp add: json_toy_def toy_unopt_opt comp_def)
  moreover have "js_read_content json_toy (js_content json_toy c) = Inr c" for c
    by (cases c) (simp add: json_toy_def comp_def)
  ultimately show ?thesis by (simp add: json_ok_def)
qed

definition demo_manifest :: "name manifest" where
  "demo_manifest = \<lparr>mf_producer = replicate 32 0xAB, mf_sequence = 7, mf_timestamp = 1715700000,
     mf_entries = [\<lparr>me_kind = Blob, me_label = ''chat'', me_content_name = demo_name, me_content_hash = None,
       me_size = Some 42\<rparr>], mf_previous = None\<rparr>"

lemma length_toy_puts: "length (toy_puts bss) = 2 * length bss + 1 + sum_list (map (\<lambda>b. 2 * length b + 1) bss)"
  by (induction bss) (simp_all add: toy_puts_def toy_put_def)

definition demo_producer :: keys where
  "demo_producer = keys_from_secrets (replicate 32 1) (replicate 32 2)"

theorem manifest_published_witness:
  "\<exists>d. data_from_bytes (data_to_bytes (manifest_to_data ext_toy json_toy demo_producer demo_manifest)) = Some (Inr d) \<and>
    fw_verify_data ext_toy (fw_register_keys (forwarder_new lru_list) (replicate 32 0xAB) demo_producer) d = Some (Inr ()) \<and>
    manifest_from_data ext_toy json_toy d = Some (Inr (squash_manifest demo_manifest))"
proof -
  let ?s = "fw_register_keys (forwarder_new lru_list) (replicate 32 0xAB) demo_producer"
  have plain: "plain_manifest ext_toy demo_manifest"
    using demo_name_plain by (simp add: plain_manifest_def demo_manifest_def)
  have hx: "length (hex_encode ext_toy b) = 2 * length b" for b using hex_facts(2) [of ext_toy] by simp
  have "length (name_display ext_toy demo_name) \<le> 100"
    by (simp add: name_display_def demo_name_def name_with_content_hash_def name_new_def component_display_def hex_prefix_def hx
        bytes_str_def)
  then have "length (manifest_to_json ext_toy json_toy demo_manifest) < 2 ^ 32"
    by (simp add: manifest_to_json_def json_toy_def manifest_text_def entry_text_def demo_manifest_def length_toy_puts
        toy_entry_def toy_int_def str_bytes_def)
  moreover have "length (mf_producer demo_manifest) = 32" "fw_key_store ?s (mf_producer demo_manifest) = Some demo_producer"
    "keys_wf demo_producer"
    by (simp_all add: demo_manifest_def fw_register_keys_def demo_producer_def keys_wf_def keys_from_secrets_def)
  ultimately show ?thesis
    using manifest_published [of ext_toy json_toy demo_producer demo_manifest ?s] plain by auto
qed

end
