(* ===== verification/Icn_Demo.thy ===== *)
theory Icn_Demo
  imports Icn_Manifest Icn_Face
begin

text \<open>
  \<open>crates/icn/src/bin/demo.rs\<close>: the pipeline of the ICN layer. A producer publishes a manifest and
  the content it lists; a consumer fetches the manifest by name through a pair of connected faces,
  reads the content names in it and fetches the content. The program is the list of lines it prints.
  The keys, the nonces of the interests, the clock and the number of rounds that the producer's task
  makes while a call waits are arguments.
\<close>

section \<open>Text\<close>

text \<open>The characters outside ASCII that the program prints, in UTF-8.\<close>

abbreviation (input) tick :: string where "tick \<equiv> [CHR 0xE2, CHR 0x9C, CHR 0x93]"
abbreviation (input) cross :: string where "cross \<equiv> [CHR 0xE2, CHR 0x9C, CHR 0x97]"
abbreviation (input) rarrow :: string where "rarrow \<equiv> [CHR 0xE2, CHR 0x86, CHR 0x92]"
abbreviation (input) dash :: string where "dash \<equiv> [CHR 0xE2, CHR 0x80, CHR 0x94]"

text \<open>\<open>n\<close> times a box-drawing character, given by its last two bytes.\<close>

definition box :: "nat \<Rightarrow> char \<Rightarrow> char \<Rightarrow> string" where
  "box n a b = concat (replicate n [CHR 0xE2, a, b])"

definition box_top :: string where
  "box_top = box 1 (CHR 0x95) (CHR 0x94) @ box 46 (CHR 0x95) (CHR 0x90) @ box 1 (CHR 0x95) (CHR 0x97)"

definition box_bottom :: string where
  "box_bottom = box 1 (CHR 0x95) (CHR 0x9A) @ box 46 (CHR 0x95) (CHR 0x90) @ box 1 (CHR 0x95) (CHR 0x9D)"

definition box_line :: "string \<Rightarrow> string" where
  "box_line s = box 1 (CHR 0x95) (CHR 0x91) @ s @ box 1 (CHR 0x95) (CHR 0x91)"

definition format_entry_kind :: "EntryKind \<Rightarrow> string" where
  "format_entry_kind k = (case k of Blob \<Rightarrow> ''blob'' | Stream \<Rightarrow> ''stream'' | SubManifest \<Rightarrow> ''manifest'')"

section \<open>The producer\<close>

definition pipeline_manifest :: "bytes \<Rightarrow> name manifest" where
  "pipeline_manifest producer_hash = \<lparr>mf_producer = producer_hash, mf_sequence = 1, mf_timestamp = 1715700000,
     mf_entries = [\<lparr>me_kind = Blob, me_label = ''hello'',
       me_content_name = name_new producer_hash [str_bytes ''hello''], me_content_hash = None, me_size = None\<rparr>],
     mf_previous = None\<rparr>"

definition hello_content :: bytes where
  "hello_content = str_bytes (''Hello from rsticulum-icn!'' @ [CHR 0x0A] @
     ''This content was fetched by name, not location.'' @ [CHR 0x0A])"

definition hello_data :: "ext \<Rightarrow> keys \<Rightarrow> bytes \<Rightarrow> icn_data" where
  "hello_data E prod_keys producer_hash =
     (let d = data_new E (name_new producer_hash [str_bytes ''hello'']) hello_content
            \<lparr>prf_packet_hash = replicate 32 0, prf_signature = replicate 64 0\<rparr>;
          signed_hash = blake3 E (name_to_bytes (dat_name d) @ dat_content d);
          d = d\<lparr>dat_signature := generate_proof E prod_keys signed_hash\<rparr>
      in d\<lparr>dat_metadata := (dat_metadata d)\<lparr>md_content_hash := Some (blake3 E (dat_content d))\<rparr>\<rparr>)"

definition publish :: "'c lru_ops \<Rightarrow> instant \<Rightarrow> icn_data \<Rightarrow> 'c forwarder \<Rightarrow> 'c forwarder" where
  "publish L now d s = s\<lparr>fw_cs := fst (cs_insert L now (fw_cs s) (dat_name d) d)\<rparr>"

text \<open>The two parties: the producer's forwarder and end of the faces, the consumer's end.\<close>

record 'c pipeline =
  pl_producer :: "'c forwarder"
  pl_face_b :: test_face
  pl_face_a :: test_face

text \<open>One round of the producer's task.\<close>

definition serve_round :: "'c lru_ops \<Rightarrow> 'c pipeline \<Rightarrow> 'c pipeline" where
  "serve_round L w = (case tf_recv_interest (pl_face_b w) of
       (b, None) \<Rightarrow> w\<lparr>pl_face_b := b\<rparr>
     | (b, Some i) \<Rightarrow>
         let (cs, d) = cs_get L (fw_cs (pl_producer w)) (int_name i);
             w = w\<lparr>pl_producer := (pl_producer w)\<lparr>fw_cs := cs\<rparr>, pl_face_b := b\<rparr>
         in case d of
              None \<Rightarrow> w
            | Some d \<Rightarrow> (case fst (tf_send_data d (pl_face_b w, pl_face_a w)) of
                (b, a) \<Rightarrow> w\<lparr>pl_face_b := b, pl_face_a := a\<rparr>))"

section \<open>The consumer\<close>

record pipeline_env =
  pv_now :: "nat \<Rightarrow> instant"
  pv_later :: "nat \<Rightarrow> instant"
  pv_nonce :: "nat \<Rightarrow> bytes"
  pv_rounds :: "nat \<Rightarrow> nat"

text \<open>A call on the consumer's face during which the producer's task makes \<open>n\<close> rounds.\<close>

definition face_call :: "'c lru_ops \<Rightarrow> nat \<Rightarrow> interest \<Rightarrow> 'c pipeline \<Rightarrow> 'c pipeline \<times> icn_data option" where
  "face_call L n i w = (case tf_express_begin i (pl_face_a w, pl_face_b w) of (rx, a, b) \<Rightarrow>
     let w = (serve_round L ^^ n) (w\<lparr>pl_face_a := a, pl_face_b := b\<rparr>)
     in case tf_express_wait True rx (pl_face_a w) of
          None \<Rightarrow> (w, None)
        | Some (a, r) \<Rightarrow> (w\<lparr>pl_face_a := tf_express_end rx a\<rparr>, r))"

text \<open>The \<open>k\<close>-th call of \<open>express\<close>; the face is called only if the forwarder decides to forward to it.\<close>

definition consumer_express ::
  "ext \<Rightarrow> 'c lru_ops \<Rightarrow> pipeline_env \<Rightarrow> nat \<Rightarrow> interest \<Rightarrow> 'c forwarder \<Rightarrow> 'c pipeline \<Rightarrow>
     ('c forwarder \<times> 'c pipeline) \<times> fw_outcome" where
  "consumer_express E L v k i s w =
     (let (w', r) = face_call L (pv_rounds v k) i w;
          env = \<lparr>env_now = pv_now v k, env_later = pv_later v k, env_tx = k,
            env_answer = (\<lambda>f j. if f = te_id (pl_face_a w) \<and> j = i then Answered (Inr r) else CallDropped),
            env_race = (\<lambda>_ _. CallDropped)\<rparr>;
          (s1, hit) = fw_lookup L env s i 0;
          forwards = (\<not> pit_check_loop (fw_pit s) 0 (int_nonce i) \<and>
            fw_strategy s (env_now env) i (fw_fib_faces s (int_name i)) (pit_find (fw_pit s) (int_name i)) hit =
              ForwardTo (te_id (pl_face_a w)));
          (s, out) = fw_express E L env s i 0
      in ((s, if forwards then w' else w), out))"

definition received_lines :: "ext \<Rightarrow> icn_data \<Rightarrow> string list" where
  "received_lines E d =
     [''[Consumer]   '' @ tick @ '' Received '' @ name_display E (dat_name d) @ '' ('' @
        show_nat (length (dat_content d)) @ '' bytes)''] @
     (case md_content_hash (dat_metadata d) of
        None \<Rightarrow> []
      | Some want \<Rightarrow>
          [if want = blake3 E (dat_content d)
           then ''[Consumer]   '' @ tick @ '' Content hash verified''
           else ''[Consumer]   '' @ cross @ '' Content hash MISMATCH!'']) @
     (if utf8_valid (dat_content d)
      then [''[Consumer]   '' @ box 2 (CHR 0x94) (CHR 0x80) @ '' Content '' @ box 2 (CHR 0x94) (CHR 0x80)] @
        map (\<lambda>line. ''[Consumer]     '' @ line) (str_lines (bytes_str (dat_content d))) @
        [''[Consumer]   '' @ box 12 (CHR 0x94) (CHR 0x80)]
      else [])"

text \<open>The loop over the entries of the manifest. The last component tells whether it came to its end;
  a panic ends the program.\<close>

fun fetch_entries ::
  "ext \<Rightarrow> 'c lru_ops \<Rightarrow> pipeline_env \<Rightarrow> nat \<Rightarrow> name manifest_entry list \<Rightarrow> 'c forwarder \<Rightarrow> 'c pipeline \<Rightarrow>
     string list \<times> bool" where
  "fetch_entries E L v k [] s w = ([], True)"
| "fetch_entries E L v k (e # es) s w =
     (let ls = [''[Consumer]     - '' @ me_label e @ '' ('' @ format_entry_kind (me_kind e) @ '')'',
            ''[Consumer]   Fetching '' @ name_display E (me_content_name e) @ '' ...''];
          i = interest_with_lifetime (interest_new (pv_nonce v k) (me_content_name e)) (from_secs 5);
          ((s, w), out) = consumer_express E L v k i s w
      in case out of
           Done r \<Rightarrow>
             let ls = ls @ (case r of
                   Inr (Some d) \<Rightarrow> received_lines E d
                 | Inr None \<Rightarrow> [''[Consumer]   '' @ cross @ '' Timeout'']
                 | Inl err \<Rightarrow> [''[Consumer]   '' @ cross @ '' Error: '' @ err]);
                 (ls', ok) = fetch_entries E L v (Suc k) es s w
             in (ls @ ls', ok)
         | _ \<Rightarrow> (ls, False))"

definition manifest_size_line :: "icn_data \<Rightarrow> string" where
  "manifest_size_line d =
     ''[Consumer] '' @ tick @ '' Received manifest Data ('' @ show_nat (length (dat_content d)) @ '' bytes)''"

definition manifest_lines :: "ext \<Rightarrow> name manifest \<Rightarrow> string list" where
  "manifest_lines E m =
     [''[Consumer]   Producer: '' @ hex_prefix E (mf_producer m),
      ''[Consumer]   Sequence: v'' @ show_nat (unat (mf_sequence m)),
      ''[Consumer]   Entries:'']"

definition fetch_manifest ::
  "ext \<Rightarrow> 'c lru_ops \<Rightarrow> json \<Rightarrow> pipeline_env \<Rightarrow> name \<Rightarrow> 'c forwarder \<Rightarrow> 'c pipeline \<Rightarrow> string list \<times> bool" where
  "fetch_manifest E L J v manifest_name s w =
     (let i = interest_with_lifetime
            (interest_with_can_be_prefix (interest_new (pv_nonce v 0) manifest_name)) (from_secs 5);
          ((s, w), out) = consumer_express E L v 0 i s w
      in case out of
           Done (Inr (Some d)) \<Rightarrow>
             (case manifest_from_data E J d of
                Some (Inr m) \<Rightarrow>
                  (let (ls, ok) = fetch_entries E L v 1 (mf_entries m) s w
                   in (manifest_size_line d # manifest_lines E m @ ls, ok))
              | _ \<Rightarrow> ([manifest_size_line d], False))
         | Done (Inr None) \<Rightarrow> ([''[Consumer] '' @ cross @ '' Manifest not found''], True)
         | Done (Inl err) \<Rightarrow> ([''[Consumer] '' @ cross @ '' Error: '' @ err], True)
         | _ \<Rightarrow> ([], False))"

section \<open>The program\<close>

definition start_lines :: "ext \<Rightarrow> bytes \<Rightarrow> bytes \<Rightarrow> name manifest \<Rightarrow> string list" where
  "start_lines E producer_hash consumer_hash m =
     [box_top, box_line (''        rsticulum-icn '' @ dash @ '' Pipeline Demo         ''), box_bottom @ [CHR 0x0A],
      ''Producer: '' @ hex_prefix E producer_hash,
      ''Consumer: '' @ hex_prefix E consumer_hash @ [CHR 0x0A],
      ''[Producer] Published manifest v'' @ show_nat (unat (mf_sequence m)),
      ''[Producer]   Entries:''] @
     map (\<lambda>e. ''[Producer]     - '' @ me_label e @ '' ('' @ format_entry_kind (me_kind e) @ '') '' @ rarrow @ '' '' @
       name_display E (me_content_name e)) (mf_entries m) @
     [''[Producer] Content cached in CS'' @ [CHR 0x0A]]"

definition end_lines :: "string list" where
  "end_lines = [CHR 0x0A # box_top, box_line ''              Pipeline Complete               '', box_bottom]"

definition pipeline_producer :: "ext \<Rightarrow> 'c lru_ops \<Rightarrow> json \<Rightarrow> instant \<Rightarrow> keys \<Rightarrow> 'c forwarder" where
  "pipeline_producer E L J now prod_keys =
     (let producer_hash = keys_address E prod_keys;
          s = fw_register_keys (forwarder_new L) producer_hash prod_keys;
          s = publish L now (manifest_to_data E J prod_keys (pipeline_manifest producer_hash)) s
      in publish L now (hello_data E prod_keys producer_hash) s)"

definition pipeline_consumer :: "'c lru_ops \<Rightarrow> bytes \<Rightarrow> keys \<Rightarrow> test_face \<Rightarrow> 'c forwarder" where
  "pipeline_consumer L producer_hash prod_keys face_a =
     (let s = fw_register_keys (forwarder_new L) producer_hash prod_keys;
          s = fw_register_face s (te_id face_a) (te_capabilities face_a)
      in fw_add_route s (name_new producer_hash []) (te_id face_a) 10)"

text \<open>The lines the program prints, and whether it comes to its end.\<close>

definition pipeline_main ::
  "ext \<Rightarrow> 'c lru_ops \<Rightarrow> json \<Rightarrow> pipeline_env \<Rightarrow> instant \<Rightarrow> keys \<Rightarrow> keys \<Rightarrow> string list \<times> bool" where
  "pipeline_main E L J v now prod_keys consumer_keys =
     (let producer_hash = keys_address E prod_keys;
          (face_a, face_b) = test_face_pair;
          w = \<lparr>pl_producer = pipeline_producer E L J now prod_keys, pl_face_b = face_b, pl_face_a = face_a\<rparr>;
          manifest_name = name_new producer_hash [str_bytes ''manifest''];
          ls = start_lines E producer_hash (keys_address E consumer_keys) (pipeline_manifest producer_hash) @
            [''[Consumer] Express Interest: '' @ name_display E manifest_name];
          (ls', ok) = fetch_manifest E L J v manifest_name
            (pipeline_consumer L producer_hash prod_keys face_a) w
      in (ls @ ls' @ (if ok then end_lines else []), ok))"

section \<open>The faces\<close>

text \<open>The faces between two calls: nothing is under way.\<close>

definition idle :: "'c pipeline \<Rightarrow> bool" where
  "idle w \<longleftrightarrow> te_rx (pl_face_a w) = PairRx \<and> te_data (pl_face_a w) = Some [] \<and> te_interests (pl_face_b w) = []"

lemma serve_idle: "te_interests (pl_face_b w) = [] \<Longrightarrow> (serve_round L ^^ n) w = w"
  by (induction n) (simp_all add: serve_round_def tf_recv_interest_def)

lemma face_call_served:
  assumes "lru_ok L" and "idle w" and "0 < n" and "cs_map L (fw_cs (pl_producer w)) (int_name i) = Some d"
  shows "\<exists>w'. face_call L n i w = (w', Some d) \<and> idle w' \<and> te_id (pl_face_a w') = te_id (pl_face_a w) \<and>
    cs_map L (fw_cs (pl_producer w')) = cs_map L (fw_cs (pl_producer w))"
proof -
  obtain m where n: "n = Suc m" using assms(3) by (cases n) auto
  obtain cs r where g: "cs_get L (fw_cs (pl_producer w)) (int_name i) = (cs, r)" by fastforce
  with assms(1,4) have r: "r = Some d" and cs: "cs_map L cs = cs_map L (fw_cs (pl_producer w))"
    using cs_get_unfold [of L "fw_cs (pl_producer w)" "int_name i"]
      cs_get_keeps(1) [of L "fw_cs (pl_producer w)" "int_name i"] by simp_all
  let ?b = "pl_face_b w" and ?a = "pl_face_a w"
  let ?w = "w\<lparr>pl_face_a := ?a\<lparr>te_rx := ClosedRx\<rparr>, pl_face_b := ?b\<lparr>te_interests := te_interests ?b @ [i]\<rparr>\<rparr>"
  let ?w1 = "w\<lparr>pl_producer := (pl_producer w)\<lparr>fw_cs := cs\<rparr>, pl_face_b := ?b,
    pl_face_a := ?a\<lparr>te_rx := ClosedRx, te_data := Some [d]\<rparr>\<rparr>"
  have "serve_round L ?w = ?w1"
    using assms(2) g by (simp add: serve_round_def tf_defs r idle_def)
  then have "(serve_round L ^^ n) ?w = ?w1"
    using serve_idle [where w = ?w1 and n = m and L = L] assms(2) unfolding n funpow_Suc_right by (simp add: idle_def)
  then have "face_call L n i w = (?w1\<lparr>pl_face_a := ?a\<lparr>te_rx := PairRx, te_data := Some []\<rparr>\<rparr>, Some d)"
    using assms(2) by (simp add: face_call_def tf_defs idle_def)
  then show ?thesis using assms(2) cs by (simp add: idle_def)
qed

section \<open>The consumer's forwarder\<close>

definition consumer_ok :: "bytes \<Rightarrow> keys \<Rightarrow> FaceId \<Rightarrow> 'c forwarder \<Rightarrow> bool" where
  "consumer_ok h k g s \<longleftrightarrow> fw_strategy s = best_route_decide best_route_new \<and>
     pit_entries (fw_pit s) = Map.empty \<and> fw_faces s g \<noteq> None \<and> fw_key_store s = [h \<mapsto> k] \<and>
     fw_fib s = fib_insert fib_new (name_new h []) g 10"

lemma one_route:
  "fw_fib s = fib_insert fib_new (name_new h []) g 10 \<Longrightarrow> nm_components n = c # cs \<Longrightarrow>
     fw_fib_faces s n = (if c = h then [(g, 10)] else [])"
  by (simp add: fw_fib_faces_def fib_lookup_def fib_insert_def fib_new_def best_match_def name_starts_with_def
      name_count_def name_new_def)

lemma consumer_decides:
  assumes "consumer_ok h k g s" and "nm_components n = c # cs"
  shows "fw_strategy s now i (fw_fib_faces s n) (pit_find (fw_pit s) n) None = (if c = h then ForwardTo g else NoRoute)"
  using assms one_route [of s h g n c cs]
  by (auto simp: consumer_ok_def best_route_decide_def pit_find_def first_available_new simp del: first_available.simps)
    simp

definition cache_lookup :: "'c lru_ops \<Rightarrow> 'c forwarder \<Rightarrow> interest \<Rightarrow> icn_data option" where
  "cache_lookup L s i = snd (if int_can_be_prefix i then cs_get_prefix L (fw_cs s) (int_name i)
     else cs_get L (fw_cs s) (int_name i))"

lemma fw_lookup_hit: "snd (fw_lookup L env s i f) = cache_lookup L s i"
  by (simp add: fw_lookup_def cache_lookup_def split: prod.split)

lemma fw_lookup_cs: "lru_ok L \<Longrightarrow> cs_map L (fw_cs (fst (fw_lookup L env s i f))) = cs_map L (fw_cs s)"
  unfolding fw_lookup_def by (simp add: case_prod_beta Let_def cs_get_keeps(1)) (simp add: cs_map_def)

lemma consumer_no_route:
  assumes "consumer_ok h k g s" and "\<not> pit_check_loop (fw_pit s) 0 (int_nonce i)"
    and "nm_components (int_name i) = c # cs" and "c \<noteq> h" and "cache_lookup L s i = None"
  shows "\<exists>s'. consumer_express E L v j i s w = ((s', w), Done (Inr None))"
proof -
  obtain w' r where w': "face_call L (pv_rounds v j) i w = (w', r)" by fastforce
  define env where "env = \<lparr>env_now = pv_now v j, env_later = pv_later v j, env_tx = j,
    env_answer = (\<lambda>f j. if f = te_id (pl_face_a w) \<and> j = i then Answered (Inr r) else CallDropped), env_race = (\<lambda>_ _. CallDropped)\<rparr>"
  obtain s1 where l: "fw_lookup L env s i 0 = (s1, None)"
    using assms(5) fw_lookup_hit [of L env s i 0] by (metis prod.collapse)
  have "fw_express E L env s i 0 = (s1, Done (Inr None))"
    using consumer_decides [OF assms(1,3)] assms(4) by (simp add: fw_express_decide [OF assms(2) l])
  then show ?thesis
    using consumer_decides [OF assms(1,3)] assms(4) l
    by (simp add: consumer_express_def w' env_def Let_def)
qed

text \<open>A pending entry is gone after it was satisfied and the table purged.\<close>

lemma pit_once:
  "pit_entries t = Map.empty \<Longrightarrow>
     pit_entries (fst (pit_purge_expired later (fst (pit_satisfy (pit_set_out_face
       (fst (pit_insert_or_aggregate now (pit_record_nonce now t f nonce) n f i timeout)) n g) n)))) = Map.empty"
  by (simp add: pit_defs pit_expired_def Let_def fun_eq_iff)

lemma consumer_forwards:
  assumes L: "lru_ok L" and ok: "consumer_ok h k g s" and g: "g = te_id (pl_face_a w)"
    and loop: "\<not> pit_check_loop (fw_pit s) 0 (int_nonce i)" and n: "nm_components (int_name i) = h # cs"
    and miss: "cache_lookup L s i = None" and call: "face_call L (pv_rounds v j) i w = (w', Some d)"
    and d: "fw_verify_data E s d = Some (Inr ())"
  shows "\<exists>s'. consumer_express E L v j i s w = ((s', w'), Done (Inr (Some d))) \<and> consumer_ok h k g s' \<and>
    (\<forall>m. m \<noteq> dat_name d \<longrightarrow> cs_map L (fw_cs s) m = None \<longrightarrow> cs_map L (fw_cs s') m = None) \<and>
    (\<forall>nonce. nonce \<noteq> int_nonce i \<longrightarrow> \<not> pit_check_loop (fw_pit s) 0 nonce \<longrightarrow> \<not> pit_check_loop (fw_pit s') 0 nonce)"
proof -
  define env where "env = \<lparr>env_now = pv_now v j, env_later = pv_later v j, env_tx = j,
    env_answer = (\<lambda>f j. if f = te_id (pl_face_a w) \<and> j = i then Answered (Inr (Some d)) else CallDropped), env_race = (\<lambda>_ _. CallDropped)\<rparr>"
  obtain s1 where l: "fw_lookup L env s i 0 = (s1, None)"
    using miss fw_lookup_hit [of L env s i 0] by (metis prod.collapse)
  note f = fw_lookup_fields [OF l]
  obtain cap where cap: "fw_faces s g = Some cap" using ok by (auto simp: consumer_ok_def)
  define s2 where "s2 = s1\<lparr>fw_pit := pit_set_out_face (fst (pit_insert_or_aggregate (env_now env) (fw_pit s1)
    (int_name i) 0 i (max (int_lifetime i) (fc_disruption_tolerance cap)))) (int_name i) g\<rparr>"
  define s' where "s' = fw_finish (env_later env) (fw_cache L (env_later env) s2 d) (int_name i) (Inr (Some d))"
  have v2: "fw_verify_data E s2 d = Some (Inr ())"
    using d fw_verify_cong [of s2 s] by (simp add: s2_def f)
  have "fw_express E L env s i 0 = fw_forward_and_wait E L env s1 i 0 g"
    using consumer_decides [OF ok n] by (simp add: fw_express_decide [OF loop l])
  also have "\<dots> = fw_accept E L (env_later env) s2 (int_name i) d"
    using cap by (simp add: fw_forward_and_wait_def Let_def s2_def f env_def g)
  also have "\<dots> = (s', Done (Inr (Some d)))" by (simp add: fw_accept_def v2 s'_def)
  finally have "consumer_express E L v j i s w = ((s', w'), Done (Inr (Some d)))"
    using consumer_decides [OF ok n] l loop by (simp add: consumer_express_def call env_def Let_def g)
  moreover have "consumer_ok h k g s'"
    using ok by (simp add: consumer_ok_def s'_def s2_def fw_finish_def fw_cache_def f pit_once)
  moreover have "cs_map L (fw_cs s') m = None" if "m \<noteq> dat_name d" "cs_map L (fw_cs s) m = None" for m
  proof (rule ccontr)
    assume "cs_map L (fw_cs s') m \<noteq> None"
    then obtain x where "cs_map L (fst (cs_insert L (env_later env) (fw_cs s1) (dat_name d) d)) m = Some x"
      by (auto simp: s'_def s2_def fw_finish_def fw_cache_def)
    from cs_insert_map(2) [OF L that(1) this] that(2) fw_lookup_cs [OF L, of env s i 0] l show False by simp
  qed
  moreover have "\<not> pit_check_loop (fw_pit s') 0 nonce" if "nonce \<noteq> int_nonce i" "\<not> pit_check_loop (fw_pit s) 0 nonce" for nonce
    using that by (auto simp: s'_def s2_def fw_finish_def fw_cache_def f pit_check_loop_def pit_defs Let_def split: option.splits)
  ultimately show ?thesis by blast
qed

section \<open>What the program prints\<close>

lemma hello_fields:
  "dat_name (hello_data E k h) = name_new h [str_bytes ''hello'']"
  "dat_content (hello_data E k h) = hello_content"
  "dat_signature (hello_data E k h) = generate_proof E k (data_signed_hash E (hello_data E k h))"
  "md_content_hash (dat_metadata (hello_data E k h)) = Some (blake3 E hello_content)"
  by (simp_all add: hello_data_def data_new_def data_signed_hash_def Let_def)

lemma hello_verifies:
  assumes "sig_ok E" and "keys_wf k" and "length h = 32" and "fw_key_store s h = Some k"
  shows "fw_verify_data E s (hello_data E k h) = Some (Inr ())"
  using assms(3,4) verify_generated [OF assms(1,2), of "data_signed_hash E (hello_data E k h)"]
  by (simp add: fw_verify_data_def hello_fields(1) name_producer_hash_def name_new_def hello_fields(3) [symmetric])

lemma names_differ: "str_bytes ''hello'' \<noteq> str_bytes ''manifest''"
  by (simp add: str_bytes_def)

lemma producer_has:
  assumes "lru_ok L"
  shows "cs_map L (fw_cs (pipeline_producer E L J now k)) =
    [name_new (keys_address E k) [str_bytes ''manifest''] \<mapsto>
       manifest_to_data E J k (pipeline_manifest (keys_address E k)),
     name_new (keys_address E k) [str_bytes ''hello''] \<mapsto> hello_data E k (keys_address E k)]"
  using names_differ
  by (auto simp: pipeline_producer_def publish_def fw_register_keys_def forwarder_new_def Let_def cs_map_def
      cs_insert_entries cs_new_def lru_facts [OF assms] hello_fields manifest_data_fields pipeline_manifest_def fun_eq_iff)

lemma consumer_start:
  assumes "lru_ok L"
  shows "consumer_ok h k (te_id a) (pipeline_consumer L h k a)"
    and "cs_map L (fw_cs (pipeline_consumer L h k a)) = Map.empty"
    and "\<not> pit_check_loop (fw_pit (pipeline_consumer L h k a)) 0 nonce"
  using cs_new_wf [OF assms]
  by (simp_all add: pipeline_consumer_def fw_register_keys_def fw_register_face_def fw_add_route_def
      forwarder_new_def Let_def consumer_ok_def pit_new_def pit_check_loop_def)

lemma cache_lookup_miss:
  assumes "lru_ok L"
  shows "cs_map L (fw_cs s) = Map.empty \<Longrightarrow> cache_lookup L s i = None"
    and "\<not> int_can_be_prefix i \<Longrightarrow> cs_map L (fw_cs s) (int_name i) = None \<Longrightarrow> cache_lookup L s i = None"
  using cs_get_prefix_result [OF assms, where s = "fw_cs s" and p = "int_name i"]
    cs_get_unfold [OF assms, where s = "fw_cs s" and n = "int_name i"]
  by (auto simp: cache_lookup_def split: option.splits)

lemma pipeline_plain:
  assumes "length h = 32" and "isl (hex_decode E ''hello'')"
  shows "plain_manifest E (pipeline_manifest h)"
proof -
  have "plain_component E (str_bytes ''hello'')"
    using assms(2) unfolding plain_component_def bytes_str_bytes by (auto simp: str_bytes_def utf8_cont_def)
  then show ?thesis using assms(1) by (simp add: plain_manifest_def pipeline_manifest_def plain_name_def name_new_def)
qed

text \<open>The end of the program after the manifest was fetched: the content is there exactly if its
  name survived the manifest.\<close>

lemma fetch_hello:
  assumes L: "lru_ok L" and ok: "consumer_ok h k (te_id (pl_face_a w)) s" and "idle w" and "length h = 32"
    and "sig_ok E" and "keys_wf k" and "0 < pv_rounds v 1" and loop: "\<not> pit_check_loop (fw_pit s) 0 (pv_nonce v 1)"
    and miss: "cs_map L (fw_cs s) (name_new (squash h) [str_bytes ''hello'']) = None"
    and "cs_map L (fw_cs (pl_producer w)) (name_new h [str_bytes ''hello'']) = Some (hello_data E k h)"
  shows "fetch_entries E L v 1 (mf_entries (squash_manifest (pipeline_manifest h))) s w =
    ([''[Consumer]     - hello (blob)'',
      ''[Consumer]   Fetching '' @ name_display E (name_new (squash h) [str_bytes ''hello'']) @ '' ...''] @
     (if squash h = h then received_lines E (hello_data E k h) else [''[Consumer]   '' @ cross @ '' Timeout'']), True)"
proof -
  define i where "i = interest_with_lifetime (interest_new (pv_nonce v 1) (name_new (squash h) [str_bytes ''hello''])) (from_secs 5)"
  have i: "int_name i = name_new (squash h) [str_bytes ''hello'']" "int_nonce i = pv_nonce v 1" "\<not> int_can_be_prefix i"
    by (simp_all add: i_def interest_with_lifetime_def interest_new_def)
  have e: "mf_entries (squash_manifest (pipeline_manifest h)) = [\<lparr>me_kind = Blob, me_label = ''hello'',
      me_content_name = name_new (squash h) [str_bytes ''hello''], me_content_hash = None, me_size = None\<rparr>]"
    by (simp add: squash_manifest_def pipeline_manifest_def squash_entry_def squash_name_def name_new_def)
  have c: "nm_components (int_name i) = squash h # [str_bytes ''hello'']" by (simp add: i name_new_def)
  have m: "cache_lookup L s i = None" using cache_lookup_miss(2) [OF L] i miss by simp
  show ?thesis
  proof (cases "squash h = h")
    case True
    obtain w' where "face_call L (pv_rounds v 1) i w = (w', Some (hello_data E k h))"
      using face_call_served [OF L assms(3,7), of i] assms(10) i(1) True by auto
    moreover have "fw_verify_data E s (hello_data E k h) = Some (Inr ())"
      using ok assms(4-6) by (simp add: hello_verifies consumer_ok_def)
    ultimately obtain s' where "consumer_express E L v 1 i s w = ((s', w'), Done (Inr (Some (hello_data E k h))))"
      using consumer_forwards [OF L ok refl _ _ m] loop c True i(2) by metis
    then show ?thesis unfolding i_def using True by (simp add: e True Let_def format_entry_kind_def)
  next
    case False
    obtain s' where "consumer_express E L v 1 i s w = ((s', w), Done (Inr None))"
      using consumer_no_route [OF ok _ c False m] loop i(2) by metis
    then show ?thesis unfolding i_def by (simp add: e False Let_def format_entry_kind_def)
  qed
qed

text \<open>C40. 
  The pipeline as a whole: the program runs to its end, and the consumer gets and reads the
  manifest. It gets the content it lists exactly if the 24 middle bytes of the producer's hash are zero:
  otherwise the name it reads from the manifest is another one, for which it has no route, and the
  program reports a timeout.
\<close>

theorem pipeline_outcome:
  assumes "hash_ok E" and "sig_ok E" and "hex_ok E" and "hex_digits_ok E" and "isl (hex_decode E ''hello'')"
    and "json_ok J" and "lru_ok L" and "keys_wf k" and "0 < pv_rounds v 0" and "0 < pv_rounds v 1"
    and "pv_nonce v 0 \<noteq> pv_nonce v 1" and "h = keys_address E k"
  shows "pipeline_main E L J v now k k' =
    (start_lines E h (keys_address E k') (pipeline_manifest h) @
     [''[Consumer] Express Interest: '' @ name_display E (name_new h [str_bytes ''manifest'']),
      manifest_size_line (manifest_to_data E J k (pipeline_manifest h))] @
     manifest_lines E (pipeline_manifest h) @
     [''[Consumer]     - hello (blob)'',
      ''[Consumer]   Fetching '' @ name_display E (name_new (squash h) [str_bytes ''hello'']) @ '' ...''] @
     (if take 24 (drop 4 h) = replicate 24 0
      then received_lines E (hello_data E k h) else [''[Consumer]   '' @ cross @ '' Timeout'']) @
     end_lines, True)"
proof -
  let ?m = "pipeline_manifest h" and ?n = "name_new h [str_bytes ''manifest'']"
  let ?d = "manifest_to_data E J k ?m" and ?a = "test_face_new 1"
  let ?s = "pipeline_consumer L h k ?a"
  define w where "w = \<lparr>pl_producer = pipeline_producer E L J now k, pl_face_b = test_face_new 2, pl_face_a = ?a\<rparr>"
  define i where "i = interest_with_lifetime (interest_with_can_be_prefix (interest_new (pv_nonce v 0) ?n)) (from_secs 5)"
  have i: "int_name i = ?n" "int_nonce i = pv_nonce v 0" "nm_components (int_name i) = h # [str_bytes ''manifest'']"
    by (simp_all add: i_def interest_with_lifetime_def interest_with_can_be_prefix_def interest_new_def name_new_def)
  have h: "length h = 32" using assms(1,12) by (simp add: keys_address_def addr_from_identity_key_def hash_lengths)
  have p: "mf_producer ?m = h" by (simp add: pipeline_manifest_def)
  note st = consumer_start [OF assms(7), of h k ?a]
  have w: "idle w" "te_id (pl_face_a w) = te_id ?a" by (simp_all add: w_def idle_def test_face_new_def)
  have pr: "cs_map L (fw_cs (pl_producer w)) ?n = Some ?d"
    "cs_map L (fw_cs (pl_producer w)) (name_new h [str_bytes ''hello'']) = Some (hello_data E k h)"
    using names_differ by (auto simp: w_def producer_has [OF assms(7)] assms(12))
  obtain w1 where w1: "face_call L (pv_rounds v 0) i w = (w1, Some ?d)" "idle w1" "te_id (pl_face_a w1) = te_id ?a"
    "cs_map L (fw_cs (pl_producer w1)) = cs_map L (fw_cs (pl_producer w))"
    using face_call_served [OF assms(7) w(1) assms(9), of i ?d] pr(1) i(1) w(2) by auto
  have "fw_verify_data E ?s ?d = Some (Inr ())"
    using st(1) h p by (intro manifest_verifies [OF assms(2,8)]) (simp_all add: consumer_ok_def)
  from consumer_forwards [OF assms(7) st(1) w(2) [symmetric] st(3) i(3) cache_lookup_miss(1) [OF assms(7) st(2)] w1(1) this]
  obtain s1 where s1: "consumer_express E L v 0 i ?s w = ((s1, w1), Done (Inr (Some ?d)))"
    and ok: "consumer_ok h k (te_id ?a) s1"
    and miss: "\<And>n. n \<noteq> ?n \<Longrightarrow> cs_map L (fw_cs s1) n = None" and loop: "\<not> pit_check_loop (fw_pit s1) 0 (pv_nonce v 1)"
    using st(2,3) assms(11) i(2) unfolding manifest_data_fields(2) p by (metis (no_types))
  have "fetch_entries E L v 1 (mf_entries (squash_manifest ?m)) s1 w1 =
    ([''[Consumer]     - hello (blob)'',
      ''[Consumer]   Fetching '' @ name_display E (name_new (squash h) [str_bytes ''hello'']) @ '' ...''] @
     (if squash h = h then received_lines E (hello_data E k h) else [''[Consumer]   '' @ cross @ '' Timeout'']), True)"
    using assms(2,8,10) ok miss loop w1 h pr(2) names_differ by (intro fetch_hello [OF assms(7)]) auto
  moreover have "manifest_from_data E J ?d = Some (Inr (squash_manifest ?m))"
    using manifest_read_back [OF assms(3,4,6) pipeline_plain [OF h assms(5)]] .
  moreover have "manifest_lines E (squash_manifest ?m) = manifest_lines E ?m"
    by (simp add: manifest_lines_def squash_manifest_def)
  ultimately have "fetch_manifest E L J v ?n ?s w = (manifest_size_line ?d # manifest_lines E ?m @
    [''[Consumer]     - hello (blob)'',
      ''[Consumer]   Fetching '' @ name_display E (name_new (squash h) [str_bytes ''hello'']) @ '' ...''] @
     (if squash h = h then received_lines E (hello_data E k h) else [''[Consumer]   '' @ cross @ '' Timeout'']), True)"
    unfolding fetch_manifest_def Let_def i_def [symmetric] s1 by simp
  then show ?thesis
    by (simp add: pipeline_main_def test_face_pair_def assms(12) [symmetric] w_def [symmetric] Let_def squash_id)
qed

theorem pipeline_outcome_witness:
  "\<exists>ls. pipeline_main ext_toy lru_list json_toy
     \<lparr>pv_now = (\<lambda>k. k), pv_later = (\<lambda>k. k + 1), pv_nonce = (\<lambda>k. replicate 8 (of_nat k)), pv_rounds = (\<lambda>k. 2)\<rparr> 0
     (keys_from_secrets (replicate 32 1) (replicate 32 2)) (keys_from_secrets (replicate 32 3) (replicate 32 4)) =
   (ls @ [''[Consumer]   '' @ cross @ '' Timeout''] @ end_lines, True)"
proof -
  let ?k = "keys_from_secrets (replicate 32 1) (replicate 32 2)"
  have "take 24 (drop 4 (keys_address ext_toy ?k)) \<noteq> replicate 24 0" "isl (hex_decode ext_toy ''hello'')" by code_simp+
  then show ?thesis
    using pipeline_outcome [of ext_toy json_toy lru_list ?k
        "\<lparr>pv_now = (\<lambda>k. k), pv_later = (\<lambda>k. k + 1), pv_nonce = (\<lambda>k. replicate 8 (of_nat k)), pv_rounds = (\<lambda>k. 2)\<rparr>"
        "keys_address ext_toy ?k" 0 "keys_from_secrets (replicate 32 3) (replicate 32 4)"]
    by (simp add: keys_wf_def keys_from_secrets_def)
qed

end
