(* ===== verification/Path_Request.thy ===== *)
theory Path_Request
  imports Mesh_Routing
begin

text \<open>
  On-demand route discovery (\<open>crates/mesh/src/path_request.rs\<close>): path requests that gather the
  nodes they pass, path replies that travel the gathered path backwards, and the two handlers. The
  random request id is an argument. The theory shows which nodes a reply teaches and where it
  stops, and that a request relayed among fewer nodes than its hop limit never expires.
\<close>

record path_request =
  pr_destination_hash :: bytes
  pr_max_hops :: u8
  pr_request_id :: bytes
  pr_path :: "rns_address list"

definition path_request_new :: "bytes \<Rightarrow> rns_address \<Rightarrow> u8 \<Rightarrow> path_request" where
  "path_request_new request_id destination max_hops = \<lparr>pr_destination_hash = destination,
     pr_max_hops = max_hops, pr_request_id = request_id, pr_path = []\<rparr>"

definition pr_destination :: "path_request \<Rightarrow> MeshError + rns_address" where
  "pr_destination q = (case rns_from_bytes (pr_destination_hash q) of
     Inl _ \<Rightarrow> Inl (MeInvalidPacket ''invalid destination in path request'') | Inr a \<Rightarrow> Inr a)"

definition pr_is_expired :: "path_request \<Rightarrow> bool" where
  "pr_is_expired q \<longleftrightarrow> length (pr_path q) \<ge> unat (pr_max_hops q)"

definition pr_add_hop :: "path_request \<Rightarrow> rns_address \<Rightarrow> path_request" where
  "pr_add_hop q a = (if a \<in> set (pr_path q) then q else q\<lparr>pr_path := pr_path q @ [a]\<rparr>)"

record path_reply =
  pp_request_id :: bytes
  pp_destination_hash :: bytes
  pp_route :: "rns_address list"
  pp_quality :: f64
  pp_hop_count :: u8

definition path_reply_new :: "bytes \<Rightarrow> rns_address \<Rightarrow> rns_address list \<Rightarrow> f64 \<Rightarrow> u8 \<Rightarrow> path_reply" where
  "path_reply_new request_id destination route quality hop_count =
     \<lparr>pp_request_id = request_id, pp_destination_hash = destination, pp_route = route,
      pp_quality = quality, pp_hop_count = hop_count\<rparr>"

definition pp_destination :: "path_reply \<Rightarrow> MeshError + rns_address" where
  "pp_destination p = (case rns_from_bytes (pp_destination_hash p) of
     Inl _ \<Rightarrow> Inl (MeInvalidPacket ''invalid destination in path reply'') | Inr a \<Rightarrow> Inr a)"

definition handle_path_request :: "path_request \<Rightarrow> mesh_router \<Rightarrow> rns_address \<Rightarrow> path_reply option" where
  "handle_path_request request router local_addr =
     (case pr_destination request of
        Inl _ \<Rightarrow> None
      | Inr dest \<Rightarrow>
          let route = rev (pr_path request @ [local_addr]) in
          if dest = local_addr
          then Some (path_reply_new (pr_request_id request) dest route f64_1 0)
          else (case next_hop router dest of
              Some entry \<Rightarrow> Some (path_reply_new (pr_request_id request) dest route
                (re_path_quality entry) (re_hop_count entry))
            | None \<Rightarrow> None))"

text \<open>\<open>position\<close>: the index of the first element that is equal.\<close>

fun position :: "'a \<Rightarrow> 'a list \<Rightarrow> nat option" where
  "position a [] = None"
| "position a (x # xs) = (if x = a then Some 0 else map_option Suc (position a xs))"

text \<open>The sum of hop counts is one of bytes: it wraps (in a build with overflow checks it
  panics instead).\<close>

definition handle_path_reply ::
  "instant \<Rightarrow> path_reply \<Rightarrow> mesh_router \<Rightarrow> rns_address \<Rightarrow> mesh_router \<times> rns_address option" where
  "handle_path_reply now reply router local_addr =
     (case pp_destination reply of
        Inl _ \<Rightarrow> (router, None)
      | Inr dest \<Rightarrow>
          (case position local_addr (pp_route reply) of
             None \<Rightarrow> (router, None)
           | Some pos \<Rightarrow>
               ((if pos > 0
                 then update_route now router dest (pp_route reply ! (pos - 1)) (pp_quality reply)
                   (pp_hop_count reply + of_nat pos)
                 else router),
                (if pos + 1 < length (pp_route reply) then Some (pp_route reply ! (pos + 1)) else None))))"

section \<open>Positions\<close>

lemma position_None [simp]: "position a xs = None \<longleftrightarrow> a \<notin> set xs"
  by (induction xs) auto

lemma position_nth: "distinct xs \<Longrightarrow> i < length xs \<Longrightarrow> position (xs ! i) xs = Some i"
  by (induction xs arbitrary: i) (auto simp: nth_Cons' gr0_conv_Suc)

section \<open>The flood of requests\<close>

text \<open>A request passed on by a sequence of nodes.\<close>

definition relayed :: "path_request \<Rightarrow> rns_address list \<Rightarrow> path_request" where
  "relayed q ns = foldl pr_add_hop q ns"

lemma relayed_fields:
  "pr_destination_hash (relayed q ns) = pr_destination_hash q"
  "pr_max_hops (relayed q ns) = pr_max_hops q" "pr_request_id (relayed q ns) = pr_request_id q"
  by (induction ns rule: rev_induct) (simp_all add: relayed_def pr_add_hop_def)

lemma relayed_path:
  "distinct (pr_path q) \<Longrightarrow> distinct (pr_path (relayed q ns)) \<and> set (pr_path (relayed q ns)) = set (pr_path q) \<union> set ns"
  by (induction ns rule: rev_induct) (auto simp: relayed_def pr_add_hop_def)

lemma relayed_distinct:
  "distinct (pr_path q @ ns) \<Longrightarrow> pr_path (relayed q ns) = pr_path q @ ns"
  by (induction ns rule: rev_induct) (auto simp: relayed_def pr_add_hop_def)

text \<open>C36. 
  A request whose relays are fewer than its hop limit never expires, however often it is passed
  on: a node that is already on the path passes it on without lengthening the path, so in a small
  network with a cycle the flood of one request has no end.
\<close>

theorem request_never_expires:
  assumes "pr_path q = []" and "card (set ns) < unat (pr_max_hops q)"
  shows "\<not> pr_is_expired (relayed q ns)"
proof -
  have "length (pr_path (relayed q ns)) = card (set ns)"
    using relayed_path [of q ns] assms(1) distinct_card [of "pr_path (relayed q ns)"] by simp
  then show ?thesis using assms(2) by (simp add: pr_is_expired_def relayed_fields)
qed

theorem request_never_expires_witness:
  "\<not> pr_is_expired (relayed (path_request_new (replicate 16 1) (replicate 16 2) 3) [[3], [4], [3], [4], [3], [4]])"
  by (rule request_never_expires) (simp_all add: path_request_new_def insert_commute)

section \<open>The way of a reply\<close>

text \<open>Each node holds a router. A reply is handled at a node and passed to the node the handler
  names, until it names none; \<open>reply_walk\<close> returns the routers and the nodes it came by. The
  fuel is the number of nodes visited at most.\<close>

fun reply_walk ::
  "nat \<Rightarrow> instant \<Rightarrow> path_reply \<Rightarrow> (rns_address \<Rightarrow> mesh_router) \<Rightarrow> rns_address \<Rightarrow>
     (rns_address \<Rightarrow> mesh_router) \<times> rns_address list" where
  "reply_walk 0 now p net a = (net, [])"
| "reply_walk (Suc n) now p net a =
     (case handle_path_reply now p (net a) a of
        (r, None) \<Rightarrow> (net(a := r), [a])
      | (r, Some b) \<Rightarrow> let (net', as) = reply_walk n now p (net(a := r)) b in (net', a # as))"


definition learns :: "instant \<Rightarrow> path_reply \<Rightarrow> rns_address \<Rightarrow> nat \<Rightarrow> mesh_router \<Rightarrow> mesh_router" where
  "learns now p dest i r = update_route now r dest (pp_route p ! (i - 1)) (pp_quality p) (pp_hop_count p + of_nat i)"

lemma handle_path_reply_at:
  assumes "pp_destination p = Inr dest" "distinct (pp_route p)" "i < length (pp_route p)" "0 < i"
  shows "handle_path_reply now p r (pp_route p ! i) =
    (learns now p dest i r, if i + 1 < length (pp_route p) then Some (pp_route p ! (i + 1)) else None)"
  using assms by (simp add: handle_path_reply_def position_nth learns_def)

lemma reply_walk_from:
  assumes p: "pp_destination p = Inr dest" "distinct (pp_route p)"
  shows "0 < j \<Longrightarrow> j < length (pp_route p) \<Longrightarrow> length (pp_route p) \<le> n + j \<Longrightarrow>
    \<exists>net'. reply_walk n now p net (pp_route p ! j) = (net', drop j (pp_route p)) \<and>
      (\<forall>i. j \<le> i \<longrightarrow> i < length (pp_route p) \<longrightarrow> net' (pp_route p ! i) = learns now p dest i (net (pp_route p ! i))) \<and>
      (\<forall>a. a \<notin> set (drop j (pp_route p)) \<longrightarrow> net' a = net a)"
proof (induction n arbitrary: j net)
  case (Suc n)
  let ?R = "pp_route p" and ?a = "pp_route p ! j"
  let ?net = "net(?a := learns now p dest j (net ?a))"
  have h: "handle_path_reply now p (net ?a) ?a =
      (learns now p dest j (net ?a), if j + 1 < length ?R then Some (?R ! (j + 1)) else None)"
    using handle_path_reply_at [OF p Suc.prems(2,1)] .
  have d: "drop j ?R = ?a # drop (j + 1) ?R" using Suc.prems(2) by (simp add: Cons_nth_drop_Suc)
  show ?case
  proof (cases "j + 1 < length ?R")
    case False
    then have "length ?R = j + 1" using Suc.prems(2) by simp
    then have "drop j ?R = [?a]" using d by simp
    moreover have "\<forall>i. j \<le> i \<longrightarrow> i < length ?R \<longrightarrow> ?net (?R ! i) = learns now p dest i (net (?R ! i))"
      using \<open>length ?R = j + 1\<close> by (auto simp: le_less_Suc_eq)
    ultimately show ?thesis using False h by (intro exI [of _ ?net]) (simp add: fun_upd_def)
  next
    case True
    have j1: "0 < j + 1" "length ?R \<le> n + (j + 1)" using Suc.prems by simp_all
    from Suc.IH [OF j1(1) True j1(2), of ?net] obtain net' where
      net': "reply_walk n now p ?net (?R ! (j + 1)) = (net', drop (j + 1) ?R)"
      "\<And>i. j + 1 \<le> i \<Longrightarrow> i < length ?R \<Longrightarrow> net' (?R ! i) = learns now p dest i (?net (?R ! i))"
      "\<And>a. a \<notin> set (drop (j + 1) ?R) \<Longrightarrow> net' a = ?net a" using j1 by blast
    have a: "?a \<notin> set (drop (j + 1) ?R)"
      using d distinct_drop [OF p(2), of j] by simp
    have ne: "?R ! i \<noteq> ?a" if "j + 1 \<le> i" "i < length ?R" for i
      using that Suc.prems(2) p(2) by (simp add: nth_eq_iff_index_eq)
    have "net' (?R ! i) = learns now p dest i (net (?R ! i))" if "j \<le> i" "i < length ?R" for i
      using that net'(2) [of i] net'(3) [OF a] ne [of i] by (cases "i = j") auto
    moreover have "net' b = net b" if "b \<notin> set (drop j ?R)" for b
      using that net'(3) [of b] d by auto
    ultimately show ?thesis
      using h True net'(1) by (auto simp: d simp del: fun_upd_apply)
  qed
qed simp

text \<open>
  Path discovery does not teach the node that asked: a request made by \<open>path_request_new\<close> and
  passed on by distinct relays is answered with a route through the relays to the responder, in
  which the asking node does not occur. The reply visits the relays, nearest to the responder
  first, gives each of them its route, and stops at the first relay, which takes itself for
  the requester; the asking node would learn nothing if it got it.
\<close>

theorem discovery_skips_origin:
  assumes "distinct (origin # ns @ [responder])" and "ns \<noteq> []" and "length dest = 16"
    and "handle_path_request (relayed (path_request_new req dest hops) ns) router responder = Some p"
  shows "\<exists>net'. reply_walk (length ns) now p net (last ns) = (net', rev ns) \<and>
    (\<forall>a. a \<notin> set ns \<longrightarrow> net' a = net a) \<and> handle_path_reply now p (net origin) origin = (net origin, None) \<and>
    (\<forall>i < length ns. net' (ns ! i) = update_route now (net (ns ! i)) dest ((ns @ [responder]) ! (i + 1))
       (pp_quality p) (pp_hop_count p + of_nat (length ns - i)))"
proof -
  let ?q = "relayed (path_request_new req dest hops) ns"
  have "pr_destination ?q = Inr dest" "pr_path ?q = ns"
    using assms(1,3) relayed_distinct [of "path_request_new req dest hops" ns]
    by (simp_all add: pr_destination_def relayed_fields path_request_new_def rns_from_bytes_def)
  then have p: "pp_route p = rev (ns @ [responder])" "pp_destination p = Inr dest"
    using assms(3,4)
    by (auto simp: handle_path_request_def path_reply_new_def pp_destination_def rns_from_bytes_def Let_def
        split: if_splits option.splits)
  let ?R = "pp_route p"
  have d: "distinct ?R" using assms(1) by (auto simp: p(1))
  have last: "last ns = ?R ! 1" using assms(2) by (simp add: p(1) nth_append rev_nth last_conv_nth)
  have len: "length ?R = length ns + 1" by (simp add: p(1))
  obtain net' where net': "reply_walk (length ns) now p net (?R ! 1) = (net', drop 1 ?R)"
    "\<forall>i. 1 \<le> i \<longrightarrow> i < length ?R \<longrightarrow> net' (?R ! i) = learns now p dest i (net (?R ! i))"
    "\<forall>a. a \<notin> set (drop 1 ?R) \<longrightarrow> net' a = net a"
    using reply_walk_from [OF p(2) d, of 1 "length ns" now net] assms(2) by (auto simp: len)
  have o: "origin \<notin> set ?R" using assms(1) by (auto simp: p(1))
  have "net' (ns ! i) = update_route now (net (ns ! i)) dest ((ns @ [responder]) ! (i + 1))
       (pp_quality p) (pp_hop_count p + of_nat (length ns - i))" if i: "i < length ns" for i
  proof -
    have R: "?R ! k = (ns @ [responder]) ! (length ns - k)" if "k \<le> length ns" for k
      using that unfolding p(1) by (subst rev_nth) simp_all
    have "?R ! (length ns - i) = ns ! i" using R [of "length ns - i"] i by (simp add: nth_append)
    moreover have "?R ! (length ns - i - 1) = (ns @ [responder]) ! (i + 1)"
      using R [of "length ns - i - 1"] i by simp
    moreover have "net' (?R ! (length ns - i)) = learns now p dest (length ns - i) (net (?R ! (length ns - i)))"
      using net'(2) i by (simp add: len)
    ultimately show ?thesis by (simp add: learns_def)
  qed
  moreover have "drop 1 ?R = rev ns" by (simp add: p(1))
  moreover have "\<forall>a. a \<notin> set ns \<longrightarrow> net' a = net a" using net'(3) by (simp add: p(1))
  moreover have "handle_path_reply now p (net origin) origin = (net origin, None)"
    using o position_None [of origin ?R] by (simp add: handle_path_reply_def p(2) del: position_None)
  ultimately show ?thesis using net'(1) by (auto simp: last)
qed

theorem discovery_skips_origin_witness:
  "\<exists>p net'. handle_path_request (relayed (path_request_new (replicate 16 7) (replicate 16 9) 64) [replicate 16 1, replicate 16 2])
       (router_new (replicate 16 9)) (replicate 16 9) = Some p \<and>
     reply_walk 2 5 p router_new (replicate 16 2) = (net', [replicate 16 2, replicate 16 1]) \<and>
     net' (replicate 16 0) = router_new (replicate 16 0)"
proof -
  let ?ns = "[replicate 16 1, replicate 16 2 :: u8 list]" and ?r = "replicate 16 9 :: u8 list"
  obtain p where p: "handle_path_request (relayed (path_request_new (replicate 16 7) ?r 64) ?ns) (router_new ?r) ?r = Some p"
    by (simp add: handle_path_request_def pr_destination_def relayed_fields path_request_new_def rns_from_bytes_def)
  have "distinct (replicate 16 0 # ?ns @ [?r])" by simp
  from discovery_skips_origin [OF this _ _ p, where now = 5 and net = router_new]
  show ?thesis using p by (auto simp: numeral_2_eq_2)
qed

section \<open>Following the routes\<close>

text \<open>The nodes a packet for \<open>dest\<close> comes by when every node passes it to the next hop of its table;
  the fuel is the number of hops at most.\<close>

fun follow :: "nat \<Rightarrow> (rns_address \<Rightarrow> mesh_router) \<Rightarrow> rns_address \<Rightarrow> rns_address \<Rightarrow> rns_address list" where
  "follow 0 net dest a = [a]"
| "follow (Suc n) net dest a = (case next_hop (net a) dest of
       None \<Rightarrow> [a]
     | Some e \<Rightarrow> a # follow n net dest (re_next_hop e))"

lemma follow_chain:
  assumes "\<And>i. i < length ns \<Longrightarrow> map_option re_next_hop (next_hop (net (ns ! i)) dest) = Some ((ns @ [dest]) ! (i + 1))"
    and "next_hop (net dest) dest = None"
  shows "i \<le> length ns \<Longrightarrow> length ns \<le> n + i \<Longrightarrow> follow n net dest ((ns @ [dest]) ! i) = drop i (ns @ [dest])"
proof (induction n arbitrary: i)
  case (Suc n)
  show ?case
  proof (cases "i = length ns")
    case False
    then have i: "i < length ns" using Suc.prems by simp
    then have "drop i (ns @ [dest]) = ns ! i # drop (i + 1) (ns @ [dest])"
      by (simp add: Cons_nth_drop_Suc [symmetric])
    moreover have "follow n net dest ((ns @ [dest]) ! (i + 1)) = drop (i + 1) (ns @ [dest])"
      using Suc.IH [of "i + 1"] Suc.prems i by simp
    ultimately show ?thesis using assms(1) [OF i] i by (auto simp: nth_append [of ns _ i])
  qed (simp add: assms(2))
qed simp

text \<open>C39. 
  Path discovery works for the relays: in a network where none of them knows the destination, a
  request that distinct relays pass on to the destination is answered, the answer walks back over all of
  them, and afterwards a packet at any relay, passed from next hop to next hop, comes by exactly
  the relays that follow it on the path and arrives, without a loop and in as many hops as the
  path has.
\<close>

theorem path_discovery:
  assumes "distinct (ns @ [dest])" and "ns \<noteq> []" and "length dest = 16"
    and "\<forall>a \<in> set (ns @ [dest]). next_hop (net a) dest = None"
  shows "\<exists>p net'. handle_path_request (relayed (path_request_new req dest hops) ns) (net dest) dest = Some p \<and>
    reply_walk (length ns) now p net (last ns) = (net', rev ns) \<and>
    (\<forall>i < length ns. follow (length ns) net' dest (ns ! i) = drop i (ns @ [dest]))"
proof -
  obtain origin where o: "origin \<notin> set (ns @ [dest])"
    using ex_new_if_finite [OF infinite_UNIV_listI, of "set (ns @ [dest])"] by auto
  obtain p where p: "handle_path_request (relayed (path_request_new req dest hops) ns) (net dest) dest = Some p"
    using assms(3) by (simp add: handle_path_request_def pr_destination_def relayed_fields path_request_new_def rns_from_bytes_def)
  have "distinct (origin # ns @ [dest])" using o assms(1) by simp
  from discovery_skips_origin [OF this assms(2,3) p, of now net] obtain net' where
    walk: "reply_walk (length ns) now p net (last ns) = (net', rev ns)" and
    learn: "\<And>i. i < length ns \<Longrightarrow> net' (ns ! i) = update_route now (net (ns ! i)) dest ((ns @ [dest]) ! (i + 1))
       (pp_quality p) (pp_hop_count p + of_nat (length ns - i))" and
    rest: "\<And>a. a \<notin> set ns \<Longrightarrow> net' a = net a" by blast
  have "net' dest = net dest" using rest assms(1) by simp
  have "follow (length ns) net' dest ((ns @ [dest]) ! i) = drop i (ns @ [dest])" if "i < length ns" for i
    using that assms(4) \<open>net' dest = net dest\<close> by (intro follow_chain) (auto simp: learn update_route_new next_hop_def)
  then show ?thesis using p walk by (auto simp: nth_append)
qed

theorem path_discovery_witness:
  "\<exists>p net'. handle_path_request (relayed (path_request_new (replicate 16 7) (replicate 16 9) 64) [replicate 16 1, replicate 16 2])
       (router_new (replicate 16 9)) (replicate 16 9) = Some p \<and>
     reply_walk 2 5 p router_new (replicate 16 2) = (net', [replicate 16 2, replicate 16 1]) \<and>
     follow 2 net' (replicate 16 9) (replicate 16 1) = [replicate 16 1, replicate 16 2, replicate 16 9]"
proof -
  let ?ns = "[replicate 16 1, replicate 16 2 :: u8 list]"
  have "distinct (?ns @ [replicate 16 9])" "\<forall>a \<in> set (?ns @ [replicate 16 9]). next_hop (router_new a) (replicate 16 9) = None"
    by (simp_all add: next_hop_def router_new_def)
  from path_discovery [OF this(1) _ _ this(2), of "replicate 16 7" 64 5] show ?thesis
    by (auto simp: numeral_2_eq_2 simp del: follow.simps reply_walk.simps)
qed

end
