(* ===== verification/Daemon.thy ===== *)
theory Daemon
  imports Channel Reassembly Path_Request Icn_Forwarder
begin

text \<open>
  The daemon (\<open>crates/daemon/src/lib.rs\<close>), first part: its state, sending, announces and path
  discovery. A handler is a function from the state to the new state, the frames it puts on the
  media, in order, and how it ended. The media are numbered; whether a medium accepts a frame for
  an address is part of the environment \<open>denv\<close>, with the time, the random values drawn and the
  order in which a hash map is iterated. \<open>bincode\<close> is a parameter with its documented round trip.
\<close>

section \<open>Parameters\<close>

record bincode =
  bc_request :: "path_request \<Rightarrow> bytes"
  bc_read_request :: "bytes \<Rightarrow> path_request option"
  bc_reply :: "path_reply \<Rightarrow> bytes"
  bc_read_reply :: "bytes \<Rightarrow> path_reply option"
  bc_segment :: "segment \<Rightarrow> bytes"
  bc_read_segment :: "bytes \<Rightarrow> segment option"
  bc_adv :: "advertisement \<Rightarrow> bytes"
  bc_read_adv :: "bytes \<Rightarrow> advertisement option"

definition bincode_ok :: "bincode \<Rightarrow> bool" where
  "bincode_ok B \<longleftrightarrow> (\<forall>x. bc_read_request B (bc_request B x) = Some x) \<and>
     (\<forall>x. bc_read_reply B (bc_reply B x) = Some x) \<and>
     (\<forall>x. bc_read_segment B (bc_segment B x) = Some x) \<and>
     (\<forall>x. bc_read_adv B (bc_adv B x) = Some x)"

text \<open>A concrete serialisation with these properties: integers in eight bytes, a first byte for the
  kind of value.\<close>

definition bincode_toy :: bincode where
  "bincode_toy = \<lparr>
     bc_request = (\<lambda>q. toy_puts (pr_destination_hash q # [pr_max_hops q] # pr_request_id q # pr_path q)),
     bc_read_request = (\<lambda>bs. case toy_read bs of d # [h] # i # p \<Rightarrow>
       Some \<lparr>pr_destination_hash = d, pr_max_hops = h, pr_request_id = i, pr_path = p\<rparr> | _ \<Rightarrow> None),
     bc_reply = (\<lambda>q. toy_puts (pp_request_id q # pp_destination_hash q # be_bytes 8 (unat (pp_quality q)) #
       [pp_hop_count q] # pp_route q)),
     bc_read_reply = (\<lambda>bs. case toy_read bs of i # d # q # [h] # r \<Rightarrow>
       Some \<lparr>pp_request_id = i, pp_destination_hash = d, pp_route = r, pp_quality = of_nat (be_val q), pp_hop_count = h\<rparr>
       | _ \<Rightarrow> None),
     bc_segment = (\<lambda>s. toy_puts [[7], seg_resource_hash s, be_bytes 8 (unat (seg_index s)), be_bytes 8 (unat (seg_total s)),
       seg_data s, seg_checksum s]),
     bc_read_segment = (\<lambda>bs. case toy_read bs of [[t], h, i, n, d, c] \<Rightarrow>
       if t = 7 then Some \<lparr>seg_resource_hash = h, seg_index = of_nat (be_val i), seg_total = of_nat (be_val n),
         seg_data = d, seg_checksum = c\<rparr> else None | _ \<Rightarrow> None),
     bc_adv = (\<lambda>a. toy_puts [adv_hash a, be_bytes 8 (unat (adv_total_size a)), be_bytes 8 (unat (adv_segment_count a)),
       [adv_compression a], adv_advertiser a]),
     bc_read_adv = (\<lambda>bs. case toy_read bs of [h, n, c, [z], a] \<Rightarrow>
       Some \<lparr>adv_hash = h, adv_total_size = of_nat (be_val n), adv_segment_count = of_nat (be_val c),
         adv_compression = z, adv_advertiser = a\<rparr> | _ \<Rightarrow> None)\<rparr>"

lemma bincode_toy_ok [simp]: "bincode_ok bincode_toy"
  by (simp add: bincode_ok_def bincode_toy_def)

record denv =
  de_now :: instant
  \<comment> \<open>the second reading of the clock in a handler that makes two\<close>
  de_later :: instant
  \<comment> \<open>whether \<open>Medium::send\<close> succeeds on a medium, for an address and a frame\<close>
  de_send_ok :: "nat \<Rightarrow> rns_address \<Rightarrow> bytes \<Rightarrow> bool"
  de_request_id :: bytes
  de_ephemeral :: bytes
  de_signing_seed :: bytes
  de_ratchet :: bytes
  de_iv :: bytes
  \<comment> \<open>the keys of a hash map in its iteration order\<close>
  de_order :: "rns_address list"
  \<comment> \<open>a duration in milliseconds as a floating-point number\<close>
  de_ms :: "duration \<Rightarrow> f64"
  \<comment> \<open>the environment of the forwarder, for each message of a packet\<close>
  de_fw :: "nat \<Rightarrow> fw_env"

text \<open>An environment for examples: every medium accepts every frame.\<close>

definition denv_demo :: "nat \<Rightarrow> denv" where
  "denv_demo n = \<lparr>de_now = n, de_later = n, de_send_ok = (\<lambda>_ _ _. True), de_request_id = replicate 16 1,
     de_ephemeral = replicate 32 11, de_signing_seed = replicate 32 12, de_ratchet = replicate 32 13,
     de_iv = replicate 16 14, de_order = [], de_ms = of_nat,
     de_fw = (\<lambda>_. \<lparr>env_now = n, env_later = n, env_tx = 0, env_answer = (\<lambda>_ _. CallDropped), env_race = (\<lambda>_ _. CallDropped)\<rparr>)\<rparr>"

section \<open>State\<close>

record pending_link =
  pl_link_id :: bytes
  pl_ephemeral_priv :: bytes
  pl_initiator_sig_pub :: bytes

record 'c daemon =
  dm_keys :: keys
  dm_router :: mesh_router
  dm_forwarder :: "'c forwarder"
  dm_media :: nat
  dm_channels :: "rns_address \<rightharpoonup> channel"
  dm_pending_channels :: "rns_address \<rightharpoonup> channel"
  dm_pending_links :: "rns_address \<rightharpoonup> pending_link"
  dm_peer_keys :: "rns_address \<rightharpoonup> bytes"
  dm_incoming_resources :: "bytes \<rightharpoonup> resource"
  dm_announce_seq :: u64
  dm_sent_announces :: "bytes set"
  dm_pending_path_requests :: "bytes \<rightharpoonup> bytes"

datatype DaemonError =
    DeNoRoute
  | DeNoLink
  | DeIcn string
  | DeChannel ChannelError
  | DeMesh MeshError
  | DeTransport TransportError
  | DeIo string
  | DeOther string

text \<open>The texts of the errors of channels (\<open>crates/channel/src/lib.rs\<close>) and of the daemon, which the
  API reports.\<close>

definition channel_error_text :: "ChannelError \<Rightarrow> string" where
  "channel_error_text e = (case e of
       LinkNotReady \<Rightarrow> ''link not established''
     | MessageTooLarge n mdu \<Rightarrow> ''message too large: '' @ show_nat n @ '' bytes > MDU '' @ show_nat mdu
     | ChTransport t \<Rightarrow> ''transport error: '' @ transport_error_text t)"

definition daemon_error_text :: "DaemonError \<Rightarrow> string" where
  "daemon_error_text e = (case e of
       DeNoRoute \<Rightarrow> ''no route to destination''
     | DeNoLink \<Rightarrow> ''no established link to destination''
     | DeIcn s \<Rightarrow> ''ICN error: '' @ s
     | DeChannel c \<Rightarrow> ''channel error: '' @ channel_error_text c
     | DeMesh m \<Rightarrow> ''mesh error: '' @ mesh_error_text m
     | DeTransport t \<Rightarrow> ''transport error: '' @ transport_error_text t
     | DeIo s \<Rightarrow> ''IO error: '' @ s
     | DeOther s \<Rightarrow> s)"

datatype dout =
    OutSend nat rns_address bytes
  | OutBroadcast nat bytes
  | OutAddPeer nat rns_address string

datatype dresult = ROk | RErr DaemonError | RPanic | RHang

type_synonym 'c dstep = "'c daemon \<times> dout list \<times> dresult"

text \<open>The sequencing of fallible calls: what follows a call runs only if it succeeded.\<close>

definition dthen :: "'c dstep \<Rightarrow> ('c daemon \<Rightarrow> 'c dstep) \<Rightarrow> 'c dstep" where
  "dthen r f = (case r of (s, os, x) \<Rightarrow>
     if x = ROk then (case f s of (s', os', x') \<Rightarrow> (s', os @ os', x')) else (s, os, x))"

text \<open>Calls whose result is discarded: only a panic, or a wait without end, keeps what follows
  from running.\<close>

definition dseq :: "'c dstep \<Rightarrow> ('c daemon \<Rightarrow> 'c dstep) \<Rightarrow> 'c dstep" where
  "dseq r f = (case r of (s, os, x) \<Rightarrow>
     if x = RPanic \<or> x = RHang then (s, os, x)
     else (case f s of (s', os', x') \<Rightarrow> (s', os @ os', x')))"

definition daemon_new :: "ext \<Rightarrow> 'c lru_ops \<Rightarrow> keys \<Rightarrow> 'c daemon" where
  "daemon_new E L k = \<lparr>dm_keys = k, dm_router = router_new (keys_rns_address E k),
     dm_forwarder = forwarder_new L, dm_media = 0, dm_channels = Map.empty,
     dm_pending_channels = Map.empty, dm_pending_links = Map.empty, dm_peer_keys = Map.empty,
     dm_incoming_resources = Map.empty, dm_announce_seq = 0, dm_sent_announces = {},
     dm_pending_path_requests = Map.empty\<rparr>"

definition dm_add_medium :: "'c daemon \<Rightarrow> 'c daemon" where
  "dm_add_medium s = s\<lparr>dm_media := dm_media s + 1\<rparr>"

definition dm_register_peer :: "'c daemon \<Rightarrow> rns_address \<Rightarrow> bytes \<Rightarrow> 'c daemon" where
  "dm_register_peer s a k = s\<lparr>dm_peer_keys := (dm_peer_keys s)(a \<mapsto> k)\<rparr>"

section \<open>Sending\<close>

fun try_media :: "denv \<Rightarrow> rns_address \<Rightarrow> bytes \<Rightarrow> nat list \<Rightarrow> dout option" where
  "try_media env a data [] = None"
| "try_media env a data (m # ms) =
     (if de_send_ok env m a data then Some (OutSend m a data) else try_media env a data ms)"

abbreviation (input) media_of :: "'c daemon \<Rightarrow> nat list" where
  "media_of s \<equiv> [0..<dm_media s]"

abbreviation (input) broadcast_all :: "'c daemon \<Rightarrow> bytes \<Rightarrow> dout list" where
  "broadcast_all s frame \<equiv> map (\<lambda>m. OutBroadcast m frame) (media_of s)"

definition path_packet :: "u8 \<Rightarrow> bytes \<Rightarrow> u8 \<Rightarrow> bytes \<Rightarrow> packet" where
  "path_packet transport dest ctx payload =
     \<lparr>pkt_header_type = HEADER_1, pkt_context_flag = FLAG_UNSET, pkt_transport_type = transport,
      pkt_destination_type = DEST_SINGLE, pkt_packet_type = DATA, pkt_hops = MAX_HOPS,
      pkt_destination_hash = dest, pkt_transport_id = None, pkt_context = ctx, pkt_data = payload\<rparr>"

definition dm_send_to :: "bincode \<Rightarrow> denv \<Rightarrow> rns_address \<Rightarrow> bytes \<Rightarrow> 'c daemon \<Rightarrow> 'c dstep" where
  "dm_send_to B env dest data s =
     (case try_media env dest data (media_of s) of
        Some os \<Rightarrow> (s, [os], ROk)
      | None \<Rightarrow>
          (case next_hop (dm_router s) dest of
             Some entry \<Rightarrow>
               (case try_media env (re_next_hop entry) data (media_of s) of
                  Some os \<Rightarrow> (s, [os], ROk)
                | None \<Rightarrow> (s, [], RErr DeNoRoute))
           | None \<Rightarrow>
               let req = path_request_new (de_request_id env) dest MAX_HOPS in
               if dm_pending_path_requests s dest = None
               then (s\<lparr>dm_pending_path_requests := (dm_pending_path_requests s)(dest \<mapsto> pr_request_id req)\<rparr>,
                     broadcast_all s (packet_to_bytes
                       (path_packet TRANSPORT_BROADCAST dest PATH_REQUEST (bc_request B req))),
                     RErr DeNoRoute)
               else (s, [], RErr DeNoRoute)))"

section \<open>Announces\<close>

text \<open>The random part of an announce: five random bytes and the low five bytes of the Unix time.\<close>

definition announce_random_hash :: "bytes \<Rightarrow> u64 \<Rightarrow> bytes" where
  "announce_random_hash rand unix = rand @ take 5 (le_bytes 8 (unat unix))"

definition build_announce_packet :: "ext \<Rightarrow> keys \<Rightarrow> bytes \<Rightarrow> u64 \<Rightarrow> packet" where
  "build_announce_packet E k rand unix =
     (let rns_addr = keys_rns_address E k;
          public_key = full_public_key_bytes E k;
          name_hash = take 10 (sha256 E (str_bytes ''daemon''));
          random_hash = announce_random_hash rand unix;
          signed_data = rns_addr @ public_key @ name_hash @ random_hash;
          sig_bytes = keys_sign E k signed_data
      in \<lparr>pkt_header_type = HEADER_1, pkt_context_flag = FLAG_UNSET,
          pkt_transport_type = TRANSPORT_BROADCAST, pkt_destination_type = DEST_SINGLE,
          pkt_packet_type = ANNOUNCE, pkt_hops = 1, pkt_destination_hash = rns_addr,
          pkt_transport_id = None, pkt_context = NONE,
          pkt_data = public_key @ name_hash @ random_hash @ sig_bytes\<rparr>)"

text \<open>The signature check of a full announce. Its result is logged and nothing more.\<close>

definition announce_verified :: "ext \<Rightarrow> packet \<Rightarrow> bool" where
  "announce_verified E p =
     (let full_key = take 64 (pkt_data p); name_hash = slice 64 74 (pkt_data p);
          random_hash = slice 74 84 (pkt_data p); sig_bytes = slice 84 148 (pkt_data p);
          signed_data = rns_from_full_key E full_key @ full_key @ name_hash @ random_hash;
          key = drop 32 full_key
      in ed_key_valid E key \<and> ed_verify E key signed_data sig_bytes)"

text \<open>Registration of the peer, by the length of the announce; then propagation, once for each
  destination hash.\<close>

definition announce_register :: "ext \<Rightarrow> instant \<Rightarrow> rns_address \<Rightarrow> packet \<Rightarrow> 'c daemon \<Rightarrow> 'c daemon" where
  "announce_register E now from p s =
     (if length (pkt_data p) \<ge> 148 then
        (let full_key = take 64 (pkt_data p); expected_addr = rns_from_full_key E full_key
         in s\<lparr>dm_peer_keys := (dm_peer_keys s)(expected_addr \<mapsto> drop 32 full_key),
              dm_router := update_route now (dm_router s) expected_addr expected_addr f64_1 1\<rparr>)
      else if length (pkt_data p) \<ge> 64 then
        s\<lparr>dm_peer_keys := (dm_peer_keys s)(from \<mapsto> slice 32 64 (pkt_data p)),
          dm_router := update_route now (dm_router s) from from f64_1 1\<rparr>
      else if length (pkt_data p) \<ge> 32 then
        s\<lparr>dm_peer_keys := (dm_peer_keys s)(from \<mapsto> take 32 (pkt_data p)),
          dm_router := update_route now (dm_router s) from from f64_1 1\<rparr>
      else s)"

definition announce_propagate :: "packet \<Rightarrow> 'c daemon \<Rightarrow> 'c daemon \<times> dout list" where
  "announce_propagate p s =
     (if pkt_hops p > 0 \<and> pkt_destination_hash p \<notin> dm_sent_announces s
      then (s\<lparr>dm_sent_announces := insert (pkt_destination_hash p) (dm_sent_announces s)\<rparr>,
            broadcast_all s (packet_to_bytes (p\<lparr>pkt_hops := pkt_hops p - 1\<rparr>)))
      else (s, []))"

definition dm_handle_announce :: "ext \<Rightarrow> denv \<Rightarrow> rns_address \<Rightarrow> packet \<Rightarrow> 'c daemon \<Rightarrow> 'c dstep" where
  "dm_handle_announce E env from p s =
     (case announce_propagate p (announce_register E (de_now env) from p s) of
        (s, os) \<Rightarrow> (s, os, ROk))"

section \<open>Path discovery\<close>

definition dm_handle_path_request_msg ::
  "ext \<Rightarrow> bincode \<Rightarrow> denv \<Rightarrow> rns_address \<Rightarrow> packet \<Rightarrow> 'c daemon \<Rightarrow> 'c dstep" where
  "dm_handle_path_request_msg E B env from p s =
     (case bc_read_request B (pkt_data p) of
        None \<Rightarrow> (s, [], ROk)
      | Some req \<Rightarrow>
          let local_addr = keys_rns_address E (dm_keys s) in
          case handle_path_request req (dm_router s) local_addr of
            Some reply \<Rightarrow>
              dm_send_to B env from (packet_to_bytes
                (path_packet TRANSPORT_UNICAST from PATH_RESPONSE (bc_reply B reply))) s
          | None \<Rightarrow>
              if pr_is_expired req then (s, [], ROk)
              else let fwd_req = pr_add_hop req local_addr in
                (s, broadcast_all s (packet_to_bytes (path_packet TRANSPORT_BROADCAST
                   (pr_destination_hash fwd_req) PATH_REQUEST (bc_request B fwd_req))), ROk))"

definition dm_handle_path_reply_msg ::
  "ext \<Rightarrow> bincode \<Rightarrow> denv \<Rightarrow> rns_address \<Rightarrow> packet \<Rightarrow> 'c daemon \<Rightarrow> 'c dstep" where
  "dm_handle_path_reply_msg E B env from p s =
     (case bc_read_reply B (pkt_data p) of
        None \<Rightarrow> (s, [], ROk)
      | Some reply \<Rightarrow>
          let local_addr = keys_rns_address E (dm_keys s);
              (router, hop) = handle_path_reply (de_now env) reply (dm_router s) local_addr;
              s = s\<lparr>dm_router := router\<rparr>
          in case hop of
               Some hop \<Rightarrow> dm_send_to B env hop (packet_to_bytes
                 (path_packet TRANSPORT_UNICAST hop PATH_RESPONSE (bc_reply B reply))) s
             | None \<Rightarrow> (s\<lparr>dm_pending_path_requests :=
                 (dm_pending_path_requests s)(pp_request_id reply := None)\<rparr>, [], ROk))"

section \<open>Announces: what they teach and how far they go\<close>

lemma announce_register_fields [simp]:
  "dm_media (announce_register E now from p s) = dm_media s"
  "dm_sent_announces (announce_register E now from p s) = dm_sent_announces s"
  "dm_keys (announce_register E now from p s) = dm_keys s"
  "dm_forwarder (announce_register E now from p s) = dm_forwarder s"
  "dm_channels (announce_register E now from p s) = dm_channels s"
  "dm_pending_channels (announce_register E now from p s) = dm_pending_channels s"
  "dm_pending_links (announce_register E now from p s) = dm_pending_links s"
  "dm_incoming_resources (announce_register E now from p s) = dm_incoming_resources s"
  "dm_pending_path_requests (announce_register E now from p s) = dm_pending_path_requests s"
  by (simp_all add: announce_register_def Let_def)

text \<open>A sequence of announces handled by one daemon, and what it broadcasts for them.\<close>

fun dm_announces :: "ext \<Rightarrow> (denv \<times> rns_address \<times> packet) list \<Rightarrow> 'c daemon \<Rightarrow> 'c daemon \<times> dout list" where
  "dm_announces E [] s = (s, [])"
| "dm_announces E ((env, from, p) # as) s =
     (case dm_handle_announce E env from p s of
        (s, os, _) \<Rightarrow> (case dm_announces E as s of (s, os') \<Rightarrow> (s, os @ os')))"

definition live_hashes :: "(denv \<times> rns_address \<times> packet) list \<Rightarrow> bytes set" where
  "live_hashes as = {pkt_destination_hash p | env from p. (env, from, p) \<in> set as \<and> pkt_hops p > 0}"

lemma live_hashes_simps:
  "live_hashes [] = {}"
  "live_hashes ((env, from, p) # as) =
     (if pkt_hops p > 0 then insert (pkt_destination_hash p) (live_hashes as) else live_hashes as)"
  by (auto simp: live_hashes_def)

lemma finite_live_hashes [simp]: "finite (live_hashes as)"
  by (induction as) (auto simp: live_hashes_simps)

lemma dm_handle_announce_sent:
  assumes "dm_handle_announce E env from p s = (s', os, r)"
  shows "dm_media s' = dm_media s" "r = ROk"
    "dm_sent_announces s' = (if pkt_hops p > 0 then insert (pkt_destination_hash p) (dm_sent_announces s)
       else dm_sent_announces s)"
    "os = (if pkt_hops p > 0 \<and> pkt_destination_hash p \<notin> dm_sent_announces s
       then broadcast_all s (packet_to_bytes (p\<lparr>pkt_hops := pkt_hops p - 1\<rparr>)) else [])"
  using assms by (auto simp: dm_handle_announce_def announce_propagate_def split: if_splits)

text \<open>C15. 
  The flood of announces ends: whatever announces reach a daemon, with whatever hop counts and from
  whatever peers, it broadcasts exactly one frame on each medium for each destination hash that
  comes with hops left and that it had not propagated before. Hearing the same announce again
  costs nothing.
\<close>

theorem announce_flood_bound:
  "length (Product_Type.snd (dm_announces E as s)) =
     dm_media s * card (live_hashes as - dm_sent_announces s)"
proof (induction as arbitrary: s)
  case (Cons a as)
  obtain env src p where a: "a = (env, src, p)" by (cases a)
  obtain s1 os r where h: "dm_handle_announce E env src p s = (s1, os, r)" by (metis prod_cases3)
  note d = dm_handle_announce_sent [OF h]
  let ?h = "pkt_destination_hash p" and ?D = "live_hashes as - dm_sent_announces s"
  have IH: "length (Product_Type.snd (dm_announces E as s1)) =
      dm_media s * card (live_hashes as - dm_sent_announces s1)"
    using Cons.IH [of s1] d(1) by simp
  have l: "length (Product_Type.snd (dm_announces E (a # as) s)) =
      length os + length (Product_Type.snd (dm_announces E as s1))"
    by (simp add: a h split: prod.splits)
  show ?case
  proof (cases "pkt_hops p > 0 \<and> ?h \<notin> dm_sent_announces s")
    case True
    then have "live_hashes (a # as) - dm_sent_announces s = insert ?h (?D - {?h})"
      "live_hashes as - dm_sent_announces s1 = ?D - {?h}" "length os = dm_media s"
      using d by (auto simp: a live_hashes_simps)
    then show ?thesis by (simp add: l IH card_insert_disjoint del: insert_Diff_single)
  next
    case False
    then have "os = []" "live_hashes (a # as) - dm_sent_announces s = ?D"
      "live_hashes as - dm_sent_announces s1 = ?D"
      using d by (auto simp: a live_hashes_simps)
    then show ?thesis by (simp add: l IH)
  qed
qed (simp add: live_hashes_simps)

lemma update_route_known: "\<exists>e. mr_routes (update_route now r dest hop q h) dest = Some e"
  by (cases "mr_routes r dest") (auto simp: update_route_new update_route_old)

text \<open>C23. 
  Announces between daemons: the announce a daemon builds has 148 bytes of data, survives the wire,
  verifies, and teaches whoever hears it the signing key of the announcer under its address and a
  route to it. It is passed on once, with no hops left, so the neighbours of those who hear it first
  are the last to hear it.
\<close>

theorem announce_roundtrip:
  assumes "hash_ok E" and "dh_ok E" and "sig_ok E" and "keys_wf k" and "length rand = 5"
    and "p = build_announce_packet E k rand unix" and "a = keys_rns_address E k"
    and "a \<notin> dm_sent_announces s"
  shows "packet_from_bytes (packet_to_bytes p) = Inr p \<and> length (pkt_data p) = 148 \<and> announce_verified E p \<and>
    (\<exists>s' p'. dm_handle_announce E env src p s = (s', broadcast_all s (packet_to_bytes p'), ROk) \<and>
       dm_peer_keys s' = (dm_peer_keys s)(a \<mapsto> identity_key_bytes E k) \<and>
       next_hop (dm_router s') a \<noteq> None \<and> packet_from_bytes (packet_to_bytes p') = Inr p' \<and>
       announce_propagate p' s2 = (s2, []))"
proof -
  have l: "length (full_public_key_bytes E k) = 64" "length a = 16"
    "length (encryption_key E k) = 32" "length (identity_key_bytes E k) = 32"
    "length (take 10 (sha256 E m)) = 10" "length (announce_random_hash rand unix) = 10"
    "length (keys_sign E k m) = 64" for m
    using assms(1-5,7) by (simp_all add: keys_defs keys_wf_def sig_facts dh_lengths hash_lengths announce_random_hash_def)
  have len: "length (pkt_data p) = 148" using l by (simp add: assms(6) build_announce_packet_def Let_def)
  have d: "take 64 (pkt_data p) = full_public_key_bytes E k" 
    using l by (simp add: assms(6) build_announce_packet_def Let_def)
  have wf: "packet_wf p" "packet_wf (p\<lparr>pkt_hops := 0\<rparr>)"
    using l(2) by (simp_all add: assms(6,7) build_announce_packet_def Let_def packet_wf_def)
  have sl: "take 10 (drop 64 (pkt_data p)) = take 10 (sha256 E (str_bytes ''daemon''))"
    "take 10 (drop 74 (pkt_data p)) = announce_random_hash rand unix"
    "take 64 (drop 84 (pkt_data p)) = keys_sign E k (a @ full_public_key_bytes E k @
       take 10 (sha256 E (str_bytes ''daemon'')) @ announce_random_hash rand unix)"
    using l by (simp_all add: assms(6,7) build_announce_packet_def Let_def)
  have key: "drop 32 (full_public_key_bytes E k) = identity_key_bytes E k"
    using l by (simp add: full_public_key_bytes_def)
  have v: "announce_verified E p"
    using assms(3,4) by (simp add: announce_verified_def Let_def d sl key assms(7))
      (simp add: keys_defs keys_wf_def sig_facts)
  have h: "pkt_hops p = 1" "pkt_destination_hash p = a"
    by (simp_all add: assms(6,7) build_announce_packet_def Let_def)
  have reg: "announce_register E now src p s =
      s\<lparr>dm_peer_keys := (dm_peer_keys s)(a \<mapsto> identity_key_bytes E k),
        dm_router := update_route now (dm_router s) a a f64_1 1\<rparr>" for now
    by (simp add: announce_register_def Let_def len d key keys_rns_address_def assms(7))
  let ?s = "announce_register E (de_now env) src p s"
  let ?s' = "?s\<lparr>dm_sent_announces := insert a (dm_sent_announces s)\<rparr>"
  have "dm_handle_announce E env src p s = (?s', broadcast_all s (packet_to_bytes (p\<lparr>pkt_hops := 0\<rparr>)), ROk)"
    using assms(8) by (simp add: dm_handle_announce_def announce_propagate_def h)
  moreover have "dm_peer_keys ?s' = (dm_peer_keys s)(a \<mapsto> identity_key_bytes E k)" "next_hop (dm_router ?s') a \<noteq> None"
    using update_route_known by (simp_all add: reg next_hop_def)
  moreover have "announce_propagate (p\<lparr>pkt_hops := 0\<rparr>) s2 = (s2, [])" by (simp add: announce_propagate_def)
  ultimately show ?thesis using wf len v packet_dec_enc by blast
qed

theorem announce_roundtrip_witness:
  "\<exists>s' p'. dm_handle_announce ext_toy (denv_demo 0) (replicate 16 9)
      (build_announce_packet ext_toy (demo_keys 1) (replicate 5 7) 1700000000) (daemon_new ext_toy lru_list (demo_keys 3)) =
      (s', broadcast_all (daemon_new ext_toy lru_list (demo_keys 3)) (packet_to_bytes p'), ROk) \<and>
    dm_peer_keys s' = [keys_rns_address ext_toy (demo_keys 1) \<mapsto> identity_key_bytes ext_toy (demo_keys 1)]"
  using announce_roundtrip [where E = ext_toy and k = "demo_keys 1" and rand = "replicate 5 7" and
      unix = 1700000000 and s = "daemon_new ext_toy lru_list (demo_keys 3)" and env = "denv_demo 0"
      and src = "replicate 16 9", OF _ _ _ _ _ refl refl]
  by (fastforce simp: daemon_new_def)

text \<open>
  What the announces do not protect: the key stored for an address depends on the bytes of an
  announce, never on its signature. A full announce is registered under the address derived from its
  key whether or not it verifies; a shorter one, which has no signature, replaces the key stored for
  the peer it came from, also when that key came with a full announce.
\<close>

theorem announce_unauthenticated:
  "(148 \<le> length (pkt_data p) \<longrightarrow>
      dm_peer_keys (fst (dm_handle_announce E env src p s)) =
        (dm_peer_keys s)(rns_from_full_key E (take 64 (pkt_data p)) \<mapsto> slice 32 64 (pkt_data p))) \<and>
   (64 \<le> length (pkt_data p) \<and> length (pkt_data p) < 148 \<longrightarrow>
      dm_peer_keys (fst (dm_handle_announce E env src p s)) = (dm_peer_keys s)(src \<mapsto> slice 32 64 (pkt_data p))) \<and>
   (32 \<le> length (pkt_data p) \<and> length (pkt_data p) < 64 \<longrightarrow>
      dm_peer_keys (fst (dm_handle_announce E env src p s)) = (dm_peer_keys s)(src \<mapsto> take 32 (pkt_data p))) \<and>
   (length (pkt_data p) < 32 \<longrightarrow> dm_peer_keys (fst (dm_handle_announce E env src p s)) = dm_peer_keys s)"
  by (auto simp: dm_handle_announce_def announce_propagate_def announce_register_def Let_def drop_take)

theorem announce_unauthenticated_witness:
  "dm_peer_keys (fst (dm_handle_announce ext_toy (denv_demo 1) (replicate 16 4) (new_announce (replicate 16 4) (replicate 32 9))
     (dm_register_peer (daemon_new ext_toy lru_list (demo_keys 1)) (replicate 16 4) (replicate 32 5)))) =
   [replicate 16 4 \<mapsto> replicate 32 9]"
  using announce_unauthenticated [where E = ext_toy and env = "denv_demo 1" and src = "replicate 16 4" and
      p = "new_announce (replicate 16 4) (replicate 32 9)" and
      s = "dm_register_peer (daemon_new ext_toy lru_list (demo_keys 1)) (replicate 16 4) (replicate 32 5)"]
  by (simp add: packet_constructors dm_register_peer_def daemon_new_def)

section \<open>Sending and path discovery\<close>

lemma dm_send_to_state: "\<exists>x. fst (dm_send_to B env a f s) = s\<lparr>dm_pending_path_requests := x\<rparr>"
proof -
  have "\<exists>x. s = s\<lparr>dm_pending_path_requests := x\<rparr>" by (rule exI [of _ "dm_pending_path_requests s"]) simp
  then show ?thesis by (auto simp: dm_send_to_def Let_def split: option.splits)
qed

lemma dm_send_to_fields [simp]:
  "dm_keys (fst (dm_send_to B env a f s)) = dm_keys s"
  "dm_router (fst (dm_send_to B env a f s)) = dm_router s"
  "dm_forwarder (fst (dm_send_to B env a f s)) = dm_forwarder s"
  "dm_media (fst (dm_send_to B env a f s)) = dm_media s"
  "dm_channels (fst (dm_send_to B env a f s)) = dm_channels s"
  "dm_pending_channels (fst (dm_send_to B env a f s)) = dm_pending_channels s"
  "dm_pending_links (fst (dm_send_to B env a f s)) = dm_pending_links s"
  "dm_peer_keys (fst (dm_send_to B env a f s)) = dm_peer_keys s"
  "dm_incoming_resources (fst (dm_send_to B env a f s)) = dm_incoming_resources s"
  "dm_sent_announces (fst (dm_send_to B env a f s)) = dm_sent_announces s"
  using dm_send_to_state [of B env a f s] by auto

lemma dm_send_to_result:
  "dm_send_to B env a f s = (s', os, r) \<Longrightarrow> r = ROk \<or> r = RErr DeNoRoute"
  by (auto simp: dm_send_to_def Let_def split: option.splits if_splits)

lemma dm_send_to_pending:
  "dm_pending_path_requests s d \<noteq> None \<Longrightarrow> dm_pending_path_requests (fst (dm_send_to B env a f s)) d \<noteq> None"
  by (auto simp: dm_send_to_def Let_def split: option.splits)

text \<open>A sequence of path replies.\<close>

fun dm_replies :: "ext \<Rightarrow> bincode \<Rightarrow> (denv \<times> rns_address \<times> packet) list \<Rightarrow> 'c daemon \<Rightarrow> 'c daemon" where
  "dm_replies E B [] s = s"
| "dm_replies E B ((env, from, p) # rs) s = dm_replies E B rs (fst (dm_handle_path_reply_msg E B env from p s))"

lemma path_reply_pending:
  assumes "dm_pending_path_requests s d \<noteq> None"
    and "\<And>r. bc_read_reply B (pkt_data p) = Some r \<Longrightarrow> pp_request_id r \<noteq> d"
  shows "dm_pending_path_requests (fst (dm_handle_path_reply_msg E B env src p s)) d \<noteq> None"
proof -
  have "dm_pending_path_requests (s\<lparr>dm_router := x\<rparr>) d \<noteq> None" for x using assms(1) by simp
  then show ?thesis using assms
    by (auto simp: dm_handle_path_reply_msg_def Let_def dm_send_to_pending simp del: not_None_eq split: option.split prod.split)
qed

text \<open>
  A destination is asked for once: a send to a destination that no medium reaches and no route leads
  to broadcasts a path request, on every medium, and fails. The request is remembered under the
  destination and forgotten under the id of the request, so no reply clears it (unless its id happens
  to be the destination): after any number of replies, as long as no route has come of them, sending
  again broadcasts nothing. A request that was lost is never repeated.
\<close>

theorem discovery_asks_once:
  assumes "try_media env dest data [0..<dm_media s] = None" and "next_hop (dm_router s) dest = None"
    and "dm_pending_path_requests s dest = None"
    and "\<forall>(_, _, p) \<in> set rs. \<forall>r. bc_read_reply B (pkt_data p) = Some r \<longrightarrow> pp_request_id r \<noteq> dest"
    and "s2 = dm_replies E B rs (fst (dm_send_to B env dest data s))"
    and "try_media env2 dest data2 [0..<dm_media s2] = None" and "next_hop (dm_router s2) dest = None"
  shows "dm_send_to B env dest data s = (s\<lparr>dm_pending_path_requests := (dm_pending_path_requests s)(dest \<mapsto> de_request_id env)\<rparr>,
      map (\<lambda>m. OutBroadcast m (packet_to_bytes (path_packet TRANSPORT_BROADCAST dest PATH_REQUEST
        (bc_request B (path_request_new (de_request_id env) dest MAX_HOPS))))) [0..<dm_media s], RErr DeNoRoute) \<and>
    dm_send_to B env2 dest data2 s2 = (s2, [], RErr DeNoRoute)"
proof -
  have first: "dm_send_to B env dest data s = (s\<lparr>dm_pending_path_requests := (dm_pending_path_requests s)(dest \<mapsto> de_request_id env)\<rparr>,
      map (\<lambda>m. OutBroadcast m (packet_to_bytes (path_packet TRANSPORT_BROADCAST dest PATH_REQUEST
        (bc_request B (path_request_new (de_request_id env) dest MAX_HOPS))))) [0..<dm_media s], RErr DeNoRoute)"
    using assms(1-3) by (simp add: dm_send_to_def path_request_new_def)
  have "dm_pending_path_requests (dm_replies E B rs t) dest \<noteq> None"
    if "dm_pending_path_requests t dest \<noteq> None" for t :: "'a daemon"
    using assms(4) that
    by (induction E B rs t rule: dm_replies.induct) (simp_all add: path_reply_pending del: not_None_eq)
  then have "dm_pending_path_requests s2 dest \<noteq> None" using assms(5) first by simp
  then have "dm_send_to B env2 dest data2 s2 = (s2, [], RErr DeNoRoute)"
    using assms(6,7) by (auto simp: dm_send_to_def Let_def)
  with first show ?thesis ..
qed

definition denv_deaf :: denv where
  "denv_deaf = (denv_demo 0)\<lparr>de_send_ok := (\<lambda>_ _ _. False)\<rparr>"

lemma denv_deaf_try [simp]: "try_media denv_deaf a f ms = None"
  by (induction ms) (simp_all add: denv_deaf_def)

theorem discovery_asks_once_witness:
  "let s = dm_add_medium (daemon_new ext_toy lru_list (demo_keys 1)); dest = replicate 16 9;
       reply = path_packet TRANSPORT_UNICAST (replicate 16 2) PATH_RESPONSE
         (bc_reply bincode_toy (path_reply_new (replicate 16 1) dest [] f64_1 1));
       s2 = dm_replies ext_toy bincode_toy [(denv_deaf, replicate 16 3, reply)] (fst (dm_send_to bincode_toy denv_deaf dest [5] s))
   in length (fst (Product_Type.snd (dm_send_to bincode_toy denv_deaf dest [5] s))) = 1 \<and>
      dm_send_to bincode_toy denv_deaf dest [6] s2 = (s2, [], RErr DeNoRoute)"
proof -
  let ?s = "dm_add_medium (daemon_new ext_toy lru_list (demo_keys 1))" and ?dest = "replicate 16 9 :: bytes"
  let ?reply = "path_packet TRANSPORT_UNICAST (replicate 16 2) PATH_RESPONSE
         (bc_reply bincode_toy (path_reply_new (replicate 16 1) ?dest [] f64_1 1))"
  let ?s2 = "dm_replies ext_toy bincode_toy [(denv_deaf, replicate 16 3, ?reply)] (fst (dm_send_to bincode_toy denv_deaf ?dest [5] ?s))"
  have r: "bc_read_reply bincode_toy (pkt_data ?reply) = Some (path_reply_new (replicate 16 1) ?dest [] f64_1 1)"
    using bincode_toy_ok by (simp add: bincode_ok_def path_packet_def)
  have h: "handle_path_reply now (path_reply_new (replicate 16 1) ?dest [] f64_1 1) rt a = (rt, None)" for now rt a
    by (simp add: handle_path_reply_def path_reply_new_def pp_destination_def rns_from_bytes_def)
  have n: "next_hop (dm_router ?s) ?dest = None" "dm_pending_path_requests ?s ?dest = None"
    by (simp_all add: dm_add_medium_def daemon_new_def router_new_def next_hop_def)
  have n2: "next_hop (dm_router ?s2) ?dest = None"
    using n(1) by (simp add: dm_handle_path_reply_msg_def r h)
  have req: "pp_request_id (path_reply_new (replicate 16 1) ?dest [] f64_1 1) \<noteq> ?dest" by (simp add: path_reply_new_def)
  have "\<forall>(_, _, p) \<in> set [(denv_deaf, replicate 16 3 :: bytes, ?reply)]. \<forall>r. bc_read_reply bincode_toy (pkt_data p) = Some r \<longrightarrow> pp_request_id r \<noteq> ?dest"
    using r req by simp
  note once = discovery_asks_once [OF denv_deaf_try n this refl denv_deaf_try n2, where ?data2.0 = "[6]"]
  have "dm_media ?s = 1" by (simp add: dm_add_medium_def daemon_new_def)
  with conjunct1 [OF once] have "length (fst (Product_Type.snd (dm_send_to bincode_toy denv_deaf ?dest [5] ?s))) = 1" by simp
  then show ?thesis unfolding Let_def using conjunct2 [OF once] by blast
qed

end
