(* ===== verification/Daemon_Link.thy ===== *)
theory Daemon_Link
  imports Daemon
begin

text \<open>
  The daemon, second part (\<open>crates/daemon/src/lib.rs\<close>): establishing links by \<open>LINKREQUEST\<close> and
  \<open>LRPROOF\<close> (and by the older \<open>LINKPROOF\<close>), the packets of an established link, and sending over
  links. A search through a hash map takes the first match in the iteration order \<open>de_order\<close>.
\<close>

section \<open>Link identifiers\<close>

definition compute_link_id_from_request :: "ext \<Rightarrow> packet \<Rightarrow> bytes" where
  "compute_link_id_from_request E p =
     (let raw = packet_to_bytes p;
          hashable = (raw ! 0 AND 0x0F) # drop 2 raw;
          diff = length (pkt_data p) - 64;
          truncated_len = length hashable - diff
      in take 16 (sha256 E (take truncated_len hashable)))"

section \<open>The initiator asks\<close>

definition connect_signalling :: bytes where
  "connect_signalling =
     (let mtu = (ucast MAX_HOPS :: u32) * 8; mode = (0x01 :: u8);
          signalling_value = (mtu AND 0x1FFFFF) OR push_bit 16 (ucast (push_bit 5 mode AND 0xE0))
      in slice 1 4 (u32_be signalling_value))"

definition link_request_packet :: "bytes \<Rightarrow> bytes \<Rightarrow> packet" where
  "link_request_packet dest_addr request_data =
     \<lparr>pkt_header_type = HEADER_1, pkt_context_flag = FLAG_UNSET,
      pkt_transport_type = TRANSPORT_UNICAST, pkt_destination_type = DEST_SINGLE,
      pkt_packet_type = LINKREQUEST, pkt_hops = MAX_HOPS, pkt_destination_hash = dest_addr,
      pkt_transport_id = None, pkt_context = NONE, pkt_data = request_data\<rparr>"

definition daemon_destination :: "ext \<Rightarrow> keys \<Rightarrow> destination" where
  "daemon_destination E k = destination_singleton E k ''daemon'' []"

definition dm_connect ::
  "ext \<Rightarrow> bincode \<Rightarrow> denv \<Rightarrow> rns_address \<Rightarrow> bytes option \<Rightarrow> 'c daemon \<Rightarrow> 'c dstep" where
  "dm_connect E B env remote dest_hash s =
     (if dm_channels s remote \<noteq> None \<or> dm_pending_channels s remote \<noteq> None then (s, [], ROk)
      else
        let eph_pub = x25519_pub E (de_ephemeral env);
            sig_pub = ed_pub E (de_signing_seed env);
            request_data = eph_pub @ sig_pub @ connect_signalling;
            dest_addr = (case dest_hash of Some h \<Rightarrow> h | None \<Rightarrow> remote);
            packet = link_request_packet dest_addr request_data;
            link_id = compute_link_id_from_request E packet;
            link = link_set_state Handshaking (link_set_initiator True (link_set_link_id link_id
              (link_new (de_now env) (daemon_destination E (dm_keys s)) remote)));
            s = s\<lparr>dm_pending_channels := (dm_pending_channels s)(remote \<mapsto> channel_new link),
                  dm_pending_links := (dm_pending_links s)(remote \<mapsto>
                    \<lparr>pl_link_id = link_id, pl_ephemeral_priv = de_ephemeral env,
                     pl_initiator_sig_pub = sig_pub\<rparr>)\<rparr>
        in dm_send_to B env remote (packet_to_bytes packet) s)"

section \<open>The responder answers\<close>

definition lrproof_signed :: "bytes \<Rightarrow> bytes \<Rightarrow> bytes \<Rightarrow> bytes \<Rightarrow> bytes" where
  "lrproof_signed link_id eph_pub identity_key signalling = link_id @ eph_pub @ identity_key @ signalling"

definition lrproof_packet :: "bytes \<Rightarrow> bytes \<Rightarrow> packet" where
  "lrproof_packet link_id proof_data =
     \<lparr>pkt_header_type = HEADER_1, pkt_context_flag = FLAG_UNSET,
      pkt_transport_type = TRANSPORT_UNICAST, pkt_destination_type = DEST_SINGLE,
      pkt_packet_type = PROOF, pkt_hops = 0, pkt_destination_hash = link_id,
      pkt_transport_id = None, pkt_context = LRPROOF, pkt_data = proof_data\<rparr>"

definition dm_handle_linkrequest ::
  "ext \<Rightarrow> bincode \<Rightarrow> denv \<Rightarrow> rns_address \<Rightarrow> packet \<Rightarrow> 'c daemon \<Rightarrow> 'c dstep" where
  "dm_handle_linkrequest E B env from p s =
     (if length (pkt_data p) < 64 then (s, [], ROk)
      else case dm_peer_keys s from of
          None \<Rightarrow> (s, [], ROk)
        | Some remote_signing_key \<Rightarrow>
            let initiator_eph_pub = take 32 (pkt_data p);
                signalling = (if length (pkt_data p) \<ge> 67 then slice 64 67 (pkt_data p) else replicate 3 0);
                link_id = compute_link_id_from_request E p;
                our_eph_pub = x25519_pub E (de_ephemeral env);
                shared_key = x25519_dh E (de_ephemeral env) initiator_eph_pub;
                signed_data = lrproof_signed link_id our_eph_pub (identity_key_bytes E (dm_keys s)) signalling;
                proof_data = keys_sign E (dm_keys s) signed_data @ our_eph_pub @ signalling;
                link = link_new (de_now env) (daemon_destination E (dm_keys s)) from;
                link = link_set_state Established (link_set_shared_key shared_key
                  (link_set_remote_signing_key remote_signing_key
                    (link_set_initiator False (link_set_link_id link_id link))));
                link = link_set_ratchet_pending_send True (link_set_ratchet_priv (de_ratchet env) link);
                cost_ms = de_ms env (de_later env - lnk_established_at link);
                link = link_set_establishment_cost (Some cost_ms) link;
                s = s\<lparr>dm_channels := (dm_channels s)(from \<mapsto> channel_new link)\<rparr>
            in dm_send_to B env from (packet_to_bytes (lrproof_packet link_id proof_data)) s)"

section \<open>Proofs\<close>

text \<open>The sender of a proof packet: the address the medium gave, unless it is our own.\<close>

definition channel_with_tid :: "(rns_address \<rightharpoonup> channel) \<Rightarrow> bytes \<Rightarrow> rns_address \<Rightarrow> bool" where
  "channel_with_tid cs tid a = (case cs a of None \<Rightarrow> False | Some c \<Rightarrow> lnk_transport_id (ch_link c) = tid)"

definition proof_sender :: "ext \<Rightarrow> denv \<Rightarrow> rns_address \<Rightarrow> packet \<Rightarrow> 'c daemon \<Rightarrow> rns_address option" where
  "proof_sender E env from p s =
     (if from \<noteq> keys_rns_address E (dm_keys s) \<or> pkt_context p = LINKPROOF then Some from
      else case pkt_transport_id p of
          None \<Rightarrow> None
        | Some tid \<Rightarrow>
            (case find (channel_with_tid (dm_pending_channels s) tid) (de_order env) of
               Some a \<Rightarrow> Some a
             | None \<Rightarrow> find (channel_with_tid (dm_channels s) tid) (de_order env)))"

text \<open>The older handshake: a proof of the initiator's transport id, answered in kind.\<close>

definition dm_linkproof ::
  "ext \<Rightarrow> bincode \<Rightarrow> denv \<Rightarrow> rns_address \<Rightarrow> packet \<Rightarrow> 'c daemon \<Rightarrow> 'c dstep" where
  "dm_linkproof E B env actual_from p s =
     (case dm_peer_keys s actual_from of
        None \<Rightarrow> (s, [], ROk)
      | Some remote_key \<Rightarrow>
          (case pkt_transport_id p of
             None \<Rightarrow> (s, [], RErr (DeOther ''LINKPROOF missing transport_id''))
           | Some initiator_tid \<Rightarrow>
               (case proof_from_bytes (pkt_data p) of
                  Inl e \<Rightarrow> (s, [], RErr (DeOther (''invalid proof: '' @ proof_error_text e)))
                | Inr prf \<Rightarrow>
                    (case verify_proof_with_public_key E remote_key initiator_tid prf of
                       Inl _ \<Rightarrow> (s, [], RErr (DeOther ''proof verification failed''))
                     | Inr _ \<Rightarrow>
                         let link = link_new (de_now env) (daemon_destination E (dm_keys s)) actual_from;
                             response = proof_to_bytes (generate_proof E (dm_keys s) (lnk_transport_id link));
                             s = s\<lparr>dm_channels := (dm_channels s)(actual_from \<mapsto>
                               channel_new (link_set_state Established link))\<rparr>
                         in dm_send_to B env actual_from
                              (packet_to_bytes (link_packet link FLAG_SET PROOF LRPROOF response)) s))))"

text \<open>Taking the pending entry of a handshake out of a map: by address, else by link id.\<close>

definition take_pending ::
  "('v \<Rightarrow> bytes) \<Rightarrow> denv \<Rightarrow> rns_address \<Rightarrow> bytes \<Rightarrow> (rns_address \<rightharpoonup> 'v) \<Rightarrow> (rns_address \<times> 'v) option" where
  "take_pending link_id_of env a link_id m =
     (case m a of
        Some v \<Rightarrow> Some (a, v)
      | None \<Rightarrow>
          (case find (\<lambda>k. case m k of None \<Rightarrow> False | Some v \<Rightarrow> link_id_of v = link_id) (de_order env) of
             None \<Rightarrow> None
           | Some k \<Rightarrow> map_option (Pair k) (m k)))"

text \<open>The end of the handshake at the initiator, once the signature of the responder is verified.\<close>

definition lrproof_established ::
  "ext \<Rightarrow> bincode \<Rightarrow> denv \<Rightarrow> rns_address \<Rightarrow> rns_address \<Rightarrow> channel \<Rightarrow> bytes \<Rightarrow> bytes \<Rightarrow> 'c daemon \<Rightarrow> 'c dstep" where
  "lrproof_established E B env actual_from remote_identity ch remote_key shared_key s =
     (let link = link_set_state Established (link_set_remote_signing_key remote_key
            (link_set_shared_key shared_key (ch_link ch)));
          link = link_set_ratchet_pending_send True (link_set_ratchet_priv (de_ratchet env) link);
          rtt_ms = de_ms env (de_now env - lnk_established_at link);
          link = link_set_establishment_cost (Some rtt_ms) (link_set_rtt (Some rtt_ms) link);
          ch = ch\<lparr>ch_link := link\<rparr>;
          rtt_probe = (link_packet link FLAG_SET DATA LRRTT (le_bytes 8 (unat rtt_ms)))
            \<lparr>pkt_destination_hash := actual_from\<rparr>
      in dseq (dm_send_to B env remote_identity (packet_to_bytes rtt_probe) s)
           (\<lambda>s. (s\<lparr>dm_channels := (dm_channels s)(remote_identity \<mapsto> ch)\<rparr>, [], ROk)))"

definition lrproof_verified :: "ext \<Rightarrow> bytes \<Rightarrow> bytes \<Rightarrow> bytes \<Rightarrow> bool" where
  "lrproof_verified E link_id remote_key data \<longleftrightarrow>
     (let sig_bytes = take 64 data; eph_pub = slice 64 96 data;
          signalling = (if length data \<ge> 99 then slice 96 99 data else replicate 3 0)
      in ed_key_valid E remote_key \<and>
         ed_verify E remote_key (lrproof_signed link_id eph_pub remote_key signalling) sig_bytes)"

definition dm_lrproof ::
  "ext \<Rightarrow> bincode \<Rightarrow> denv \<Rightarrow> rns_address \<Rightarrow> packet \<Rightarrow> 'c daemon \<Rightarrow> 'c dstep" where
  "dm_lrproof E B env actual_from p s =
     (case take_pending (\<lambda>c. lnk_link_id (ch_link c)) env actual_from (pkt_destination_hash p)
             (dm_pending_channels s) of
        None \<Rightarrow> (s, [], ROk)
      | Some (remote_identity, ch) \<Rightarrow>
          let s = s\<lparr>dm_pending_channels := (dm_pending_channels s)(remote_identity := None)\<rparr> in
          (case take_pending pl_link_id env actual_from (pkt_destination_hash p) (dm_pending_links s) of
             None \<Rightarrow> (s\<lparr>dm_pending_channels := (dm_pending_channels s)(actual_from \<mapsto> ch)\<rparr>, [], ROk)
           | Some (k, pending) \<Rightarrow>
               let s = s\<lparr>dm_pending_links := (dm_pending_links s)(k := None)\<rparr> in
               (case dm_peer_keys s remote_identity of
                  None \<Rightarrow> (s\<lparr>dm_pending_channels := (dm_pending_channels s)(remote_identity \<mapsto> ch)\<rparr>, [], ROk)
                | Some remote_key \<Rightarrow>
                    if length (pkt_data p) < 96 then (s, [], ROk)
                    else if \<not> lrproof_verified E (pl_link_id pending) remote_key (pkt_data p)
                    then (s, [], ROk)
                    else lrproof_established E B env actual_from remote_identity ch remote_key
                      (x25519_dh E (pl_ephemeral_priv pending) (slice 64 96 (pkt_data p))) s)))"

definition dm_handle_proof ::
  "ext \<Rightarrow> bincode \<Rightarrow> denv \<Rightarrow> rns_address \<Rightarrow> packet \<Rightarrow> 'c daemon \<Rightarrow> 'c dstep" where
  "dm_handle_proof E B env from p s =
     (case proof_sender E env from p s of
        None \<Rightarrow> (s, [], ROk)
      | Some actual_from \<Rightarrow>
          if pkt_context p = LINKPROOF then dm_linkproof E B env actual_from p s
          else if pkt_context p = LRPROOF then dm_lrproof E B env actual_from p s
          else (s, [], ROk))"

section \<open>Both ends compute one link id\<close>

lemma packet_bytes_hops:
  "packet_to_bytes (p\<lparr>pkt_hops := h\<rparr>) ! 0 = packet_to_bytes p ! 0"
  "drop 2 (packet_to_bytes (p\<lparr>pkt_hops := h\<rparr>)) = drop 2 (packet_to_bytes p)"
  "length (packet_to_bytes (p\<lparr>pkt_hops := h\<rparr>)) = length (packet_to_bytes p)"
  by (simp_all add: packet_to_bytes_def)

lemma packet_bytes_ge: "2 \<le> length (packet_to_bytes p)"
  by (simp add: packet_to_bytes_def)

lemma take_hashable: "2 \<le> length r \<Longrightarrow> take (length r - Suc 0) (a # drop 2 r @ x) = a # drop 2 r"
  by (cases r; cases "tl r") auto

text \<open>
  The link id is a function of the request and not of its journey: it depends neither on the hop
  count, which every relay lowers, nor on the signalling bytes after the two keys.
\<close>

theorem link_id_stable:
  assumes "length d = 64"
  shows "compute_link_id_from_request E (p\<lparr>pkt_hops := h, pkt_data := d @ x\<rparr>) =
    compute_link_id_from_request E (p\<lparr>pkt_data := d\<rparr>)"
proof -
  let ?q = "p\<lparr>pkt_data := d\<rparr>"
  have "packet_to_bytes (p\<lparr>pkt_hops := h, pkt_data := d @ x\<rparr>) = packet_to_bytes (?q\<lparr>pkt_hops := h\<rparr>) @ x"
    by (simp add: packet_to_bytes_def)
  moreover have "packet_to_bytes (?q\<lparr>pkt_hops := h\<rparr>) ! 0 = packet_to_bytes ?q ! 0"
    "drop 2 (packet_to_bytes (?q\<lparr>pkt_hops := h\<rparr>)) = drop 2 (packet_to_bytes ?q)"
    "length (packet_to_bytes (?q\<lparr>pkt_hops := h\<rparr>)) = length (packet_to_bytes ?q)"
    by (rule packet_bytes_hops)+
  ultimately show ?thesis using packet_bytes_ge [of ?q] packet_bytes_ge [of "?q\<lparr>pkt_hops := h\<rparr>"] assms
    by (auto simp: compute_link_id_from_request_def Let_def nth_append take_hashable)
qed

theorem link_id_stable_witness:
  "compute_link_id_from_request ext_toy ((link_request_packet (replicate 16 1) [])\<lparr>pkt_hops := 3, pkt_data := replicate 64 7 @ [32, 2, 0]\<rparr>) =
   compute_link_id_from_request ext_toy ((link_request_packet (replicate 16 1) [])\<lparr>pkt_data := replicate 64 7\<rparr>)"
  by (rule link_id_stable) simp

lemma link_id_length: "hash_ok E \<Longrightarrow> length (compute_link_id_from_request E p) = 16"
  by (simp add: compute_link_id_from_request_def Let_def hash_lengths)

section \<open>The handshake\<close>

text \<open>The first medium takes frames for an address.\<close>

definition reaches :: "denv \<Rightarrow> 'c daemon \<Rightarrow> rns_address \<Rightarrow> bool" where
  "reaches env s a \<longleftrightarrow> 0 < dm_media s \<and> (\<forall>f. de_send_ok env 0 a f)"

lemma send_to_reached: "reaches env s a \<Longrightarrow> dm_send_to B env a f s = (s, [OutSend 0 a f], ROk)"
  by (simp add: dm_send_to_def reaches_def upt_conv_Cons)

lemma reaches_upd [simp]:
  "reaches env (s\<lparr>dm_channels := x\<rparr>) a = reaches env s a"
  "reaches env (s\<lparr>dm_pending_channels := y\<rparr>) a = reaches env s a"
  "reaches env (s\<lparr>dm_pending_links := z\<rparr>) a = reaches env s a"
  by (simp_all add: reaches_def)

lemma connect_signalling_length [simp]: "length connect_signalling = 3"
  by (simp add: connect_signalling_def)

definition request_of :: "ext \<Rightarrow> denv \<Rightarrow> bytes \<Rightarrow> packet" where
  "request_of E env dest_addr = link_request_packet dest_addr
     (x25519_pub E (de_ephemeral env) @ ed_pub E (de_signing_seed env) @ connect_signalling)"

definition asking_link :: "ext \<Rightarrow> denv \<Rightarrow> keys \<Rightarrow> rns_address \<Rightarrow> bytes \<Rightarrow> link" where
  "asking_link E env k remote link_id = link_set_state Handshaking (link_set_initiator True
     (link_set_link_id link_id (link_new (de_now env) (daemon_destination E k) remote)))"

lemma dm_connect_fresh:
  fixes E env s remote dest_hash
  defines "req \<equiv> request_of E env (case dest_hash of Some h \<Rightarrow> h | None \<Rightarrow> remote)"
  assumes "dm_channels s remote = None" and "dm_pending_channels s remote = None"
  shows "dm_connect E B env remote dest_hash s =
    dm_send_to B env remote (packet_to_bytes req)
      (s\<lparr>dm_pending_channels := (dm_pending_channels s)(remote \<mapsto> channel_new
            (asking_link E env (dm_keys s) remote (compute_link_id_from_request E req))),
         dm_pending_links := (dm_pending_links s)(remote \<mapsto>
            \<lparr>pl_link_id = compute_link_id_from_request E req, pl_ephemeral_priv = de_ephemeral env,
             pl_initiator_sig_pub = ed_pub E (de_signing_seed env)\<rparr>)\<rparr>)"
  using assms(2,3) by (simp add: dm_connect_def request_of_def asking_link_def Let_def req_def)

text \<open>
  The answer to a request, with the keys it was made with.
\<close>

definition answer_of :: "ext \<Rightarrow> denv \<Rightarrow> keys \<Rightarrow> packet \<Rightarrow> packet" where
  "answer_of E env k req =
     (let link_id = compute_link_id_from_request E req; eph = x25519_pub E (de_ephemeral env);
          sig = slice 64 67 (pkt_data req)
      in lrproof_packet link_id (keys_sign E k (lrproof_signed link_id eph (identity_key_bytes E k) sig) @ eph @ sig))"

lemma answer_verified:
  assumes "hash_ok E" and "dh_ok E" and "sig_ok E" and "keys_wf k"
    and "length (de_ephemeral env) = 32" and "67 \<le> length (pkt_data req)"
  shows "length (pkt_data (answer_of E env k req)) = 99 \<and>
    take 32 (drop 64 (pkt_data (answer_of E env k req))) = x25519_pub E (de_ephemeral env) \<and>
    lrproof_verified E (compute_link_id_from_request E req) (identity_key_bytes E k) (pkt_data (answer_of E env k req))"
proof -
  have l: "length (keys_sign E k m) = 64" "length (x25519_pub E (de_ephemeral env)) = 32" for m
    using assms by (simp_all add: keys_defs keys_wf_def sig_facts dh_lengths)
  show ?thesis using l assms(3,4,6)
    by (simp add: answer_of_def lrproof_packet_def lrproof_verified_def Let_def)
      (simp add: keys_defs keys_wf_def sig_facts)
qed

lemma answer_wf: "hash_ok E \<Longrightarrow> packet_wf (answer_of E env k req)"
  by (simp add: answer_of_def lrproof_packet_def packet_wf_def Let_def link_id_length)

lemma request_wf: "length dest_addr = 16 \<Longrightarrow> packet_wf (request_of E env dest_addr)"
  by (simp add: request_of_def link_request_packet_def packet_wf_def)

text \<open>The link the responder makes.\<close>

definition answering_link :: "ext \<Rightarrow> denv \<Rightarrow> keys \<Rightarrow> rns_address \<Rightarrow> bytes \<Rightarrow> packet \<Rightarrow> link" where
  "answering_link E env k src key req =
     link_set_establishment_cost (Some (de_ms env (de_later env - de_now env)))
      (link_set_ratchet_pending_send True (link_set_ratchet_priv (de_ratchet env)
        (link_set_state Established (link_set_shared_key
           (x25519_dh E (de_ephemeral env) (take 32 (pkt_data req)))
          (link_set_remote_signing_key key (link_set_initiator False
            (link_set_link_id (compute_link_id_from_request E req)
              (link_new (de_now env) (daemon_destination E k) src))))))))"

lemma dm_handle_linkrequest_known:
  assumes "67 \<le> length (pkt_data req)" and "dm_peer_keys s src = Some key"
  shows "dm_handle_linkrequest E B env src req s =
    dm_send_to B env src (packet_to_bytes (answer_of E env (dm_keys s) req))
      (s\<lparr>dm_channels := (dm_channels s)(src \<mapsto> channel_new (answering_link E env (dm_keys s) src key req))\<rparr>)"
  using assms
  by (simp add: dm_handle_linkrequest_def answer_of_def answering_link_def Let_def link_setters
      link_new_def link_with_config_def)

text \<open>The link the initiator has in the end.\<close>

definition asked_link :: "ext \<Rightarrow> denv \<Rightarrow> link \<Rightarrow> bytes \<Rightarrow> bytes \<Rightarrow> link" where
  "asked_link E env l key shared_key =
     (let rtt = Some (de_ms env (de_now env - lnk_established_at l)) in
      link_set_establishment_cost rtt (link_set_rtt rtt (link_set_ratchet_pending_send True
       (link_set_ratchet_priv (de_ratchet env) (link_set_state Established
         (link_set_remote_signing_key key (link_set_shared_key shared_key l)))))))"

lemma dm_handle_proof_answered:
  assumes "a \<noteq> keys_rns_address E (dm_keys s)" and "pkt_context p = LRPROOF"
    and "dm_pending_channels s a = Some ch" and "dm_pending_links s a = Some pl"
    and "dm_peer_keys s a = Some key" and "96 \<le> length (pkt_data p)"
    and "lrproof_verified E (pl_link_id pl) key (pkt_data p)" and "reaches env s a"
  shows "\<exists>os. dm_handle_proof E B env a p s =
    (s\<lparr>dm_pending_channels := (dm_pending_channels s)(a := None),
       dm_pending_links := (dm_pending_links s)(a := None),
       dm_channels := (dm_channels s)(a \<mapsto> ch\<lparr>ch_link := asked_link E env (ch_link ch) key
         (x25519_dh E (pl_ephemeral_priv pl) (slice 64 96 (pkt_data p)))\<rparr>)\<rparr>, os, ROk)"
  using assms
  by (simp add: dm_handle_proof_def proof_sender_def dm_lrproof_def take_pending_def
      lrproof_established_def asked_link_def Let_def dseq_def send_to_reached link_setters)

text \<open>
  The facts of the handshake between two daemons: the request and the answer are accepted, and both
  ends hold an established link with one link id and one shared key.
\<close>

lemma handshake_facts:
  assumes ok: "hash_ok E" "dh_ok E" "sig_ok E" and kb: "keys_wf kb"
    and eph: "length (de_ephemeral e1) = 32" "length (de_ephemeral e2) = 32" "length (de_signing_seed e1) = 32"
  shows "lnk_shared_key (asked_link E e3 (asking_link E e1 ka b i) key
       (x25519_dh E (de_ephemeral e1) (x25519_pub E (de_ephemeral e2)))) =
    lnk_shared_key (answering_link E e2 kb a key' (request_of E e1 d))"
  and "lnk_link_id (asked_link E e3 (asking_link E e1 ka b i) key k) = i"
  and "lnk_link_id (answering_link E e2 kb a key' req) = compute_link_id_from_request E req"
  and "lnk_state (asked_link E e3 l key k) = Established"
  and "lnk_state (answering_link E e2 kb a key' req) = Established"
  and "lnk_transport_id (asked_link E e3 (asking_link E e1 ka b i) key k) =
    derive_transport_id (compute_hash E ka ''daemon'' []) b"
  and "lnk_transport_id (answering_link E e2 kb a key' req) = derive_transport_id (compute_hash E kb ''daemon'' []) a"
  and "67 \<le> length (pkt_data (request_of E e1 d))"
  and "\<exists>k. lnk_shared_key (answering_link E e2 kb a key' req) = Some k"
  using dh_agree [OF ok(2) eph(1,2)] dh_lengths [OF ok(2)] eph ok sig_facts
  by (simp_all add: asked_link_def asking_link_def answering_link_def link_setters link_new_def
      link_with_config_def Let_def request_of_def link_request_packet_def daemon_destination_def
      destination_singleton_def)

section \<open>What a proof can and cannot do\<close>

lemma dseq_send_to:
  "fst (dseq (dm_send_to B env a f s) g) = fst (g (fst (dm_send_to B env a f s)))"
proof -
  obtain s' os r where h: "dm_send_to B env a f s = (s', os, r)" by (metis prod_cases3)
  with dm_send_to_result [OF h] show ?thesis by (auto simp: dseq_def split: prod.splits)
qed

lemma lrproof_established_state:
  "\<exists>x. fst (lrproof_established E B env src a ch key k s) =
     s\<lparr>dm_pending_path_requests := x,
       dm_channels := (dm_channels s)(a \<mapsto> ch\<lparr>ch_link := asked_link E env (ch_link ch) key k\<rparr>)\<rparr>"
proof -
  let ?c = "ch\<lparr>ch_link := asked_link E env (ch_link ch) key k\<rparr>"
  have "\<exists>f. fst (lrproof_established E B env src a ch key k s) =
      (fst (dm_send_to B env a f s))\<lparr>dm_channels := (dm_channels s)(a \<mapsto> ?c)\<rparr>"
    unfolding lrproof_established_def Let_def dseq_send_to asked_link_def
    by (rule exI) (simp add: link_setters)
  then obtain f where f: "fst (lrproof_established E B env src a ch key k s) =
      (fst (dm_send_to B env a f s))\<lparr>dm_channels := (dm_channels s)(a \<mapsto> ?c)\<rparr>" ..
  obtain x where "fst (dm_send_to B env a f s) = s\<lparr>dm_pending_path_requests := x\<rparr>"
    using dm_send_to_state [of B env a f s] ..
  with f show ?thesis by auto
qed

lemma lrproof_established_channels:
  "dm_channels (fst (lrproof_established E B env src a ch key k s)) =
     (dm_channels s)(a \<mapsto> ch\<lparr>ch_link := asked_link E env (ch_link ch) key k\<rparr>)"
  using lrproof_established_state [of E B env src a ch key k s] by auto

lemma take_pending_Some: "take_pending f env x i m = Some (k, v) \<Longrightarrow> m k = Some v"
  by (auto simp: take_pending_def split: option.splits)

lemma dm_lrproof_cases [case_names none moved unknown refused established]:
  obtains "dm_lrproof E B env b p s = (s, [], ROk)"
  | a ch where "dm_pending_channels s a = Some ch" and "dm_lrproof E B env b p s =
      (s\<lparr>dm_pending_channels := (dm_pending_channels s)(a := None, b \<mapsto> ch)\<rparr>, [], ROk)"
  | k where "dm_lrproof E B env b p s = (s\<lparr>dm_pending_links := (dm_pending_links s)(k := None)\<rparr>, [], ROk)"
  | a k where "dm_lrproof E B env b p s =
      (s\<lparr>dm_pending_channels := (dm_pending_channels s)(a := None),
         dm_pending_links := (dm_pending_links s)(k := None)\<rparr>, [], ROk)"
  | a ch k pl key where "dm_pending_channels s a = Some ch" and "dm_pending_links s k = Some pl"
    and "dm_peer_keys s a = Some key" and "96 \<le> length (pkt_data p)"
    and "lrproof_verified E (pl_link_id pl) key (pkt_data p)"
    and "dm_lrproof E B env b p s = lrproof_established E B env b a ch key
      (x25519_dh E (pl_ephemeral_priv pl) (slice 64 96 (pkt_data p)))
      (s\<lparr>dm_pending_channels := (dm_pending_channels s)(a := None),
         dm_pending_links := (dm_pending_links s)(k := None)\<rparr>)"
proof (cases "take_pending (\<lambda>c. lnk_link_id (ch_link c)) env b (pkt_destination_hash p) (dm_pending_channels s)")
  case None
  then show ?thesis using that(1) by (simp add: dm_lrproof_def)
next
  case t: (Some x)
  obtain a ch where x: "x = (a, ch)" by (cases x)
  note ch = take_pending_Some [OF t [unfolded x]]
  show ?thesis
  proof (cases "take_pending pl_link_id env b (pkt_destination_hash p) (dm_pending_links s)")
    case None
    with t ch show ?thesis using that(2) [of a ch] by (simp add: dm_lrproof_def x Let_def)
  next
    case u: (Some y)
    obtain k pl where y: "y = (k, pl)" by (cases y)
    note pl = take_pending_Some [OF u [unfolded y]]
    show ?thesis
    proof (cases "dm_peer_keys s a")
      case None
      with t u ch show ?thesis using that(3) [of k] by (simp add: dm_lrproof_def x y Let_def fun_upd_idem)
    next
      case (Some key)
      with t u ch pl show ?thesis using that(4) [of k a] that(5) [of a ch k pl key]
        by (cases "length (pkt_data p) < 96 \<or> \<not> lrproof_verified E (pl_link_id pl) key (pkt_data p)")
          (auto simp: dm_lrproof_def x y Let_def)
    qed
  qed
qed

text \<open>C9. 
  A proof establishes a link only for a handshake the daemon began itself: when an \<open>LRPROOF\<close> packet
  changes what the daemon holds for an address, there was a pending link to that address, the
  signature verifies under the key stored for the address over a link id the daemon drew and the
  responder's key, and the shared key of the new link is the Diffie-Hellman secret of the two
  ephemeral keys. Nothing else changes.
\<close>

theorem lrproof_authentic:
  assumes "pkt_context p = LRPROOF"
    and "dm_channels (fst (dm_handle_proof E B env src p s)) a \<noteq> dm_channels s a"
  shows "\<exists>ch k pl key. dm_pending_channels s a = Some ch \<and> dm_pending_links s k = Some pl \<and>
    dm_peer_keys s a = Some key \<and> 96 \<le> length (pkt_data p) \<and>
    lrproof_verified E (pl_link_id pl) key (pkt_data p) \<and>
    dm_channels (fst (dm_handle_proof E B env src p s)) =
      (dm_channels s)(a \<mapsto> ch\<lparr>ch_link := asked_link E env (ch_link ch) key
        (x25519_dh E (pl_ephemeral_priv pl) (slice 64 96 (pkt_data p)))\<rparr>)"
proof -
  from assms obtain b where "proof_sender E env src p s = Some b"
    by (auto simp: dm_handle_proof_def split: option.splits)
  then have "dm_handle_proof E B env src p s = dm_lrproof E B env b p s"
    using assms(1) by (simp add: dm_handle_proof_def)
  with assms(2) show ?thesis
    by (cases E B env b p s rule: dm_lrproof_cases) (auto simp: lrproof_established_channels split: if_splits)
qed

text \<open>
  One forged proof ends a handshake: an \<open>LRPROOF\<close> that does not verify, or is too short, makes the
  daemon forget the pending link to the peer it claims to come from. The true answer, when it
  comes, is ignored.
\<close>

theorem lrproof_forged_cancels:
  assumes "a \<noteq> keys_rns_address E (dm_keys s)" and "pkt_context p = LRPROOF"
    and "dm_pending_channels s a = Some ch" and "dm_pending_links s a = Some pl"
    and "dm_peer_keys s a = Some key"
    and "length (pkt_data p) < 96 \<or> \<not> lrproof_verified E (pl_link_id pl) key (pkt_data p)"
    and "pkt_context answer = LRPROOF"
    and "\<forall>k c. dm_pending_channels s k = Some c \<longrightarrow> lnk_link_id (ch_link c) = pkt_destination_hash answer \<longrightarrow> k = a"
  shows "\<exists>s'. dm_handle_proof E B env a p s = (s', [], ROk) \<and> dm_pending_channels s' a = None \<and>
    dm_pending_links s' a = None \<and> dm_channels s' = dm_channels s \<and>
    dm_handle_proof E B env2 a answer s' = (s', [], ROk)"
proof -
  let ?s = "s\<lparr>dm_pending_channels := (dm_pending_channels s)(a := None),
    dm_pending_links := (dm_pending_links s)(a := None)\<rparr>"
  have "dm_handle_proof E B env a p s = (?s, [], ROk)"
    using assms(1-6) by (auto simp: dm_handle_proof_def proof_sender_def dm_lrproof_def take_pending_def Let_def)
  moreover have "find (\<lambda>k. case ((dm_pending_channels s)(a := None)) k of None \<Rightarrow> False
      | Some v \<Rightarrow> lnk_link_id (ch_link v) = pkt_destination_hash answer) (de_order env2) = None"
    using assms(8) by (auto simp: find_None_iff split: option.splits)
  then have "dm_handle_proof E B env2 a answer ?s = (?s, [], ROk)"
    using assms(1,7) by (simp add: dm_handle_proof_def proof_sender_def dm_lrproof_def take_pending_def)
  ultimately show ?thesis by simp
qed

text \<open>
  Connecting is tried once: after a call of \<open>connect\<close>, whatever became of it, another call for the
  same peer does nothing and reports success, even when the first reported that the peer cannot be
  reached and no request was ever sent.
\<close>

theorem connect_once:
  "dm_connect E B env2 remote dest2 (fst (dm_connect E B env remote dest s)) =
     (fst (dm_connect E B env remote dest s), [], ROk)"
proof (cases "dm_channels s remote = None \<and> dm_pending_channels s remote = None")
  case True
  then show ?thesis by (subst dm_connect_def) (simp add: dm_connect_fresh)
next
  case False
  then have "fst (dm_connect E B env remote dest s) = s" by (auto simp: dm_connect_def)
  with False show ?thesis by (auto simp: dm_connect_def)
qed

section \<open>Examples\<close>

definition demo_pending_link :: pending_link where
  "demo_pending_link = \<lparr>pl_link_id = replicate 16 8, pl_ephemeral_priv = replicate 32 11, pl_initiator_sig_pub = replicate 32 12\<rparr>"

text \<open>A daemon with a handshake under way, and a proof that ends it.\<close>

definition demo_asking :: "(nat \<times> (name \<times> cached_data) list) daemon" where
  "demo_asking = (daemon_new ext_toy lru_list (demo_keys 1))
     \<lparr>dm_media := 1, dm_peer_keys := [replicate 16 4 \<mapsto> identity_key_bytes ext_toy (demo_keys 3)],
      dm_pending_channels := [replicate 16 4 \<mapsto> channel_new (asking_link ext_toy (denv_demo 0) (demo_keys 1) (replicate 16 4) (replicate 16 8))],
      dm_pending_links := [replicate 16 4 \<mapsto> demo_pending_link]\<rparr>"

lemma demo_asking_facts:
  "dm_keys demo_asking = demo_keys 1" "dm_channels demo_asking = Map.empty"
  "dm_pending_channels demo_asking = [replicate 16 4 \<mapsto> channel_new (asking_link ext_toy (denv_demo 0) (demo_keys 1) (replicate 16 4) (replicate 16 8))]"
  "dm_pending_links demo_asking = [replicate 16 4 \<mapsto> demo_pending_link]"
  "dm_peer_keys demo_asking = [replicate 16 4 \<mapsto> identity_key_bytes ext_toy (demo_keys 3)]"
  "reaches (denv_demo n) demo_asking a"
  by (simp_all add: demo_asking_def daemon_new_def reaches_def denv_demo_def)

lemma demo_address: "keys_rns_address ext_toy (demo_keys n) = replicate 16 (n + 1)"
  by (simp add: keys_defs demo_keys_def keys_from_secrets_def rns_from_full_key_def ext_toy_def toy_fit_def)

definition demo_lrproof :: packet where
  "demo_lrproof = lrproof_packet (replicate 16 8) (keys_sign ext_toy (demo_keys 3)
     (lrproof_signed (replicate 16 8) (replicate 32 21) (identity_key_bytes ext_toy (demo_keys 3)) [32, 2, 0]) @ replicate 32 21 @ [32, 2, 0])"

lemma demo_lrproof_verified:
  "96 \<le> length (pkt_data demo_lrproof)" "pkt_context demo_lrproof = LRPROOF"
  "lrproof_verified ext_toy (replicate 16 8) (identity_key_bytes ext_toy (demo_keys 3)) (pkt_data demo_lrproof)"
proof -
  have k: "length (key_signing (demo_keys 3)) = 32" by (simp add: demo_keys_def keys_from_secrets_def)
  then have l: "length (keys_sign ext_toy (demo_keys 3) m) = 64" for m by (simp add: keys_defs sig_facts)
  show "96 \<le> length (pkt_data demo_lrproof)" "pkt_context demo_lrproof = LRPROOF"
    by (simp_all add: demo_lrproof_def lrproof_packet_def l)
  show "lrproof_verified ext_toy (replicate 16 8) (identity_key_bytes ext_toy (demo_keys 3)) (pkt_data demo_lrproof)"
    by (simp add: demo_lrproof_def lrproof_packet_def lrproof_verified_def l Let_def)
      (simp add: keys_defs k sig_facts)
qed

theorem lrproof_authentic_witness:
  "\<exists>ch k pl key. dm_pending_channels demo_asking (replicate 16 4) = Some ch \<and> dm_pending_links demo_asking k = Some pl \<and>
    dm_peer_keys demo_asking (replicate 16 4) = Some key \<and> lrproof_verified ext_toy (pl_link_id pl) key (pkt_data demo_lrproof)"
proof -
  let ?a = "replicate 16 4 :: bytes"
  have "\<exists>os s'. dm_handle_proof ext_toy bincode_toy (denv_demo 3) ?a demo_lrproof demo_asking = (s', os, ROk) \<and> dm_channels s' ?a \<noteq> None"
    using dm_handle_proof_answered [where a = ?a and E = ext_toy and s = demo_asking and p = demo_lrproof and env = "denv_demo 3"
        and B = bincode_toy and pl = demo_pending_link and key = "identity_key_bytes ext_toy (demo_keys 3)"] demo_lrproof_verified
    by (auto simp: demo_asking_facts demo_address demo_pending_link_def)
  then have "dm_channels (fst (dm_handle_proof ext_toy bincode_toy (denv_demo 3) ?a demo_lrproof demo_asking)) ?a \<noteq> dm_channels demo_asking ?a"
    by (auto simp: demo_asking_facts)
  from lrproof_authentic [OF demo_lrproof_verified(2) this] show ?thesis by blast
qed

theorem lrproof_forged_cancels_witness:
  "\<exists>s'. dm_handle_proof ext_toy bincode_toy (denv_demo 3) (replicate 16 4) (lrproof_packet (replicate 16 4) [1, 2, 3]) demo_asking = (s', [], ROk) \<and>
    dm_handle_proof ext_toy bincode_toy (denv_demo 4) (replicate 16 4) demo_lrproof s' = (s', [], ROk)"
proof -
  let ?a = "replicate 16 4 :: bytes"
  have "\<exists>s'. dm_handle_proof ext_toy bincode_toy (denv_demo 3) ?a (lrproof_packet ?a [1, 2, 3]) demo_asking = (s', [], ROk) \<and>
    dm_pending_channels s' ?a = None \<and> dm_pending_links s' ?a = None \<and> dm_channels s' = dm_channels demo_asking \<and>
    dm_handle_proof ext_toy bincode_toy (denv_demo 4) ?a demo_lrproof s' = (s', [], ROk)"
    by (rule lrproof_forged_cancels)
      (simp_all add: demo_asking_facts demo_address lrproof_packet_def demo_lrproof_verified)
  then show ?thesis by blast
qed

end
