(* ===== verification/Daemon_Run.thy ===== *)
theory Daemon_Run
  imports Daemon_Link
begin

text \<open>
  The daemon, third part (\<open>crates/daemon/src/lib.rs\<close>): the packets of an established link, ICN
  frames, the dispatch of incoming frames, sending over links, and one turn of the main loop with
  its commands, keepalives and ratchet keys. What the media deliver in a turn, the commands waiting
  and the environment of each call are arguments. \<open>ApiCommand\<close> and \<open>DaemonStatus\<close> are from
  \<open>crates/daemon/src/api.rs\<close>.
\<close>

section \<open>ICN frames\<close>

definition dm_publish :: "'c lru_ops \<Rightarrow> instant \<Rightarrow> icn_data \<Rightarrow> 'c daemon \<Rightarrow> 'c daemon" where
  "dm_publish L now d s = s\<lparr>dm_forwarder := fw_cache L now (dm_forwarder s) d\<rparr>"

definition dm_add_route :: "name \<Rightarrow> FaceId \<Rightarrow> u8 \<Rightarrow> 'c daemon \<Rightarrow> 'c daemon" where
  "dm_add_route pre face_id cost s = s\<lparr>dm_forwarder := fw_add_route (dm_forwarder s) pre face_id cost\<rparr>"

definition dummy_proof :: lproof where
  "dummy_proof = \<lparr>prf_packet_hash = replicate 32 0, prf_signature = replicate 64 0\<rparr>"

text \<open>\<open>receive_data(data, 0).await?\<close> and the answer to an interest. The daemon never drops a call of the
  forwarder: a face that does not answer is a wait without end.\<close>

definition dm_receive_icn :: "ext \<Rightarrow> 'c lru_ops \<Rightarrow> fw_env \<Rightarrow> icn_data \<Rightarrow> 'c daemon \<Rightarrow> 'c dstep" where
  "dm_receive_icn E L fenv d s =
     (case fw_receive_data E L fenv (dm_forwarder s) d 0 of
        (fw, r) \<Rightarrow> (s\<lparr>dm_forwarder := fw\<rparr>, [],
          case r of Done (Inl e) \<Rightarrow> RErr (DeIcn e) | Done (Inr _) \<Rightarrow> ROk | Panicked \<Rightarrow> RPanic
            | Dropped \<Rightarrow> RHang | Hangs \<Rightarrow> RHang))"

definition dm_answer_interest ::
  "ext \<Rightarrow> bincode \<Rightarrow> 'c lru_ops \<Rightarrow> denv \<Rightarrow> fw_env \<Rightarrow> rns_address \<Rightarrow> interest \<Rightarrow> 'c daemon \<Rightarrow> 'c dstep" where
  "dm_answer_interest E B L env fenv from i s =
     (case fw_express E L fenv (dm_forwarder s) i 0 of
        (fw, r) \<Rightarrow>
          let s = s\<lparr>dm_forwarder := fw\<rparr> in
          case r of
            Done (Inr (Some d)) \<Rightarrow> dm_send_to B env from (data_to_bytes d) s
          | Done (Inr None) \<Rightarrow> (s, [], ROk) | Done (Inl _) \<Rightarrow> (s, [], ROk)
          | Panicked \<Rightarrow> (s, [], RPanic) | Dropped \<Rightarrow> (s, [], RHang) | Hangs \<Rightarrow> (s, [], RHang))"

definition dm_icn ::
  "ext \<Rightarrow> bincode \<Rightarrow> 'c lru_ops \<Rightarrow> denv \<Rightarrow> fw_env \<Rightarrow> rns_address \<Rightarrow> bytes \<Rightarrow> 'c daemon \<Rightarrow> 'c dstep" where
  "dm_icn E B L env fenv from frame s =
     (case data_from_bytes frame of
        None \<Rightarrow> (s, [], RPanic)
      | Some (Inr d) \<Rightarrow> dm_receive_icn E L fenv d s
      | Some (Inl _) \<Rightarrow>
          (case interest_from_bytes frame of
             None \<Rightarrow> (s, [], RPanic)
           | Some (Inr i) \<Rightarrow> dm_answer_interest E B L env fenv from i s
           | Some (Inl _) \<Rightarrow> (s, [], ROk)))"

definition dm_handle_icn_frame ::
  "ext \<Rightarrow> bincode \<Rightarrow> 'c lru_ops \<Rightarrow> denv \<Rightarrow> rns_address \<Rightarrow> bytes \<Rightarrow> 'c daemon \<Rightarrow> 'c dstep" where
  "dm_handle_icn_frame E B L env from frame s = dm_icn E B L env (de_fw env 0) from frame s"

section \<open>Packets of an established link\<close>

definition resource_data :: "ext \<Rightarrow> bytes \<Rightarrow> icn_data" where
  "resource_data E data = data_new E (name_new (replicate 32 0) []) data dummy_proof"

definition dm_segment :: "ext \<Rightarrow> 'c lru_ops \<Rightarrow> instant \<Rightarrow> segment \<Rightarrow> 'c daemon \<Rightarrow> 'c dstep" where
  "dm_segment E L now segment s =
     (let seg_hash = seg_resource_hash segment in
      case dm_incoming_resources s seg_hash of
        None \<Rightarrow> (s, [], ROk)
      | Some resource \<Rightarrow>
          (case receive_segment E segment resource of
             None \<Rightarrow> (s, [], RPanic)
           | Some (r, res) \<Rightarrow>
               let s = s\<lparr>dm_incoming_resources := (dm_incoming_resources s)(seg_hash \<mapsto> r)\<rparr> in
               (case res of
                  Inl e \<Rightarrow> (s, [], RErr (DeTransport e))
                | Inr False \<Rightarrow> (s, [], ROk)
                | Inr True \<Rightarrow>
                    let s = (case res_data r of
                          Some data \<Rightarrow> dm_publish L now (resource_data E data) s | None \<Rightarrow> s)
                    in (s\<lparr>dm_incoming_resources := (dm_incoming_resources s)(seg_hash := None)\<rparr>, [], ROk))))"

definition dm_message ::
  "ext \<Rightarrow> bincode \<Rightarrow> 'c lru_ops \<Rightarrow> denv \<Rightarrow> fw_env \<Rightarrow> rns_address \<Rightarrow> bytes \<Rightarrow> 'c daemon \<Rightarrow> 'c dstep" where
  "dm_message E B L env fenv from msg s =
     (case (if length msg > 4 then bc_read_segment B msg else None) of
        Some segment \<Rightarrow> dm_segment E L (env_now fenv) segment s
      | None \<Rightarrow>
          (case bc_read_adv B msg of
             Some adv \<Rightarrow>
               (s\<lparr>dm_incoming_resources := (dm_incoming_resources s)(adv_hash adv \<mapsto>
                  new_for_receiving (adv_hash adv) (unat (adv_total_size adv)) (adv_segment_count adv)
                    resource_config_default)\<rparr>, [], ROk)
           | None \<Rightarrow> dm_icn E B L env fenv from msg s))"

fun dm_messages ::
  "ext \<Rightarrow> bincode \<Rightarrow> 'c lru_ops \<Rightarrow> denv \<Rightarrow> nat \<Rightarrow> rns_address \<Rightarrow> bytes list \<Rightarrow> 'c daemon \<Rightarrow> 'c dstep" where
  "dm_messages E B L env n from [] s = (s, [], ROk)"
| "dm_messages E B L env n from (msg # msgs) s =
     dthen (dm_message E B L env (de_fw env n) from msg s) (dm_messages E B L env (Suc n) from msgs)"

text \<open>\<open>while let Some(msg) = channel.recv()\<close>. Every iteration shortens the ready queue.\<close>

function channel_recv_all :: "channel \<Rightarrow> channel \<times> bytes list" where
  "channel_recv_all c = (case channel_recv c of
     (c, None) \<Rightarrow> (c, [])
   | (c, Some msg) \<Rightarrow> let (c, msgs) = channel_recv_all c in (c, msg # msgs))"
  by pat_completeness auto
termination
  by (relation "measure (\<lambda>c. length (ch_ready c))") (auto simp: channel_recv_def split: list.splits)

declare channel_recv_all.simps [simp del]

lemma channel_recv_all_eq [simp]: "channel_recv_all c = (c\<lparr>ch_ready := []\<rparr>, ch_ready c)"
proof (induction "length (ch_ready c)" arbitrary: c)
  case 0
  then show ?case by (subst channel_recv_all.simps) (simp add: channel_recv_def)
next
  case (Suc n)
  then obtain m ms where "ch_ready c = m # ms" by (cases "ch_ready c") auto
  with Suc show ?case by (subst channel_recv_all.simps) (simp add: channel_recv_def)
qed

definition dm_set_channel :: "rns_address \<Rightarrow> channel \<Rightarrow> 'c daemon \<Rightarrow> 'c daemon" where
  "dm_set_channel a c s = s\<lparr>dm_channels := (dm_channels s)(a \<mapsto> c)\<rparr>"

definition link_receive_ratchet :: "ext \<Rightarrow> bytes \<Rightarrow> link \<Rightarrow> link" where
  "link_receive_ratchet E peer_ratchet_key l =
     (let l = link_set_peer_ratchet_key peer_ratchet_key l;
          l = (case lnk_ratchet_priv l of
              None \<Rightarrow> l
            | Some ratchet_priv \<Rightarrow>
                let shared_ratchet = x25519_dh E ratchet_priv peer_ratchet_key in
                (case lnk_shared_key l of
                   None \<Rightarrow> l
                 | Some existing \<Rightarrow> link_set_shared_key
                     (hkdf_sha256 E 32 existing (Some shared_ratchet) (Some (str_bytes ''ratchet''))) l))
      in link_set_ratchet_pending_send True l)"

definition dm_handle_link_data ::
  "ext \<Rightarrow> bincode \<Rightarrow> 'c lru_ops \<Rightarrow> denv \<Rightarrow> rns_address \<Rightarrow> packet \<Rightarrow> 'c daemon \<Rightarrow> 'c dstep" where
  "dm_handle_link_data E B L env from p s =
     (case dm_channels s from of
        None \<Rightarrow> (s, [], ROk)
      | Some c \<Rightarrow>
          if pkt_context p = KEEPALIVE then
            (dm_set_channel from (c\<lparr>ch_link := fst (link_deliver E (de_now env) p (ch_link c))\<rparr>) s, [], ROk)
          else if pkt_context p = LRRTT then
            (if length (pkt_data p) \<ge> 8
             then (dm_set_channel from (c\<lparr>ch_link := link_set_rtt (Some (of_nat (le_val (take 8 (pkt_data p))))) (ch_link c)\<rparr>) s, [], ROk)
             else (s, [], ROk))
          else if pkt_context p = RATCHET then
            (if length (pkt_data p) \<ge> 36
             then (dm_set_channel from (c\<lparr>ch_link := link_receive_ratchet E (take 32 (pkt_data p)) (ch_link c)\<rparr>) s, [], ROk)
             else (s, [], ROk))
          else
            (case channel_deliver E (de_now env) p c of
               (c, Inl e) \<Rightarrow> (dm_set_channel from c s, [], RErr (DeChannel e))
             | (c, Inr _) \<Rightarrow>
                 let (c, msgs) = channel_recv_all c
                 in dm_messages E B L env 0 from msgs (dm_set_channel from c s)))"

section \<open>Incoming frames\<close>

definition dm_handle_frame ::
  "ext \<Rightarrow> bincode \<Rightarrow> 'c lru_ops \<Rightarrow> denv \<Rightarrow> rns_address \<Rightarrow> bytes \<Rightarrow> 'c daemon \<Rightarrow> 'c dstep" where
  "dm_handle_frame E B L env from frame s =
     (case packet_from_bytes frame of
        Inl _ \<Rightarrow> dm_handle_icn_frame E B L env from frame s
      | Inr p \<Rightarrow>
          if pkt_packet_type p = ANNOUNCE then dm_handle_announce E env from p s
          else if pkt_packet_type p = PROOF then dm_handle_proof E B env from p s
          else if pkt_packet_type p = LINKREQUEST then dm_handle_linkrequest E B env from p s
          else if pkt_packet_type p = DATA \<and> pkt_header_type p = HEADER_2 \<and> pkt_transport_id p \<noteq> None
          then dm_handle_link_data E B L env from p s
          else if pkt_packet_type p = DATA \<and> pkt_context p = PATH_REQUEST
          then dm_handle_path_request_msg E B env from p s
          else if pkt_packet_type p = DATA \<and> pkt_context p = PATH_RESPONSE
          then dm_handle_path_reply_msg E B env from p s
          else dm_handle_icn_frame E B L env from frame s)"

section \<open>Sending over links\<close>

definition dm_send_over_link ::
  "ext \<Rightarrow> bincode \<Rightarrow> denv \<Rightarrow> rns_address \<Rightarrow> bytes \<Rightarrow> 'c daemon \<Rightarrow> 'c dstep" where
  "dm_send_over_link E B env remote data s =
     (case dm_channels s remote of
        None \<Rightarrow> (s, [], RErr DeNoLink)
      | Some c \<Rightarrow>
          (case channel_send E (de_now env) (de_ephemeral env) (de_iv env) data c of
             None \<Rightarrow> (s, [], RPanic)
           | Some (c, Inl e) \<Rightarrow> (dm_set_channel remote c s, [], RErr (DeChannel e))
           | Some (c, Inr p) \<Rightarrow> dm_send_to B env remote (packet_to_bytes p) (dm_set_channel remote c s)))"

fun dm_send_each ::
  "ext \<Rightarrow> bincode \<Rightarrow> (nat \<Rightarrow> denv) \<Rightarrow> nat \<Rightarrow> rns_address \<Rightarrow> bytes list \<Rightarrow> 'c daemon \<Rightarrow> 'c dstep" where
  "dm_send_each E B envs n remote [] s = (s, [], ROk)"
| "dm_send_each E B envs n remote (m # ms) s =
     dthen (dm_send_over_link E B (envs n) remote m s) (dm_send_each E B envs (Suc n) remote ms)"

definition dm_send_resource ::
  "ext \<Rightarrow> bincode \<Rightarrow> (nat \<Rightarrow> denv) \<Rightarrow> rns_address \<Rightarrow> bytes \<Rightarrow> 'c daemon \<Rightarrow> 'c dstep" where
  "dm_send_resource E B envs remote data s =
     (case new_for_sending E data resource_config_default of
        None \<Rightarrow> (s, [], RPanic)
      | Some resource \<Rightarrow>
          let adv = advertisement_new resource (keys_rns_address E (dm_keys s)) in
          dthen (dm_send_over_link E B (envs 0) remote (bc_adv B adv) s)
            (dm_send_each E B envs 1 remote (map (bc_segment B) (res_segments resource))))"

definition dm_seed_peer :: "ext \<Rightarrow> rns_address \<Rightarrow> string \<Rightarrow> string \<Rightarrow> 'c daemon \<Rightarrow> 'c dstep" where
  "dm_seed_peer E addr key_hex udp_endpoint s =
     (case hex_decode E key_hex of
        Inl e \<Rightarrow> (s, [], RErr (DeOther (''invalid key hex: '' @ e)))
      | Inr key_bytes \<Rightarrow>
          if length key_bytes \<noteq> 32
          then (s, [], RErr (DeOther (''key must be 32 bytes (64 hex chars), got '' @ show_nat (length key_bytes))))
          else (dm_register_peer s addr key_bytes,
                map (\<lambda>m. OutAddPeer m addr udp_endpoint) (media_of s), ROk))"

section \<open>Commands of the local API\<close>

datatype ApiCommand =
    Express rns_address bytes
  | Publish string bytes
  | ApiStatus
  | Connect rns_address "bytes option"
  | SendOverLink rns_address bytes
  | SendResource rns_address bytes
  | SeedPeer rns_address string string

record daemon_status =
  st_address :: string
  st_link_count :: nat
  st_peer_count :: nat
  st_medium_count :: nat

datatype api_reply = RepResult "string + unit" | RepStatus daemon_status

definition dm_status :: "ext \<Rightarrow> 'c daemon \<Rightarrow> daemon_status" where
  "dm_status E s = \<lparr>st_address = rns_to_string E (keys_rns_address E (dm_keys s)),
     st_link_count = card (dom (dm_channels s)), st_peer_count = card (dom (dm_peer_keys s)),
     st_medium_count = dm_media s\<rparr>"

text \<open>The result of a handler as the reply to a command; there is none after a panic.\<close>

definition reply_of :: "dresult \<Rightarrow> api_reply option" where
  "reply_of r = (case r of ROk \<Rightarrow> Some (RepResult (Inr ()))
     | RErr e \<Rightarrow> Some (RepResult (Inl (daemon_error_text e))) | RPanic \<Rightarrow> None | RHang \<Rightarrow> None)"

definition replied :: "'c dstep \<Rightarrow> 'c daemon \<times> dout list \<times> api_reply option" where
  "replied r = (case r of (s, os, x) \<Rightarrow> (s, os, reply_of x))"

fun dm_command ::
  "ext \<Rightarrow> bincode \<Rightarrow> 'c lru_ops \<Rightarrow> (nat \<Rightarrow> denv) \<Rightarrow> ApiCommand \<Rightarrow> 'c daemon \<Rightarrow>
     'c daemon \<times> dout list \<times> api_reply option" where
  "dm_command E B L envs (Express dest data) s = replied (dm_send_to B (envs 0) dest data s)"
| "dm_command E B L envs (Publish name data) s =
     (case hex_decode E name of
        Inl _ \<Rightarrow> (s, [], Some (RepResult (Inl ''Invalid name: must be 64 hex chars (32 bytes producer hash)'')))
      | Inr bytes \<Rightarrow>
          if length bytes = 32
          then (dm_publish L (de_now (envs 0)) (data_new E (name_new bytes []) data dummy_proof) s, [],
                Some (RepResult (Inr ())))
          else (s, [], Some (RepResult (Inl ''Invalid name: must be 64 hex chars (32 bytes producer hash)''))))"
| "dm_command E B L envs ApiStatus s = (s, [], Some (RepStatus (dm_status E s)))"
| "dm_command E B L envs (Connect dest dest_hash) s = replied (dm_connect E B (envs 0) dest dest_hash s)"
| "dm_command E B L envs (SendOverLink dest data) s = replied (dm_send_over_link E B (envs 0) dest data s)"
| "dm_command E B L envs (SendResource dest data) s = replied (dm_send_resource E B envs dest data s)"
| "dm_command E B L envs (SeedPeer dest key_hex udp_endpoint) s = replied (dm_seed_peer E dest key_hex udp_endpoint s)"

section \<open>One turn of the main loop\<close>

abbreviation (input) KEEPALIVE_INTERVAL :: duration where "KEEPALIVE_INTERVAL \<equiv> from_secs 30"
abbreviation (input) TRAFFIC_TIMEOUT :: duration where "TRAFFIC_TIMEOUT \<equiv> from_secs 300"
abbreviation (input) STALE_TIME :: duration where "STALE_TIME \<equiv> from_secs 600"

fun dm_frames ::
  "ext \<Rightarrow> bincode \<Rightarrow> 'c lru_ops \<Rightarrow> (denv \<times> rns_address \<times> bytes) list \<Rightarrow> 'c daemon \<Rightarrow> 'c dstep" where
  "dm_frames E B L [] s = (s, [], ROk)"
| "dm_frames E B L ((env, from, frame) # fs) s =
     dseq (dm_handle_frame E B L env from frame s) (dm_frames E B L fs)"

text \<open>An announce every hundredth turn, built anew for each medium.\<close>

definition dm_announce :: "ext \<Rightarrow> (nat \<Rightarrow> bytes \<times> u64) \<Rightarrow> 'c daemon \<Rightarrow> 'c dstep" where
  "dm_announce E draw s =
     (let s = s\<lparr>dm_announce_seq := dm_announce_seq s + 1\<rparr>
      in (s, if dm_announce_seq s mod 100 = 0
             then map (\<lambda>m. OutBroadcast m (packet_to_bytes
               (build_announce_packet E (dm_keys s) (fst (draw m)) (snd (draw m))))) (media_of s)
             else [], ROk))"

fun dm_commands ::
  "ext \<Rightarrow> bincode \<Rightarrow> 'c lru_ops \<Rightarrow> ((nat \<Rightarrow> denv) \<times> ApiCommand) list \<Rightarrow> 'c daemon \<Rightarrow>
     'c dstep \<times> api_reply list" where
  "dm_commands E B L [] s = ((s, [], ROk), [])"
| "dm_commands E B L ((envs, cmd) # cmds) s =
     (case dm_command E B L envs cmd s of
        (s, os, None) \<Rightarrow> ((s, os, RPanic), [])
      | (s, os, Some r) \<Rightarrow>
          (case dm_commands E B L cmds s of ((s, os', x), rs) \<Rightarrow> ((s, os @ os', x), r # rs)))"

text \<open>What the monitoring of links decides for one link.\<close>

datatype link_action = LinkIdle | LinkDead | LinkSends packet

definition link_monitor :: "instant \<Rightarrow> rns_address \<Rightarrow> link \<Rightarrow> link_action" where
  "link_monitor now addr l =
     (if \<not> lnk_keepalive_enabled l then LinkIdle
      else if now - lnk_last_inbound l > STALE_TIME then LinkDead
      else if now - lnk_last_inbound l > TRAFFIC_TIMEOUT
      then LinkSends ((link_packet l FLAG_UNSET DATA NONE [])\<lparr>pkt_destination_hash := addr\<rparr>)
      else if now - lnk_last_outbound l > KEEPALIVE_INTERVAL
      then LinkSends ((link_packet l FLAG_SET DATA KEEPALIVE [])\<lparr>pkt_destination_hash := addr\<rparr>)
      else LinkIdle)"

definition monitored :: "instant \<Rightarrow> 'c daemon \<Rightarrow> rns_address \<Rightarrow> link_action" where
  "monitored now s a = (case dm_channels s a of None \<Rightarrow> LinkIdle | Some c \<Rightarrow> link_monitor now a (ch_link c))"

definition dm_monitor :: "denv \<Rightarrow> 'c daemon \<Rightarrow> 'c daemon \<times> (rns_address \<times> bytes) list" where
  "dm_monitor env s =
     (let dead_links = filter (\<lambda>a. monitored (de_now env) s a = LinkDead) (de_order env);
          keepalive_packets = concat (map (\<lambda>a. case monitored (de_now env) s a of
              LinkSends p \<Rightarrow> [(a, packet_to_bytes p)] | _ \<Rightarrow> []) (de_order env))
      in (s\<lparr>dm_channels := (\<lambda>a. if a \<in> set dead_links then None else dm_channels s a)\<rparr>, keepalive_packets))"

definition link_send_ratchet :: "ext \<Rightarrow> rns_address \<Rightarrow> link \<Rightarrow> (link \<times> packet) option" where
  "link_send_ratchet E addr l =
     (if lnk_ratchet_pending_send l then
        (case lnk_ratchet_priv l of
           None \<Rightarrow> None
         | Some priv \<Rightarrow>
             let ratchet_data = x25519_pub E priv @ le_bytes 4 (unat (lnk_ratchet_sequence l));
                 packet = (link_packet l FLAG_SET DATA RATCHET ratchet_data)\<lparr>pkt_destination_hash := addr\<rparr>
             in Some (fst (link_increment_ratchet_sequence (link_set_ratchet_pending_send False l)), packet))
      else None)"

fun dm_ratchets :: "ext \<Rightarrow> rns_address list \<Rightarrow> 'c daemon \<Rightarrow> 'c daemon \<times> (rns_address \<times> bytes) list" where
  "dm_ratchets E [] s = (s, [])"
| "dm_ratchets E (a # as) s =
     (case dm_channels s a of
        None \<Rightarrow> dm_ratchets E as s
      | Some c \<Rightarrow>
          (case link_send_ratchet E a (ch_link c) of
             None \<Rightarrow> dm_ratchets E as s
           | Some (l, p) \<Rightarrow>
               let (s, ps) = dm_ratchets E as (dm_set_channel a (c\<lparr>ch_link := l\<rparr>) s)
               in (s, (a, packet_to_bytes p) # ps)))"

fun dm_send_list :: "bincode \<Rightarrow> (nat \<Rightarrow> denv) \<Rightarrow> nat \<Rightarrow> (rns_address \<times> bytes) list \<Rightarrow> 'c daemon \<Rightarrow> 'c dstep" where
  "dm_send_list B envs n [] s = (s, [], ROk)"
| "dm_send_list B envs n ((a, data) # rest) s =
     dseq (dm_send_to B (envs n) a data s) (dm_send_list B envs (Suc n) rest)"

record turn =
  tn_frames :: "(denv \<times> rns_address \<times> bytes) list"
  tn_draw :: "nat \<Rightarrow> bytes \<times> u64"
  tn_commands :: "((nat \<Rightarrow> denv) \<times> ApiCommand) list"
  tn_env :: denv
  tn_sends :: "nat \<Rightarrow> denv"

definition dm_maintain :: "ext \<Rightarrow> bincode \<Rightarrow> denv \<Rightarrow> (nat \<Rightarrow> denv) \<Rightarrow> 'c daemon \<Rightarrow> 'c dstep" where
  "dm_maintain E B env sends s =
     (let (s, keepalive_packets) = dm_monitor env s;
          (s, ratchet_packets) = dm_ratchets E (de_order env) s
      in dm_send_list B sends 0 (keepalive_packets @ ratchet_packets) s)"

definition dm_turn ::
  "ext \<Rightarrow> bincode \<Rightarrow> 'c lru_ops \<Rightarrow> turn \<Rightarrow> 'c daemon \<Rightarrow> 'c dstep \<times> api_reply list" where
  "dm_turn E B L t s =
     (case dseq (dm_frames E B L (tn_frames t) s) (dm_announce E (tn_draw t)) of
        (s, os, x) \<Rightarrow>
          if x = RPanic \<or> x = RHang then ((s, os, x), [])
          else (case dm_commands E B L (tn_commands t) s of
              ((s, os', x), replies) \<Rightarrow>
                (dseq (s, os @ os', x) (dm_maintain E B (tn_env t) (tn_sends t)), replies)))"

section \<open>A link between two daemons\<close>

lemma dm_handle_frame_packet:
  assumes "packet_wf p"
  shows "pkt_packet_type p = LINKREQUEST \<Longrightarrow>
      dm_handle_frame E B L env src (packet_to_bytes p) s = dm_handle_linkrequest E B env src p s"
    and "pkt_packet_type p = PROOF \<Longrightarrow>
      dm_handle_frame E B L env src (packet_to_bytes p) s = dm_handle_proof E B env src p s"
    and "pkt_packet_type p = ANNOUNCE \<Longrightarrow>
      dm_handle_frame E B L env src (packet_to_bytes p) s = dm_handle_announce E env src p s"
    and "pkt_packet_type p = DATA \<Longrightarrow> pkt_header_type p = HEADER_2 \<Longrightarrow>
      dm_handle_frame E B L env src (packet_to_bytes p) s = dm_handle_link_data E B L env src p s"
  using assms by (auto simp: dm_handle_frame_def packet_dec_enc packet_wf_def)

text \<open>C2. 
  The handshake of two daemons, from the command to the established link, over the wire: daemon \<open>a\<close>
  connects to \<open>b\<close>, whose announce it has heard; \<open>b\<close>, which has heard of \<open>a\<close>, handles the frame and
  answers; \<open>a\<close> handles the answer. Both then hold an established link for the other, with one link
  id and one shared key.
\<close>

theorem daemon_handshake:
  assumes "hash_ok E" and "dh_ok E" and "sig_ok E" and "keys_wf (dm_keys s)" and "keys_wf (dm_keys t)"
    and a: "a = keys_rns_address E (dm_keys s)" and b: "b = keys_rns_address E (dm_keys t)" and "a \<noteq> b"
    and "dm_channels s b = None" and "dm_pending_channels s b = None"
    and "dm_peer_keys s b = Some (identity_key_bytes E (dm_keys t))" and "dm_peer_keys t a = Some key"
    and "reaches e1 s b" and "reaches e2 t a" and "reaches e3 s b"
    and "length (de_ephemeral e1) = 32" and "length (de_signing_seed e1) = 32" and "length (de_ephemeral e2) = 32"
    and "case dest of None \<Rightarrow> True | Some h \<Rightarrow> length h = 16"
  shows "\<exists>s1 f1 t1 f2 s2 os ca cb k.
    dm_connect E B e1 b dest s = (s1, [OutSend 0 b f1], ROk) \<and>
    dm_handle_frame E B L e2 a f1 t = (t1, [OutSend 0 a f2], ROk) \<and>
    dm_handle_frame E B L e3 b f2 s1 = (s2, os, ROk) \<and>
    dm_channels s2 b = Some ca \<and> dm_channels t1 a = Some cb \<and>
    lnk_state (ch_link ca) = Established \<and> lnk_state (ch_link cb) = Established \<and>
    lnk_link_id (ch_link ca) = lnk_link_id (ch_link cb) \<and>
    lnk_shared_key (ch_link ca) = Some k \<and> lnk_shared_key (ch_link cb) = Some k"
proof -
  let ?d = "case dest of Some h \<Rightarrow> h | None \<Rightarrow> b"
  let ?req = "request_of E e1 ?d" and ?i = "compute_link_id_from_request E (request_of E e1 ?d)"
  let ?ans = "answer_of E e2 (dm_keys t) ?req"
  note facts = handshake_facts [OF assms(1-3,5,16,18,17)]
  have wf: "packet_wf ?req" "packet_wf ?ans"
    using assms(1,19) b by (auto intro!: request_wf answer_wf simp: keys_lengths split: option.splits)
  have ans: "length (pkt_data ?ans) = 99"
    "take 32 (drop 64 (pkt_data ?ans)) = x25519_pub E (de_ephemeral e2)"
    "lrproof_verified E ?i (identity_key_bytes E (dm_keys t)) (pkt_data ?ans)"
    using answer_verified [OF assms(1-3,5,18) facts(8)] by simp_all
  let ?pl = "\<lparr>pl_link_id = ?i, pl_ephemeral_priv = de_ephemeral e1, pl_initiator_sig_pub = ed_pub E (de_signing_seed e1)\<rparr>"
  let ?ch = "channel_new (asking_link E e1 (dm_keys s) b ?i)"
  let ?s = "s\<lparr>dm_pending_channels := (dm_pending_channels s)(b \<mapsto> ?ch), dm_pending_links := (dm_pending_links s)(b \<mapsto> ?pl)\<rparr>"
  let ?t = "t\<lparr>dm_channels := (dm_channels t)(a \<mapsto> channel_new (answering_link E e2 (dm_keys t) a key ?req))\<rparr>"
  have 1: "dm_connect E B e1 b dest s = (?s, [OutSend 0 b (packet_to_bytes ?req)], ROk)"
    using assms(9,10,13) by (simp add: dm_connect_fresh send_to_reached)
  have 2: "dm_handle_frame E B L e2 a (packet_to_bytes ?req) t = (?t, [OutSend 0 a (packet_to_bytes ?ans)], ROk)"
    using dm_handle_linkrequest_known [OF facts(8) assms(12), of E B e2] assms(14) wf(1)
    by (simp add: dm_handle_frame_packet send_to_reached) (simp add: request_of_def link_request_packet_def dm_handle_frame_packet)
  have "pkt_context ?ans = LRPROOF" "pkt_packet_type ?ans = PROOF"
    by (simp_all add: answer_of_def lrproof_packet_def Let_def)
  then obtain os where 3: "dm_handle_frame E B L e3 b (packet_to_bytes ?ans) ?s =
    (?s\<lparr>dm_pending_channels := (dm_pending_channels ?s)(b := None),
       dm_pending_links := (dm_pending_links ?s)(b := None),
       dm_channels := (dm_channels ?s)(b \<mapsto> ?ch\<lparr>ch_link := asked_link E e3 (ch_link ?ch) (identity_key_bytes E (dm_keys t))
         (x25519_dh E (pl_ephemeral_priv ?pl) (slice 64 96 (pkt_data ?ans)))\<rparr>)\<rparr>, os, ROk)"
    using dm_handle_proof_answered [where a = b and E = E and s = ?s and p = ?ans and ch = ?ch and pl = ?pl
        and key = "identity_key_bytes E (dm_keys t)" and env = e3 and B = B] ans assms(8,11,15) a b wf(2)
    by (auto simp: dm_handle_frame_packet)
  obtain k where "lnk_shared_key (answering_link E e2 (dm_keys t) a key ?req) = Some k" using facts(9) by blast
  with 1 2 3 show ?thesis
    using facts(1) [of e3 "dm_keys s" b ?i _ a key ?d] ans(2)
    by (simp add: channel_new_def facts(2-5))
qed

definition demo_daemon :: "u8 \<Rightarrow> u8 \<Rightarrow> (nat \<times> (name \<times> cached_data) list) daemon" where
  "demo_daemon m n = dm_register_peer (dm_add_medium (daemon_new ext_toy lru_list (demo_keys m)))
     (keys_rns_address ext_toy (demo_keys n)) (identity_key_bytes ext_toy (demo_keys n))"

lemma demo_daemon_facts [simp]:
  "dm_keys (demo_daemon m n) = demo_keys m" "dm_channels (demo_daemon m n) = Map.empty"
  "dm_pending_channels (demo_daemon m n) = Map.empty" "dm_media (demo_daemon m n) = 1"
  "dm_peer_keys (demo_daemon m n) = [keys_rns_address ext_toy (demo_keys n) \<mapsto> identity_key_bytes ext_toy (demo_keys n)]"
  "reaches (denv_demo i) (demo_daemon m n) a"
  by (simp_all add: demo_daemon_def dm_register_peer_def dm_add_medium_def daemon_new_def reaches_def denv_demo_def)

theorem daemon_handshake_witness:
  "\<forall>B. \<exists>s1 f1 t1 f2 s2 os ca cb k.
    dm_connect ext_toy B (denv_demo 0) (replicate 16 4) None (demo_daemon 1 3) = (s1, [OutSend 0 (replicate 16 4) f1], ROk) \<and>
    dm_handle_frame ext_toy B lru_list (denv_demo 1) (replicate 16 2) f1 (demo_daemon 3 1) = (t1, [OutSend 0 (replicate 16 2) f2], ROk) \<and>
    dm_handle_frame ext_toy B lru_list (denv_demo 2) (replicate 16 4) f2 s1 = (s2, os, ROk) \<and>
    dm_channels s2 (replicate 16 4) = Some ca \<and> dm_channels t1 (replicate 16 2) = Some cb \<and>
    lnk_state (ch_link ca) = Established \<and> lnk_state (ch_link cb) = Established \<and>
    lnk_link_id (ch_link ca) = lnk_link_id (ch_link cb) \<and>
    lnk_shared_key (ch_link ca) = Some k \<and> lnk_shared_key (ch_link cb) = Some k"
proof
  fix B
  have "length (de_ephemeral (denv_demo n)) = 32" "length (de_signing_seed (denv_demo n)) = 32" for n
    by (simp_all add: denv_demo_def)
  then show "\<exists>s1 f1 t1 f2 s2 os ca cb k.
    dm_connect ext_toy B (denv_demo 0) (replicate 16 4) None (demo_daemon 1 3) = (s1, [OutSend 0 (replicate 16 4) f1], ROk) \<and>
    dm_handle_frame ext_toy B lru_list (denv_demo 1) (replicate 16 2) f1 (demo_daemon 3 1) = (t1, [OutSend 0 (replicate 16 2) f2], ROk) \<and>
    dm_handle_frame ext_toy B lru_list (denv_demo 2) (replicate 16 4) f2 s1 = (s2, os, ROk) \<and>
    dm_channels s2 (replicate 16 4) = Some ca \<and> dm_channels t1 (replicate 16 2) = Some cb \<and>
    lnk_state (ch_link ca) = Established \<and> lnk_state (ch_link cb) = Established \<and>
    lnk_link_id (ch_link ca) = lnk_link_id (ch_link cb) \<and>
    lnk_shared_key (ch_link ca) = Some k \<and> lnk_shared_key (ch_link cb) = Some k"
    by (intro daemon_handshake) (simp_all add: demo_address)
qed

end
