(* ===== verification/Daemon_Inv.thy ===== *)
theory Daemon_Inv
  imports Daemon_Run
begin

text \<open>
  Invariants of the daemon. The locale \<open>daemon_invariant\<close> names what a property of the state must
  survive (each handler that touches it) and proves that every turn of the main loop then keeps it;
  the states a daemon can be in are the inductive predicate \<open>reachable\<close>. Its interpretations are
  the well-formedness of the state and the emptiness of the key store.
\<close>

section \<open>Inputs and evolution\<close>

definition env_wf :: "denv \<Rightarrow> bool" where
  "env_wf env \<longleftrightarrow> length (de_ephemeral env) = 32 \<and> length (de_signing_seed env) = 32 \<and>
     length (de_ratchet env) = 32"

fun command_wf :: "ApiCommand \<Rightarrow> bool" where
  "command_wf (Express a d) = (length a = 16)"
| "command_wf (Publish n d) = True"
| "command_wf ApiStatus = True"
| "command_wf (Connect a h) = (length a = 16 \<and> (case h of None \<Rightarrow> True | Some x \<Rightarrow> length x = 16))"
| "command_wf (SendOverLink a d) = (length a = 16)"
| "command_wf (SendResource a d) = (length a = 16)"
| "command_wf (SeedPeer a k e) = (length a = 16)"

definition turn_wf :: "turn \<Rightarrow> bool" where
  "turn_wf t \<longleftrightarrow> (\<forall>(env, src, f) \<in> set (tn_frames t). env_wf env \<and> length src = 16) \<and>
     (\<forall>(envs, cmd) \<in> set (tn_commands t). (\<forall>n. env_wf (envs n)) \<and> command_wf cmd)"

text \<open>How a channel changes while it stays in the daemon's table.\<close>

definition link_evolves :: "ext \<Rightarrow> link \<Rightarrow> link \<Rightarrow> bool" where
  "link_evolves E l l' \<longleftrightarrow> lnk_local l' = lnk_local l \<and> lnk_remote l' = lnk_remote l \<and>
     lnk_remote_encryption_key l' = lnk_remote_encryption_key l \<and>
     lnk_remote_signing_key l' = lnk_remote_signing_key l \<and> lnk_config l' = lnk_config l \<and>
     lnk_state l' = lnk_state l \<and> lnk_transport_id l' = lnk_transport_id l \<and>
     lnk_link_id l' = lnk_link_id l \<and> lnk_initiator l' = lnk_initiator l \<and>
     lnk_keepalive_enabled l' = lnk_keepalive_enabled l \<and> lnk_ratchet_priv l' = lnk_ratchet_priv l \<and>
     (lnk_shared_key l' = lnk_shared_key l \<or>
      lnk_shared_key l \<noteq> None \<and>
      (\<exists>ikm salt ctx. lnk_shared_key l' = Some (hkdf_sha256 E 32 ikm salt ctx)))"

lemma link_evolves_refl [simp]: "link_evolves E l l"
  by (simp add: link_evolves_def)

lemma link_evolves_upd [simp]:
  "link_evolves E l (l'\<lparr>lnk_inbound := x\<rparr>) = link_evolves E l l'"
  "link_evolves E l (l'\<lparr>lnk_outbound := y\<rparr>) = link_evolves E l l'"
  "link_evolves E l (l'\<lparr>lnk_last_inbound := t\<rparr>) = link_evolves E l l'"
  "link_evolves E l (l'\<lparr>lnk_last_outbound := u\<rparr>) = link_evolves E l l'"
  "link_evolves E l (link_set_rtt r l') = link_evolves E l l'"
  "link_evolves E l (link_set_ratchet_pending_send b l') = link_evolves E l l'"
  "link_evolves E l (fst (link_increment_ratchet_sequence l')) = link_evolves E l l'"
  by (simp_all add: link_evolves_def link_setters link_increment_ratchet_sequence_def Let_def)

lemma link_deliver_evolves: "link_evolves E l (fst (link_deliver E now p l))"
  by (auto simp: link_deliver_def split: sum.splits)

lemma link_send_evolves: "link_evolves E l (fst (link_send E now eph iv d l))"
  by (auto simp: link_send_def Let_def)

lemma link_receive_ratchet_evolves: "link_evolves E l (link_receive_ratchet E k l)"
  by (auto simp: link_receive_ratchet_def link_evolves_def link_setters Let_def split: option.splits)

lemma link_send_ratchet_evolves:
  "link_send_ratchet E a l = Some (l', p) \<Longrightarrow> link_evolves E l l'"
  by (auto simp: link_send_ratchet_def Let_def split: if_splits option.splits)

lemma channel_process_evolves: "link_evolves E (ch_link c) (ch_link (fst (channel_process ms c)))"
  by (induction ms c rule: channel_process.induct) (auto simp: channel_accept_link(2) split: sum.splits)

lemma link_evolves_trans_bufs:
  "link_evolves E l l1 \<Longrightarrow> lnk_shared_key l2 = lnk_shared_key l1 \<Longrightarrow> link_evolves E l1 l2 \<Longrightarrow> link_evolves E l l2"
  by (auto simp: link_evolves_def)

lemma channel_process_shared: "lnk_shared_key (ch_link (fst (channel_process ms c))) = lnk_shared_key (ch_link c)"
  by (induction ms c rule: channel_process.induct) (auto simp: channel_accept_link(2) split: sum.splits)

lemma channel_deliver_evolves: "link_evolves E (ch_link c) (ch_link (fst (channel_deliver E now p c)))"
proof -
  obtain l r where d: "link_deliver E now p (ch_link c) = (l, r)" by (cases "link_deliver E now p (ch_link c)")
  then have "link_evolves E (ch_link c) l" using link_deliver_evolves [of E "ch_link c" now p] by simp
  then show ?thesis
    using link_evolves_trans_bufs [OF _ _ channel_process_evolves]
      channel_process_shared [of "lnk_inbound l" "c\<lparr>ch_link := l\<rparr>"]
    by (auto simp: channel_deliver_def d split: sum.splits)
qed

lemma channel_send_evolves:
  "channel_send E now eph iv d c = Some (c', r) \<Longrightarrow> link_evolves E (ch_link c) (ch_link c')"
  using link_send_evolves
  by (auto simp: channel_send_def channel_send_typed_def Let_def split: option.splits if_splits prod.splits)
    (metis fst_conv)

lemma data_new_signature [simp]: "dat_signature (data_new E n d p) = p"
  by (simp add: data_new_def)

section \<open>Invariants in general\<close>

lemma dthen_pres: "P (fst r) \<Longrightarrow> (\<And>s. P s \<Longrightarrow> P (fst (f s))) \<Longrightarrow> P (fst (dthen r f))"
  by (cases r) (auto simp: dthen_def split: prod.splits, metis fst_conv)

lemma dseq_pres: "P (fst r) \<Longrightarrow> (\<And>s. P s \<Longrightarrow> P (fst (f s))) \<Longrightarrow> P (fst (dseq r f))"
  by (cases r) (auto simp: dseq_def split: prod.splits, metis fst_conv)

text \<open>The states of a daemon: built, given media and peers, run for any number of turns, and used through its
  other public methods. \<open>D\<close> holds the packets that the program around the daemon publishes itself.\<close>

inductive reachable :: "ext \<Rightarrow> bincode \<Rightarrow> 'c lru_ops \<Rightarrow> icn_data set \<Rightarrow> 'c daemon \<Rightarrow> bool" for E B L D where
  built: "keys_wf k \<Longrightarrow> reachable E B L D (daemon_new E L k)"
| medium: "reachable E B L D s \<Longrightarrow> reachable E B L D (dm_add_medium s)"
| known: "reachable E B L D s \<Longrightarrow> length a = 16 \<Longrightarrow> length k = 32 \<Longrightarrow> reachable E B L D (dm_register_peer s a k)"
| turned: "reachable E B L D s \<Longrightarrow> turn_wf t \<Longrightarrow> dm_turn E B L t s = ((s', os, r), rs) \<Longrightarrow> reachable E B L D s'"
| framed: "reachable E B L D s \<Longrightarrow> length a = 16 \<Longrightarrow> env_wf env \<Longrightarrow>
    reachable E B L D (fst (dm_handle_frame E B L env a f s))"
| connected: "reachable E B L D s \<Longrightarrow> length a = 16 \<Longrightarrow> env_wf env \<Longrightarrow>
    reachable E B L D (fst (dm_connect E B env a h s))"
| seeded: "reachable E B L D s \<Longrightarrow> length a = 16 \<Longrightarrow> reachable E B L D (fst (dm_seed_peer E a k e s))"
| published: "reachable E B L D s \<Longrightarrow> d \<in> D \<Longrightarrow> reachable E B L D (dm_publish L now d s)"
| routed: "reachable E B L D s \<Longrightarrow> reachable E B L D (dm_add_route n g c s)"

locale daemon_invariant =
  fixes E :: ext and B :: bincode and L :: "'c lru_ops" and D :: "icn_data set" and P :: "'c daemon \<Rightarrow> bool"
  assumes requests: "P s \<Longrightarrow> P (s\<lparr>dm_pending_path_requests := x\<rparr>)"
    and router: "P s \<Longrightarrow> P (s\<lparr>dm_router := r\<rparr>)"
    and sequence: "P s \<Longrightarrow> P (s\<lparr>dm_announce_seq := n\<rparr>)"
    and resources: "P s \<Longrightarrow> P (s\<lparr>dm_incoming_resources := m\<rparr>)"
    and media: "P s \<Longrightarrow> P (dm_add_medium s)"
    and peer: "P s \<Longrightarrow> length a = 16 \<Longrightarrow> length k = 32 \<Longrightarrow> P (dm_register_peer s a k)"
    and announce: "P s \<Longrightarrow> length src = 16 \<Longrightarrow> P (fst (dm_handle_announce E env src p s))"
    and connect: "P s \<Longrightarrow> length a = 16 \<Longrightarrow> env_wf env \<Longrightarrow> P (fst (dm_connect E B env a h s))"
    and linkrequest: "P s \<Longrightarrow> length src = 16 \<Longrightarrow> env_wf env \<Longrightarrow> P (fst (dm_handle_linkrequest E B env src p s))"
    and link_proof: "P s \<Longrightarrow> length src = 16 \<Longrightarrow> env_wf env \<Longrightarrow> packet_wf p \<Longrightarrow> P (fst (dm_handle_proof E B env src p s))"
    and channel: "P s \<Longrightarrow> dm_channels s a = Some c \<Longrightarrow> link_evolves E (ch_link c) (ch_link c') \<Longrightarrow> P (dm_set_channel a c' s)"
    and drop: "P s \<Longrightarrow> P (s\<lparr>dm_channels := (\<lambda>a. if a \<in> A then None else dm_channels s a)\<rparr>)"
    and receive: "P s \<Longrightarrow> P (s\<lparr>dm_forwarder := fst (fw_receive_data E L fenv (dm_forwarder s) d 0)\<rparr>)"
    and express: "P s \<Longrightarrow> P (s\<lparr>dm_forwarder := fst (fw_express E L fenv (dm_forwarder s) i 0)\<rparr>)"
    and publish: "P s \<Longrightarrow> dat_signature d = dummy_proof \<or> d \<in> D \<Longrightarrow> P (dm_publish L now d s)"
    and route: "P s \<Longrightarrow> P (dm_add_route pre g co s)"
begin

lemma send_to: "P s \<Longrightarrow> P (fst (dm_send_to B env a f s))"
  using dm_send_to_state [of B env a f s] requests by metis

lemma path_request_msg: "P s \<Longrightarrow> P (fst (dm_handle_path_request_msg E B env src p s))"
  by (auto simp: dm_handle_path_request_msg_def Let_def send_to split: option.splits)

lemma path_reply_msg: "P s \<Longrightarrow> P (fst (dm_handle_path_reply_msg E B env src p s))"
  by (auto simp: dm_handle_path_reply_msg_def Let_def send_to requests router split: option.splits prod.splits)

lemma receive_icn: "P s \<Longrightarrow> P (fst (dm_receive_icn E L fenv d s))"
  using receive [of s fenv d] by (simp add: dm_receive_icn_def split_beta)

lemma answer_interest: "P s \<Longrightarrow> P (fst (dm_answer_interest E B L env fenv src i s))"
  using express [of s fenv i] by (cases "fw_express E L fenv (dm_forwarder s) i 0")
    (auto simp: dm_answer_interest_def Let_def send_to split: fw_outcome.split sum.split option.split)

lemma icn: "P s \<Longrightarrow> P (fst (dm_icn E B L env fenv src frame s))"
  by (simp add: dm_icn_def receive_icn answer_interest split: option.split sum.split)

lemma segment: "P s \<Longrightarrow> P (fst (dm_segment E L now seg s))"
  by (auto simp: dm_segment_def Let_def split: option.splits sum.splits bool.splits intro!: resources publish simp: resource_data_def)

lemma message: "P s \<Longrightarrow> P (fst (dm_message E B L env fenv src msg s))"
  by (auto simp: dm_message_def split: option.splits intro!: segment resources icn)

lemma messages: "P s \<Longrightarrow> P (fst (dm_messages E B L env n src msgs s))"
proof (induction msgs arbitrary: n s)
  case (Cons m ms)
  show ?case unfolding dm_messages.simps
    by (rule dthen_pres [where P = P]) (simp_all add: Cons message)
qed simp

lemma link_data: "P s \<Longrightarrow> P (fst (dm_handle_link_data E B L env src p s))"
proof (cases "dm_channels s src")
  case (Some c)
  assume P: "P s"
  note ch = channel [OF P Some]
  obtain c1 r where d: "channel_deliver E (de_now env) p c = (c1, r)" by (cases "channel_deliver E (de_now env) p c")
  have "link_evolves E (ch_link c) (ch_link c1)" using channel_deliver_evolves [of E c "de_now env" p] by (simp add: d)
  then have 1: "P (dm_set_channel src c1 s)" "P (dm_set_channel src (c1\<lparr>ch_ready := []\<rparr>) s)"
    by (simp_all add: ch)
  have 2: "P (dm_set_channel src (c\<lparr>ch_link := fst (link_deliver E (de_now env) p (ch_link c))\<rparr>) s)"
    "P (dm_set_channel src (c\<lparr>ch_link := link_set_rtt r' (ch_link c)\<rparr>) s)"
    "P (dm_set_channel src (c\<lparr>ch_link := link_receive_ratchet E k (ch_link c)\<rparr>) s)" for r' k
    by (simp_all add: ch link_deliver_evolves link_receive_ratchet_evolves)
  show ?thesis using P by (simp add: dm_handle_link_data_def Some d 1 2 messages split: sum.split)
qed (simp add: dm_handle_link_data_def)

lemma frame:
  assumes "P s" and "length src = 16" and "env_wf env"
  shows "P (fst (dm_handle_frame E B L env src f s))"
  using assms packet_enc_dec [of f]
  by (auto simp: dm_handle_frame_def dm_handle_icn_frame_def split: sum.splits
      intro!: announce link_proof linkrequest link_data path_request_msg path_reply_msg icn)

lemma frames:
  "P s \<Longrightarrow> \<forall>(env, src, f) \<in> set fs. env_wf env \<and> length src = 16 \<Longrightarrow> P (fst (dm_frames E B L fs s))"
proof (induction fs arbitrary: s)
  case (Cons x fs)
  obtain env src f where x: "x = (env, src, f)" by (cases x)
  show ?case unfolding x dm_frames.simps
    by (rule dseq_pres [where P = P]) (use Cons x in \<open>simp_all add: frame\<close>)
qed simp

lemma send_over_link: "P s \<Longrightarrow> P (fst (dm_send_over_link E B env a d s))"
  by (auto simp: dm_send_over_link_def split: option.split sum.split intro!: send_to channel dest: channel_send_evolves)

lemma send_each: "P s \<Longrightarrow> P (fst (dm_send_each E B envs n a ms s))"
proof (induction ms arbitrary: n s)
  case (Cons m ms)
  show ?case unfolding dm_send_each.simps
    by (rule dthen_pres [where P = P]) (simp_all add: Cons send_over_link)
qed simp

lemma send_resource: "P s \<Longrightarrow> P (fst (dm_send_resource E B envs a d s))"
proof -
  assume "P s"
  moreover have "P (fst (dthen (dm_send_over_link E B (envs 0) a m s) (dm_send_each E B envs 1 a ms)))" for m ms
    by (rule dthen_pres [where P = P]) (simp_all add: \<open>P s\<close> send_over_link send_each)
  ultimately show ?thesis by (simp add: dm_send_resource_def Let_def split: option.split)
qed

lemma seed_peer: "P s \<Longrightarrow> length a = 16 \<Longrightarrow> P (fst (dm_seed_peer E a k e s))"
  by (simp add: dm_seed_peer_def peer split: sum.split)

lemma fst_replied [simp]: "fst (replied r) = fst r"
  by (cases r) (simp add: replied_def)

lemma command: "P s \<Longrightarrow> \<forall>n. env_wf (envs n) \<Longrightarrow> command_wf cmd \<Longrightarrow> P (fst (dm_command E B L envs cmd s))"
  by (cases cmd) (auto simp: send_to connect send_over_link send_resource seed_peer publish split: sum.split)

lemma commands:
  "P s \<Longrightarrow> \<forall>(envs, cmd) \<in> set cmds. (\<forall>n. env_wf (envs n)) \<and> command_wf cmd \<Longrightarrow>
     P (fst (fst (dm_commands E B L cmds s)))"
proof (induction cmds arbitrary: s)
  case (Cons x cmds)
  obtain envs cmd where x: "x = (envs, cmd)" by (cases x)
  obtain s1 os r where c: "dm_command E B L envs cmd s = (s1, os, r)" by (metis prod_cases3)
  have "P s1" using command [of s envs cmd] Cons.prems by (simp add: x c)
  then show ?case using Cons.IH [of s1] Cons.prems by (auto simp: x c split: option.split prod.split)
qed simp

lemma monitor: "P s \<Longrightarrow> P (fst (dm_monitor env s))"
  by (simp add: dm_monitor_def Let_def drop del: set_filter)

lemma ratchets: "P s \<Longrightarrow> P (fst (dm_ratchets E as s))"
proof (induction as arbitrary: s)
  case (Cons a as)
  show ?case
  proof (cases "dm_channels s a")
    case (Some c)
    show ?thesis
    proof (cases "link_send_ratchet E a (ch_link c)")
      case l: (Some x)
      obtain l p where x: "x = (l, p)" by (cases x)
      have "P (dm_set_channel a (c\<lparr>ch_link := l\<rparr>) s)"
        using channel [OF Cons.prems Some] link_send_ratchet_evolves l x by simp
      from Cons.IH [OF this] show ?thesis by (simp add: Some l x split_beta)
    qed (simp add: Some Cons)
  qed (simp add: Cons)
qed simp

lemma send_list: "P s \<Longrightarrow> P (fst (dm_send_list B envs n xs s))"
proof (induction xs arbitrary: n s)
  case (Cons x xs)
  obtain a d where x: "x = (a, d)" by (cases x)
  show ?case unfolding x dm_send_list.simps
    by (rule dseq_pres [where P = P]) (simp_all add: Cons send_to)
qed simp

lemma maintain: "P s \<Longrightarrow> P (fst (dm_maintain E B env sends s))"
  by (simp add: dm_maintain_def split_beta send_list ratchets monitor)

theorem turn:
  assumes "P s" and "turn_wf t"
  shows "P (fst (fst (dm_turn E B L t s)))"
proof -
  let ?r = "dseq (dm_frames E B L (tn_frames t) s) (dm_announce E (tn_draw t))"
  have "P (fst ?r)"
    by (rule dseq_pres [where P = P]) (use assms in \<open>simp_all add: frames turn_wf_def dm_announce_def Let_def sequence\<close>)
  moreover obtain s1 os x where r: "?r = (s1, os, x)" by (metis prod_cases3)
  ultimately have 1: "P s1" by simp
  obtain s2 os2 y rs where c: "dm_commands E B L (tn_commands t) s1 = ((s2, os2, y), rs)" by (metis prod.exhaust)
  have 2: "P s2" using commands [OF 1, of "tn_commands t"] assms(2) by (simp add: c turn_wf_def)
  have "P (fst (dseq (s2, os @ os2, y) (dm_maintain E B (tn_env t) (tn_sends t))))"
    by (rule dseq_pres [where P = P]) (simp_all add: 2 maintain)
  then show ?thesis using 1 by (simp add: dm_turn_def r c)
qed

lemma reachable_inv:
  assumes "reachable E B L D s" and "\<And>k. keys_wf k \<Longrightarrow> P (daemon_new E L k)"
  shows "P s"
  using assms(1)
proof induction
  case (turned s t s' os r rs)
  then show ?case using turn [of s t] by simp
qed (simp_all add: assms(2) media peer frame connect seed_peer publish route)

end

section \<open>Well-formed states\<close>

definition link_wf :: "ext \<Rightarrow> keys \<Rightarrow> link \<Rightarrow> bool" where
  "link_wf E k l \<longleftrightarrow> lnk_local l = daemon_destination E k \<and>
     lnk_transport_id l = derive_transport_id (dst_hash (daemon_destination E k)) (lnk_remote l) \<and>
     length (lnk_remote l) = 16 \<and> length (lnk_link_id l) = 16 \<and> lnk_remote_encryption_key l = None \<and>
     lnk_config l = link_config_default \<and> lnk_keepalive_enabled l \<and>
     (\<forall>x. lnk_shared_key l = Some x \<longrightarrow> length x = 32) \<and> (\<forall>x. lnk_ratchet_priv l = Some x \<longrightarrow> length x = 32)"

definition daemon_wf :: "ext \<Rightarrow> 'c daemon \<Rightarrow> bool" where
  "daemon_wf E s \<longleftrightarrow> keys_wf (dm_keys s) \<and>
     (\<forall>a k. dm_peer_keys s a = Some k \<longrightarrow> length a = 16 \<and> length k = 32) \<and>
     (\<forall>a c. dm_channels s a = Some c \<longrightarrow>
        length a = 16 \<and> link_wf E (dm_keys s) (ch_link c) \<and> lnk_state (ch_link c) = Established) \<and>
     (\<forall>a c. dm_pending_channels s a = Some c \<longrightarrow>
        length a = 16 \<and> link_wf E (dm_keys s) (ch_link c) \<and> lnk_state (ch_link c) = Handshaking) \<and>
     (\<forall>a pl. dm_pending_links s a = Some pl \<longrightarrow> length (pl_link_id pl) = 16 \<and> length (pl_ephemeral_priv pl) = 32)"

lemma link_wf_evolves:
  "hash_ok E \<Longrightarrow> link_wf E k l \<Longrightarrow> link_evolves E l l' \<Longrightarrow> link_wf E k l'"
  by (auto simp: link_wf_def link_evolves_def length_hkdf_sha256)

lemma link_wf_new:
  "hash_ok E \<Longrightarrow> length a = 16 \<Longrightarrow> length i = 16 \<Longrightarrow> link_wf E k (link_set_link_id i (link_new now (daemon_destination E k) a))"
  "hash_ok E \<Longrightarrow> length a = 16 \<Longrightarrow> link_wf E k (link_new now (daemon_destination E k) a)"
  by (simp_all add: link_wf_def link_new_def link_with_config_def link_setters)

lemma link_wf_setters [simp]:
  "link_wf E k (link_set_state st l) = link_wf E k l"
  "link_wf E k (link_set_initiator b l) = link_wf E k l"
  "link_wf E k (link_set_remote_signing_key x l) = link_wf E k l"
  "link_wf E k (link_set_ratchet_pending_send b l) = link_wf E k l"
  "link_wf E k (link_set_establishment_cost c l) = link_wf E k l"
  "link_wf E k (link_set_rtt r l) = link_wf E k l"
  "length x = 32 \<Longrightarrow> link_wf E k l \<Longrightarrow> link_wf E k (link_set_shared_key x l)"
  "length x = 32 \<Longrightarrow> link_wf E k l \<Longrightarrow> link_wf E k (link_set_ratchet_priv x l)"
  by (simp_all add: link_wf_def link_setters)

lemma daemon_wf_new: "keys_wf k \<Longrightarrow> daemon_wf E (daemon_new E L k)"
  by (simp add: daemon_wf_def daemon_new_def)

lemma daemon_wf_upd [simp]:
  "daemon_wf E (s\<lparr>dm_pending_path_requests := x\<rparr>) = daemon_wf E s"
  "daemon_wf E (s\<lparr>dm_router := r\<rparr>) = daemon_wf E s"
  "daemon_wf E (s\<lparr>dm_announce_seq := n\<rparr>) = daemon_wf E s"
  "daemon_wf E (s\<lparr>dm_incoming_resources := m\<rparr>) = daemon_wf E s"
  "daemon_wf E (s\<lparr>dm_sent_announces := y\<rparr>) = daemon_wf E s"
  "daemon_wf E (s\<lparr>dm_forwarder := f\<rparr>) = daemon_wf E s"
  "daemon_wf E (s\<lparr>dm_media := k\<rparr>) = daemon_wf E s"
  by (simp_all add: daemon_wf_def)

lemma daemon_wf_send_to [simp]: "daemon_wf E (fst (dm_send_to B env a f s)) = daemon_wf E s"
  using dm_send_to_state [of B env a f s] by auto

lemma daemon_wf_peer:
  "daemon_wf E s \<Longrightarrow> length a = 16 \<Longrightarrow> length k = 32 \<Longrightarrow> daemon_wf E (s\<lparr>dm_peer_keys := (dm_peer_keys s)(a \<mapsto> k)\<rparr>)"
  by (auto simp: daemon_wf_def split: if_splits)

lemma daemon_wf_channel:
  "daemon_wf E s \<Longrightarrow> length a = 16 \<Longrightarrow> link_wf E (dm_keys s) (ch_link c) \<Longrightarrow> lnk_state (ch_link c) = Established \<Longrightarrow>
     daemon_wf E (s\<lparr>dm_channels := (dm_channels s)(a \<mapsto> c)\<rparr>)"
  by (auto simp: daemon_wf_def split: if_splits)

lemma daemon_wf_announce:
  assumes "hash_ok E" and "daemon_wf E s" and "length src = 16"
  shows "daemon_wf E (fst (dm_handle_announce E env src p s))"
proof -
  have "daemon_wf E (announce_register E now src p s)" for now
    using daemon_wf_peer [OF assms(2)] assms by (simp add: announce_register_def Let_def)
  then show ?thesis by (simp add: dm_handle_announce_def announce_propagate_def)
qed

lemma asking_link_wf:
  "hash_ok E \<Longrightarrow> length a = 16 \<Longrightarrow> length i = 16 \<Longrightarrow>
     link_wf E k (asking_link E env k a i) \<and> lnk_state (asking_link E env k a i) = Handshaking"
  by (simp add: asking_link_def link_wf_new) (simp add: link_setters)

lemma established_links_wf:
  assumes "hash_ok E" and "dh_ok E" and "env_wf env"
  shows "length a = 16 \<Longrightarrow> 64 \<le> length (pkt_data p) \<Longrightarrow>
      link_wf E k (answering_link E env k a key p) \<and> lnk_state (answering_link E env k a key p) = Established"
    and "link_wf E k l \<Longrightarrow> length x = 32 \<Longrightarrow>
      link_wf E k (asked_link E env l key x) \<and> lnk_state (asked_link E env l key x) = Established"
  using assms(3)
  by (simp_all add: answering_link_def asked_link_def Let_def link_wf_new link_id_length assms(1,2) dh_lengths env_wf_def)
    (simp_all add: link_setters)

lemma daemon_wf_connect:
  assumes "hash_ok E" and "daemon_wf E s" and "length a = 16" and "env_wf env"
  shows "daemon_wf E (fst (dm_connect E B env a h s))"
proof (cases "dm_channels s a = None \<and> dm_pending_channels s a = None")
  case True
  then show ?thesis using assms asking_link_wf [OF assms(1,3)]
    by (auto simp: dm_connect_fresh daemon_wf_def env_wf_def link_id_length channel_new_def split: if_splits)
next
  case False
  with assms(2) show ?thesis by (auto simp: dm_connect_def)
qed

lemma daemon_wf_linkrequest:
  assumes "hash_ok E" and "dh_ok E" and "daemon_wf E s" and "length a = 16" and "env_wf env"
  shows "daemon_wf E (fst (dm_handle_linkrequest E B env a p s))"
proof (cases "64 \<le> length (pkt_data p) \<and> dm_peer_keys s a \<noteq> None")
  case True
  then obtain key where key: "dm_peer_keys s a = Some key" by auto
  have "daemon_wf E (s\<lparr>dm_channels := (dm_channels s)(a \<mapsto> channel_new (answering_link E env (dm_keys s) a key p))\<rparr>)"
    using established_links_wf(1) [OF assms(1,2,5,4)] True assms(3,4)
    by (intro daemon_wf_channel) (simp_all add: channel_new_def)
  moreover have "\<exists>f. dm_handle_linkrequest E B env a p s = dm_send_to B env a f
      (s\<lparr>dm_channels := (dm_channels s)(a \<mapsto> channel_new (answering_link E env (dm_keys s) a key p))\<rparr>)"
    using True key by (auto simp: dm_handle_linkrequest_def answering_link_def Let_def link_setters link_new_def link_with_config_def)
  ultimately show ?thesis by auto
next
  case False
  with assms(3) show ?thesis by (auto simp: dm_handle_linkrequest_def split: option.split)
qed

lemma daemon_wf_pending:
  "daemon_wf E s \<Longrightarrow> daemon_wf E (s\<lparr>dm_pending_channels := (dm_pending_channels s)(a := None)\<rparr>)"
  "daemon_wf E s \<Longrightarrow> daemon_wf E (s\<lparr>dm_pending_links := (dm_pending_links s)(a := None)\<rparr>)"
  "daemon_wf E s \<Longrightarrow> dm_pending_channels s b = Some c \<Longrightarrow> length a = 16 \<Longrightarrow>
     daemon_wf E (s\<lparr>dm_pending_channels := (dm_pending_channels s)(b := None, a \<mapsto> c)\<rparr>)"
  by (auto simp: daemon_wf_def split: if_splits)

lemma daemon_wf_lrproof:
  assumes "hash_ok E" and "dh_ok E" and "daemon_wf E s" and "length b = 16" and "env_wf env"
  shows "daemon_wf E (fst (dm_lrproof E B env b p s))"
proof (cases E B env b p s rule: dm_lrproof_cases)
  case (moved a ch)
  then show ?thesis using daemon_wf_pending(3) assms(3,4) by simp
next
  case (refused a k)
  then show ?thesis using daemon_wf_pending(2) [OF daemon_wf_pending(1) [OF assms(3), of a], of k] by simp
next
  case (established a ch k pl key)
  let ?s = "s\<lparr>dm_pending_channels := (dm_pending_channels s)(a := None), dm_pending_links := (dm_pending_links s)(k := None)\<rparr>"
  let ?x = "x25519_dh E (pl_ephemeral_priv pl) (slice 64 96 (pkt_data p))"
  have w: "daemon_wf E ?s" using daemon_wf_pending(2) [OF daemon_wf_pending(1) [OF assms(3)]] by simp
  have x: "length ?x = 32" using assms(2,3) established(2,4) by (auto simp: daemon_wf_def dh_lengths)
  have ch: "link_wf E (dm_keys s) (ch_link ch)" "length a = 16" using assms(3) established(1) by (auto simp: daemon_wf_def)
  note est = established_links_wf(2) [OF assms(1,2,5) ch(1) x, of key]
  have "daemon_wf E (?s\<lparr>dm_pending_path_requests := y,
      dm_channels := (dm_channels ?s)(a \<mapsto> ch\<lparr>ch_link := asked_link E env (ch_link ch) key ?x\<rparr>)\<rparr>)" for y
    using daemon_wf_channel [where s = "?s\<lparr>dm_pending_path_requests := y\<rparr>" and E = E and a = a] w est ch by simp
  then show ?thesis using lrproof_established_state [of E B env b a ch key ?x ?s] by (auto simp: established(6))
qed (use assms(3) daemon_wf_pending in simp_all)

lemma daemon_wf_proof:
  assumes "hash_ok E" and "dh_ok E" and "daemon_wf E s" and "length b = 16" and "env_wf env" and "packet_wf p"
  shows "daemon_wf E (fst (dm_handle_proof E B env b p s))"
proof (cases "proof_sender E env b p s")
  case (Some a)
  then have a: "length a = 16" using assms(3,4)
    by (auto simp: proof_sender_def find_Some_iff channel_with_tid_def daemon_wf_def split: if_splits option.splits)
  have "link_wf E k (link_set_state Established (link_new now (daemon_destination E k) a))"
    "lnk_state (link_set_state Established l) = Established" for now k l
    using link_wf_new(2) [OF assms(1) a] by simp (simp add: link_setters)
  then have lp: "daemon_wf E (fst (dm_linkproof E B env a p s))"
    using daemon_wf_channel [OF assms(3) a] assms(3)
    by (simp add: dm_linkproof_def Let_def channel_new_def split: option.split sum.split)
  show ?thesis using lp daemon_wf_lrproof [OF assms(1-3) a assms(5)] assms(3) by (simp add: dm_handle_proof_def Some)
qed (simp add: dm_handle_proof_def assms(3))

lemma daemon_wf_drop:
  "daemon_wf E s \<Longrightarrow> daemon_wf E (s\<lparr>dm_channels := (\<lambda>a. if a \<in> A then None else dm_channels s a)\<rparr>)"
  by (auto simp: daemon_wf_def split: if_splits)

interpretation wf_inv: daemon_invariant E B L D "\<lambda>s. hash_ok E \<longrightarrow> dh_ok E \<longrightarrow> daemon_wf E s"
  for E B L D
proof (unfold_locales, goal_cases)
  case (11 s a c c')
  then show ?case using link_wf_evolves [of E "dm_keys s" "ch_link c" "ch_link c'"]
    by (auto simp: dm_set_channel_def daemon_wf_def link_evolves_def)
qed (auto simp: dm_add_medium_def dm_register_peer_def dm_publish_def dm_add_route_def intro: daemon_wf_peer daemon_wf_announce
    daemon_wf_connect daemon_wf_linkrequest daemon_wf_proof daemon_wf_drop)

text \<open>
  The state of a daemon is well-formed at all times: addresses, keys and link ids have their
  lengths, every link in the table of links is established and every pending one is waiting for its
  proof, and the transport id of each is the one derived from the daemon's own destination and the
  peer's address.
\<close>

theorem daemon_well_formed:
  assumes "hash_ok E" and "dh_ok E" and "reachable E B L D s"
  shows "daemon_wf E s"
  using wf_inv.reachable_inv [OF assms(3)] assms(1,2) daemon_wf_new by blast

definition demo_turn :: turn where
  "demo_turn = \<lparr>tn_frames = [(denv_demo 5, replicate 16 2, packet_to_bytes
       (build_announce_packet ext_toy (demo_keys 1) (replicate 5 7) 1700000000))],
     tn_draw = (\<lambda>_. (replicate 5 8, 1700000001)),
     tn_commands = [(\<lambda>_. denv_demo 6, Connect (replicate 16 2) None)],
     tn_env = denv_demo 7, tn_sends = (\<lambda>_. denv_demo 8)\<rparr>"

lemma demo_reachable: "reachable ext_toy B lru_list D (fst (fst (dm_turn ext_toy B lru_list demo_turn (demo_daemon 3 5))))"
proof -
  have "reachable ext_toy B lru_list D (demo_daemon 3 5)"
    unfolding demo_daemon_def
    by (intro reachable.known reachable.medium reachable.built) (simp_all add: keys_lengths)
  moreover have "turn_wf demo_turn" by (simp add: turn_wf_def demo_turn_def env_wf_def denv_demo_def)
  ultimately show ?thesis by (metis reachable.turned prod.collapse)
qed

theorem daemon_well_formed_witness:
  "\<forall>B. daemon_wf ext_toy (fst (fst (dm_turn ext_toy B lru_list demo_turn (demo_daemon 3 5))))"
  using daemon_well_formed [OF _ _ demo_reachable] by simp

section \<open>What the daemon knows and serves\<close>

text \<open>A forwarder without keys, whose cache holds only packets of one kind.\<close>

definition fw_unkeyed :: "'c lru_ops \<Rightarrow> (icn_data \<Rightarrow> bool) \<Rightarrow> 'c forwarder \<Rightarrow> bool" where
  "fw_unkeyed L Q s \<longleftrightarrow> fw_key_store s = Map.empty \<and> (\<forall>n d. cs_map L (fw_cs s) n = Some d \<longrightarrow> Q d)"

lemma fw_unkeyed_verify: "fw_unkeyed L Q s \<Longrightarrow> fw_verify_data E s d \<noteq> Some (Inr u)"
  by (auto simp: fw_unkeyed_def fw_verify_data_def split: option.splits)

lemma fw_unkeyed_updates [simp]:
  "fw_unkeyed L Q (fw_satisfy s n) = fw_unkeyed L Q s"
  "fw_unkeyed L Q (fw_finish later s n r) = fw_unkeyed L Q s"
  "fw_unkeyed L Q (s\<lparr>fw_pit := t\<rparr>) = fw_unkeyed L Q s"
  "fw_unkeyed L Q (s\<lparr>fw_notifier := p\<rparr>) = fw_unkeyed L Q s"
  by (simp_all add: fw_unkeyed_def fw_satisfy_def fw_finish_def)

text \<open>A step keeps such a forwarder as it is and returns only packets of that kind.\<close>

definition unkeyed_ok :: "'c lru_ops \<Rightarrow> (icn_data \<Rightarrow> bool) \<Rightarrow> 'c forwarder \<times> fw_outcome \<Rightarrow> bool" where
  "unkeyed_ok L Q r \<longleftrightarrow> fw_unkeyed L Q (fst r) \<and> (\<forall>d. snd r = Done (Inr (Some d)) \<longrightarrow> Q d)"

lemma fw_unkeyed_accept: "fw_unkeyed L Q s \<Longrightarrow> unkeyed_ok L Q (fw_accept E L later s n d)"
  using fw_unkeyed_verify [of L Q s E d]
  by (cases "fw_verify_data E s d"; cases "the (fw_verify_data E s d)") (simp_all add: fw_accept_def unkeyed_ok_def)

lemma fw_unkeyed_forward:
  assumes "fw_unkeyed L Q s"
  shows "unkeyed_ok L Q (fw_forward_and_wait E L env s i f g)" "unkeyed_ok L Q (fw_multicast_and_wait E L env s i f gs)"
proof -
  have acc: "unkeyed_ok L Q (fw_accept E L later (s\<lparr>fw_pit := t\<rparr>) n d)" for later t n d
    by (rule fw_unkeyed_accept) (simp add: assms)
  show "unkeyed_ok L Q (fw_forward_and_wait E L env s i f g)"
    unfolding fw_forward_and_wait_def Let_def
    by (simp split: option.split sum.split awaited.split add: acc assms) (simp add: unkeyed_ok_def assms)
  show "unkeyed_ok L Q (fw_multicast_and_wait E L env s i f gs)"
    unfolding fw_multicast_and_wait_def Let_def
    by (simp split: option.split awaited.split add: acc assms) (simp add: unkeyed_ok_def assms)
qed

lemma fw_unkeyed_express:
  assumes "lru_ok L" and "fw_unkeyed L Q s"
  shows "unkeyed_ok L Q (fw_express E L env s i f)"
proof (cases "pit_check_loop (fw_pit s) f (int_nonce i)")
  case True
  then show ?thesis using assms by (simp add: fw_express_def unkeyed_ok_def)
next
  case False
  let ?s = "s\<lparr>fw_pit := pit_record_nonce (env_now env) (fw_pit s) f (int_nonce i)\<rparr>"
  obtain cs hit where hit: "(cs, hit) = (if int_can_be_prefix i then cs_get_prefix L (fw_cs ?s) (int_name i)
      else cs_get L (fw_cs ?s) (int_name i))" by (metis surj_pair)
  have u: "fw_unkeyed L Q (?s\<lparr>fw_cs := cs\<rparr>)" and d: "hit = Some d \<Longrightarrow> Q d" for d
    using fw_cs_hit [OF assms(1) hit] assms(2) by (auto simp: fw_unkeyed_def)
  note fwd = fw_unkeyed_forward [OF u]
  have pairs: "unkeyed_ok L Q (?s\<lparr>fw_cs := cs, fw_notifier := w\<rparr>, Hangs)" "unkeyed_ok L Q (?s\<lparr>fw_cs := cs\<rparr>, Panicked)"
    "unkeyed_ok L Q (?s\<lparr>fw_cs := cs\<rparr>, Done (Inr None))" "hit = Some d \<Longrightarrow> unkeyed_ok L Q (?s\<lparr>fw_cs := cs\<rparr>, Done (Inr (Some d)))" for w d
    using u d by (simp_all add: unkeyed_ok_def)
  show ?thesis
    unfolding fw_express_def Let_def if_not_P [OF False] hit [symmetric] prod.case
    by (auto intro: fwd pairs split: StrategyDecision.split option.split)
qed

lemma fw_unkeyed_receive:
  "fw_unkeyed L Q s \<Longrightarrow> \<exists>r. fw_receive_data E L env s d f = (s, r) \<and> (\<forall>x. r \<noteq> Done (Inr x)) \<and> r \<noteq> Dropped \<and> r \<noteq> Hangs"
  using fw_unkeyed_verify [of L Q s E d]
  by (cases "fw_verify_data E s d"; cases "the (fw_verify_data E s d)") (simp_all add: fw_receive_data_def)

lemma fw_unkeyed_cache:
  assumes "lru_ok L" and "fw_unkeyed L Q s" and "Q d"
  shows "fw_unkeyed L Q (fw_cache L now s d)"
  using assms(2,3) cs_insert_map(1,2) [OF assms(1), where now = now and s = "fw_cs s" and n = "dat_name d" and d = d]
  unfolding fw_unkeyed_def fw_cache_def by (simp, metis option.inject)

abbreviation (input) unsigned :: "icn_data set \<Rightarrow> icn_data \<Rightarrow> bool" where
  "unsigned D d \<equiv> dat_signature d = dummy_proof \<or> d \<in> D"

lemma dm_forwarder_handlers [simp]:
  "dm_forwarder (fst (dm_handle_announce E env src p s)) = dm_forwarder s"
  "dm_forwarder (fst (dm_connect E B env a h s)) = dm_forwarder s"
  "dm_forwarder (fst (dm_handle_linkrequest E B env src p s)) = dm_forwarder s"
  "dm_forwarder (fst (dm_handle_proof E B env src p s)) = dm_forwarder s"
proof -
  show "dm_forwarder (fst (dm_handle_proof E B env src p s)) = dm_forwarder s"
  proof (cases "proof_sender E env src p s")
    case (Some b)
    have "dm_forwarder (fst (dm_lrproof E B env b p s)) = dm_forwarder s"
    proof (cases E B env b p s rule: dm_lrproof_cases)
      case (established a ch k pl key)
      let ?x = "x25519_dh E (pl_ephemeral_priv pl) (slice 64 96 (pkt_data p))"
      let ?s = "s\<lparr>dm_pending_channels := (dm_pending_channels s)(a := None), dm_pending_links := (dm_pending_links s)(k := None)\<rparr>"
      show ?thesis using lrproof_established_state [of E B env b a ch key ?x ?s] by (auto simp: established(6))
    qed simp_all
    then show ?thesis
      by (simp add: dm_handle_proof_def Some dm_linkproof_def Let_def split: option.split sum.split)
  qed (simp add: dm_handle_proof_def)
qed (simp_all add: dm_handle_announce_def announce_propagate_def dm_connect_def dm_handle_linkrequest_def Let_def split: option.split)

interpretation served: daemon_invariant E B L D "\<lambda>s. lru_ok L \<longrightarrow> fw_unkeyed L (unsigned D) (dm_forwarder s)"
  for E B L D
proof (unfold_locales, goal_cases)
  case (13 s fenv d)
  then show ?case using fw_unkeyed_receive [of L "unsigned D" "dm_forwarder s" E fenv d 0] by auto
next
  case (14 s fenv i)
  then show ?case using fw_unkeyed_express [of L "unsigned D" "dm_forwarder s" E fenv i 0] by (simp add: unkeyed_ok_def)
next
  case (15 s d now)
  then show ?case using fw_unkeyed_cache [of L "unsigned D" "dm_forwarder s" d now] by (simp add: dm_publish_def)
qed (auto simp: dm_add_medium_def dm_register_peer_def dm_set_channel_def dm_add_route_def fw_add_route_def fw_unkeyed_def)

text \<open>C34. 
  The daemon never registers the keys of a producer with its forwarder. So an ICN data packet that arrives is
  never accepted and has no effect on the state: if the first component of its name has 32 bytes it is refused
  as of an unknown producer, otherwise the daemon panics. And whatever the daemon answers to an interest is
  under the all-zero proof, as the content published through its API or received as a resource is, or was
  handed to its method \<open>publish\<close> by the program it is part of (the shipped one never does that).
\<close>

theorem daemon_serves_unsigned:
  assumes "lru_ok L" and "reachable E B L D s"
  shows "(data_from_bytes f = Some (Inr d) \<longrightarrow>
      dm_handle_icn_frame E B L env src f s = (s, [], case name_producer_hash (dat_name d) of
         None \<Rightarrow> RPanic | Some h \<Rightarrow> RErr (DeIcn (''unknown producer: ['' @ debug_items h @ '']'')))) \<and>
    (Product_Type.snd (fw_express E L fenv (dm_forwarder s) i 0) = Done (Inr (Some d)) \<longrightarrow>
      dat_signature d = dummy_proof \<or> d \<in> D)"
proof -
  have "fw_unkeyed L (unsigned D) (dm_forwarder (daemon_new E L k))" for k
    using assms(1) by (simp add: daemon_new_def fw_unkeyed_def forwarder_new_def cs_new_wf)
  then have u: "fw_unkeyed L (unsigned D) (dm_forwarder s)"
    using served.reachable_inv [OF assms(2)] assms(1) by blast
  then have "dm_receive_icn E L (de_fw env 0) d s = (s, [], case name_producer_hash (dat_name d) of
      None \<Rightarrow> RPanic | Some h \<Rightarrow> RErr (DeIcn (''unknown producer: ['' @ debug_items h @ '']'')))"
    by (simp add: dm_receive_icn_def fw_receive_data_def fw_verify_data_def fw_unkeyed_def split: option.split)
  then show ?thesis using fw_unkeyed_express [OF assms(1) u, of E fenv i 0]
    by (auto simp: dm_handle_icn_frame_def dm_icn_def unkeyed_ok_def)
qed

text \<open>A daemon that has run a turn and was given one packet to publish: it refuses data of a producer and
  panics on data without one.\<close>

definition short_data :: icn_data where
  "short_data = data_new ext_toy \<lparr>nm_components = [[97]], nm_content_hash = None\<rparr> [1, 2, 3] dummy_proof"

theorem daemon_serves_unsigned_witness:
  "\<forall>B. let d = data_new ext_toy (name_new (replicate 32 1) [[97]]) [1, 2, 3] dummy_proof;
           s = dm_publish lru_list 4 d (fst (fst (dm_turn ext_toy B lru_list demo_turn (demo_daemon 3 5))))
       in dm_handle_icn_frame ext_toy B lru_list (denv_demo 9) (replicate 16 2) (data_to_bytes d) s =
            (s, [], RErr (DeIcn (''unknown producer: ['' @ debug_items (replicate 32 1) @ '']''))) \<and>
          dm_handle_icn_frame ext_toy B lru_list (denv_demo 9) (replicate 16 2) (data_to_bytes short_data) s = (s, [], RPanic)"
proof
  fix B
  let ?d = "data_new ext_toy (name_new (replicate 32 1) [[97]]) [1, 2, 3] dummy_proof"
  let ?s = "dm_publish lru_list 4 ?d (fst (fst (dm_turn ext_toy B lru_list demo_turn (demo_daemon 3 5))))"
  have s: "reachable ext_toy B lru_list {?d} ?s" by (intro reachable.published demo_reachable) simp
  have "data_wf ?d" "data_wf short_data"
    by (simp_all add: data_wf_def name_wf_def name_new_def MAX_COMPONENTS_def data_new_def dummy_proof_def
      metadata_wf_def proof_wf_def hash_lengths short_data_def)
  then have "data_from_bytes (data_to_bytes ?d) = Some (Inr ?d)"
    "data_from_bytes (data_to_bytes short_data) = Some (Inr short_data)"
    using data_dec_enc [of ?d "[]"] data_dec_enc [of short_data "[]"] by simp_all
  moreover have "name_producer_hash (dat_name ?d) = Some (replicate 32 1)" "name_producer_hash (dat_name short_data) = None"
    by (simp_all add: name_producer_hash_def data_new_def name_new_def short_data_def)
  ultimately have
    "dm_handle_icn_frame ext_toy B lru_list (denv_demo 9) (replicate 16 2) (data_to_bytes ?d) ?s =
       (?s, [], RErr (DeIcn (''unknown producer: ['' @ debug_items (replicate 32 1) @ '']'')))"
    "dm_handle_icn_frame ext_toy B lru_list (denv_demo 9) (replicate 16 2) (data_to_bytes short_data) ?s = (?s, [], RPanic)"
    using daemon_serves_unsigned [OF lru_list_ok s, where f = "data_to_bytes ?d" and d = ?d]
      daemon_serves_unsigned [OF lru_list_ok s, where f = "data_to_bytes short_data" and d = short_data]
    by simp_all
  then show "let d = ?d; s = dm_publish lru_list 4 d (fst (fst (dm_turn ext_toy B lru_list demo_turn (demo_daemon 3 5))))
    in dm_handle_icn_frame ext_toy B lru_list (denv_demo 9) (replicate 16 2) (data_to_bytes d) s =
         (s, [], RErr (DeIcn (''unknown producer: ['' @ debug_items (replicate 32 1) @ '']''))) \<and>
       dm_handle_icn_frame ext_toy B lru_list (denv_demo 9) (replicate 16 2) (data_to_bytes short_data) s = (s, [], RPanic)"
    unfolding Let_def by blast
qed

end
