(* ===== verification/Daemon_Carry.thy ===== *)
theory Daemon_Carry
  imports Daemon_Inv
begin

text \<open>
  What the links of two daemons carry (\<open>crates/daemon/src/lib.rs\<close> over \<open>crates/transport\<close> and
  \<open>crates/channel\<close>): data, keepalives, ratchet keys and resources.
\<close>

section \<open>Data\<close>

lemma channel_send_packet:
  "channel_send E now eph iv d c = Some (c', Inr p) \<Longrightarrow> \<exists>payload. p = link_packet (ch_link c) FLAG_UNSET DATA NONE payload"
  by (auto simp: channel_send_def channel_send_typed_def link_send_def Let_def split: option.splits if_splits prod.splits sum.splits)

lemma try_media_Some: "try_media env a data ms = Some x \<Longrightarrow> \<exists>m. x = OutSend m a data"
  by (induction ms) (auto split: if_splits)

lemma dm_send_to_frames:
  "dm_send_to B env a data s = (s', os, r) \<Longrightarrow> OutSend m x f \<in> set os \<Longrightarrow> f = data"
  by (auto simp: dm_send_to_def Let_def dest!: try_media_Some split: option.splits if_splits)

lemma length_derive_transport_id [simp]: "length (derive_transport_id a b) = 16"
  by (simp add: derive_transport_id_def)

lemma daemon_packet_wf:
  "link_wf E k l \<Longrightarrow> packet_wf (link_packet l FLAG_UNSET DATA c d)"
  "link_wf E k l \<Longrightarrow> length a = 16 \<Longrightarrow> packet_wf ((link_packet l FLAG_SET DATA c d)\<lparr>pkt_destination_hash := a\<rparr>)"
  "link_wf E k l \<Longrightarrow> length a = 16 \<Longrightarrow> packet_wf ((link_packet l FLAG_UNSET DATA c d)\<lparr>pkt_destination_hash := a\<rparr>)"
  by (simp_all add: packet_wf_def link_packet_def link_wf_def)

lemma link_packet_fields [simp]:
  "pkt_packet_type (link_packet l g DATA c d) = DATA" "pkt_header_type (link_packet l g t c d) = HEADER_2"
  "pkt_context (link_packet l g t c d) = c" "pkt_data (link_packet l g t c d) = d"
  "pkt_transport_id (link_packet l g t c d) = Some (lnk_transport_id l)"
  by (simp_all add: link_packet_def)

lemma dm_set_channel_same: "dm_channels t a = Some c \<Longrightarrow> dm_set_channel a c t = t"
  by (simp add: dm_set_channel_def fun_upd_idem)

text \<open>C24. 
  Two daemons that completed a handshake cannot talk: the transport id that each gives its link is
  made of its own destination hash and the other's address, the two differ at the two ends, and the
  receiver compares them. Every frame sent over the link is refused with a mismatch of transport
  ids, and leaves the receiver as it was. (The links of the two ends are well-formed, as those of all
  reachable daemons; equality of the two ids would be a coincidence of hashes.)
\<close>

theorem daemon_link_deaf:
  assumes "daemon_wf E s" and "daemon_wf E t"
    and "dm_channels s b = Some ca" and "lnk_remote (ch_link ca) = b"
    and "dm_channels t a = Some cb" and "lnk_remote (ch_link cb) = a"
    and "derive_transport_id (compute_hash E (dm_keys s) ''daemon'' []) b \<noteq>
      derive_transport_id (compute_hash E (dm_keys t) ''daemon'' []) a"
    and "dm_send_over_link E B env b data s = (s', os, r)" and "OutSend m x f \<in> set os"
  shows "dm_handle_frame E B L env' a f t =
    (t, [], RErr (DeChannel (ChTransport (TOther ''transport ID mismatch''))))"
proof -
  from assms(3,8,9) obtain ca' p where send: "channel_send E (de_now env) (de_ephemeral env) (de_iv env) data ca = Some (ca', Inr p)"
    and "dm_send_to B env b (packet_to_bytes p) (dm_set_channel b ca' s) = (s', os, r)"
    by (auto simp: dm_send_over_link_def split: option.splits sum.splits)
  then have f: "f = packet_to_bytes p" using dm_send_to_frames assms(9) by blast
  obtain payload where p: "p = link_packet (ch_link ca) FLAG_UNSET DATA NONE payload"
    using channel_send_packet [OF send] by blast
  have wf: "link_wf E (dm_keys s) (ch_link ca)" "link_wf E (dm_keys t) (ch_link cb)" "lnk_state (ch_link cb) = Established"
    using assms(1,2,3,5) by (auto simp: daemon_wf_def)
  have "lnk_transport_id (ch_link ca) \<noteq> lnk_transport_id (ch_link cb)"
    using wf(1,2) assms(4,6,7) by (simp add: link_wf_def daemon_destination_def destination_singleton_def)
  then have "channel_deliver E now p cb = (cb, Inl (ChTransport (TOther ''transport ID mismatch'')))" for now
    using wf(3) by (simp add: channel_deliver_def link_deliver_def p)
  moreover have "dm_handle_frame E B L env' a f t = dm_handle_link_data E B L env' a p t"
    using daemon_packet_wf(1) [OF wf(1)] by (simp add: f p dm_handle_frame_packet)
  ultimately show ?thesis
    by (simp add: dm_handle_link_data_def assms(5) dm_set_channel_same) (simp add: p)
qed

text \<open>An established link of a daemon, for examples.\<close>

definition demo_linked :: "u8 \<Rightarrow> u8 \<Rightarrow> (nat \<times> (name \<times> cached_data) list) daemon" where
  "demo_linked m n = dm_set_channel (replicate 16 (n + 1)) (channel_new (link_set_state Established
     (link_new 0 (daemon_destination ext_toy (demo_keys m)) (replicate 16 (n + 1))))) (demo_daemon m n)"

lemma demo_linked_wf: "daemon_wf ext_toy (demo_linked m n)"
proof -
  have w: "daemon_wf ext_toy (demo_daemon m n)"
    by (auto simp: daemon_wf_def keys_lengths demo_daemon_def dm_register_peer_def dm_add_medium_def daemon_new_def
        split: if_splits)
  show ?thesis unfolding demo_linked_def dm_set_channel_def
    by (rule daemon_wf_channel) (simp_all add: w channel_new_def link_wf_new, simp add: link_setters)
qed

lemma demo_linked_facts:
  "dm_channels (demo_linked m n) (replicate 16 (n + 1)) = Some (channel_new (link_set_state Established
     (link_new 0 (daemon_destination ext_toy (demo_keys m)) (replicate 16 (n + 1)))))"
  "dm_keys (demo_linked m n) = demo_keys m" "reaches (denv_demo i) (demo_linked m n) a"
  by (simp_all add: demo_linked_def dm_set_channel_def)

lemma demo_hash_0: "compute_hash ext_toy (demo_keys n) ''daemon'' [] ! 0 = 100"
  by (simp add: compute_hash_def Let_def expand_name_def str_bytes_def ext_toy_def toy_fit_def)

lemma demo_tid_0: "derive_transport_id (compute_hash ext_toy (demo_keys n) ''daemon'' []) (replicate 16 x) ! 0 = 100 XOR x"
  by (simp add: derive_transport_id_def demo_hash_0)

lemma demo_tids:
  "derive_transport_id (compute_hash ext_toy (demo_keys 1) ''daemon'' []) (replicate 16 4) \<noteq>
     derive_transport_id (compute_hash ext_toy (demo_keys 3) ''daemon'' []) (replicate 16 2)" (is "?x \<noteq> ?y")
proof
  assume "?x = ?y"
  then have "?x ! 0 = ?y ! 0" by (rule arg_cong)
  then show False unfolding demo_tid_0 by simp
qed

lemma plain_channel_sends:
  assumes "lnk_state (ch_link c) = Established" and "lnk_shared_key (ch_link c) = None"
    and "lnk_remote_encryption_key (ch_link c) = None" and "lnk_config (ch_link c) = link_config_default"
    and "length d \<le> 494"
  shows "\<exists>c' p. channel_send E now eph iv d c = Some (c', Inr p)"
proof -
  have "channel_mdu c = Some 494" using assms(4) by (simp add: channel_mdu_def link_config_default_def)
  moreover have "unat (lc_mtu (lnk_config (ch_link c))) = 500" using assms(4) by (simp add: link_config_default_def)
  moreover have "length (envelope_pack \<lparr>env_message_type = t, env_sequence_number = n, env_payload = d\<rparr>) = 6 + length d" for t n
    by (simp add: envelope_pack_def)
  ultimately show ?thesis using assms
    by (simp add: channel_send_def channel_send_typed_def link_send_def link_payload_def Let_def)
qed

lemma demo_linked_sends:
  assumes "length m \<le> 494"
  shows "\<exists>s' f. dm_send_over_link ext_toy B (denv_demo i) (replicate 16 4) m (demo_linked 1 3) =
      (s', [OutSend 0 (replicate 16 4) f], ROk)"
proof -
  let ?c = "channel_new (link_set_state Established (link_new 0 (daemon_destination ext_toy (demo_keys 1)) (replicate 16 4)))"
  obtain c' p where "channel_send ext_toy (de_now (denv_demo i)) (de_ephemeral (denv_demo i)) (de_iv (denv_demo i)) m ?c =
      Some (c', Inr p)"
    using plain_channel_sends [of ?c m ext_toy] assms
    by (force simp: channel_new_def link_setters link_new_def link_with_config_def)
  then show ?thesis using demo_linked_facts(1) [of 1 3]
    by (simp add: dm_send_over_link_def dm_set_channel_def send_to_reached demo_linked_facts)
qed

theorem daemon_link_deaf_witness:
  "\<forall>B. \<exists>s' f. dm_send_over_link ext_toy B (denv_demo 1) (replicate 16 4) [1, 2, 3] (demo_linked 1 3) =
      (s', [OutSend 0 (replicate 16 4) f], ROk) \<and>
    dm_handle_frame ext_toy B lru_list (denv_demo 2) (replicate 16 2) f (demo_linked 3 1) =
      (demo_linked 3 1, [], RErr (DeChannel (ChTransport (TOther ''transport ID mismatch''))))"
proof
  fix B
  note fs = demo_linked_facts(1) [of 1 3, simplified] demo_linked_facts(1) [of 3 1, simplified]
  obtain s' f where send: "dm_send_over_link ext_toy B (denv_demo 1) (replicate 16 4) [1, 2, 3] (demo_linked 1 3) =
      (s', [OutSend 0 (replicate 16 4) f], ROk)" using demo_linked_sends [of "[1, 2, 3]" B 1] by auto
  have "dm_handle_frame ext_toy B lru_list (denv_demo 2) (replicate 16 2) f (demo_linked 3 1) =
      (demo_linked 3 1, [], RErr (DeChannel (ChTransport (TOther ''transport ID mismatch''))))"
    by (rule daemon_link_deaf [OF demo_linked_wf demo_linked_wf fs(1) _ fs(2) _ _ send])
      (use demo_tids in \<open>simp_all add: channel_new_def link_setters link_new_def link_with_config_def demo_linked_facts\<close>)
  with send show "\<exists>s' f. dm_send_over_link ext_toy B (denv_demo 1) (replicate 16 4) [1, 2, 3] (demo_linked 1 3) =
      (s', [OutSend 0 (replicate 16 4) f], ROk) \<and>
    dm_handle_frame ext_toy B lru_list (denv_demo 2) (replicate 16 2) f (demo_linked 3 1) =
      (demo_linked 3 1, [], RErr (DeChannel (ChTransport (TOther ''transport ID mismatch''))))" by blast
qed

section \<open>Keepalives\<close>

text \<open>The packets that the monitoring of links sends carry no data.\<close>

lemma link_monitor_sends:
  "link_monitor now a l = LinkSends p \<Longrightarrow>
     (\<exists>g c. p = (link_packet l g DATA c [])\<lparr>pkt_destination_hash := a\<rparr> \<and> (g = FLAG_UNSET \<and> c = NONE \<or> g = FLAG_SET \<and> c = KEEPALIVE))"
  by (auto simp: link_monitor_def split: if_splits)

lemma link_deliver_empty:
  "lnk_state l = Established \<Longrightarrow> lnk_shared_key l = Some k \<Longrightarrow> pkt_data p = [] \<Longrightarrow> \<exists>e. link_deliver E now p l = (l, Inl e)"
  by (simp add: link_deliver_def link_open_def decrypt_link_data_def)

lemma keepalive_no_effect:
  assumes "dm_channels t a = Some c" and "lnk_state (ch_link c) = Established" and "lnk_shared_key (ch_link c) = Some k"
    and "link_monitor now b l = LinkSends p" and "link_wf E k' l" and "length b = 16"
  shows "\<exists>r. dm_handle_frame E B L env a (packet_to_bytes p) t = (t, [], r) \<and> (r = ROk \<or> (\<exists>e. r = RErr e))"
proof -
  obtain g x where p: "p = (link_packet l g DATA x [])\<lparr>pkt_destination_hash := b\<rparr>"
    and gx: "g = FLAG_UNSET \<and> x = NONE \<or> g = FLAG_SET \<and> x = KEEPALIVE"
    using link_monitor_sends [OF assms(4)] by blast
  have wf: "packet_wf p" using daemon_packet_wf(2,3) [OF assms(5,6)] gx by (auto simp: p)
  obtain e where e: "link_deliver E (de_now env) p (ch_link c) = (ch_link c, Inl e)"
    using link_deliver_empty [OF assms(2,3), of p E "de_now env"] by (auto simp: p)
  have "dm_handle_frame E B L env a (packet_to_bytes p) t = dm_handle_link_data E B L env a p t"
    using wf by (intro dm_handle_frame_packet(4)) (simp_all add: p)
  moreover have "pkt_context p = x" by (simp add: p)
  ultimately show ?thesis using gx
    by (auto simp: dm_handle_link_data_def assms(1) e channel_deliver_def dm_set_channel_same)
qed

text \<open>
  Keepalives do not keep a link alive: on an encrypted link the packets of the monitoring, probes
  and keepalives alike, are too short to decrypt and are refused before the time of the last
  reception is renewed. A daemon that receives any number of them, and nothing else, is unchanged,
  and closes the link once \<open>STALE_TIME\<close> has passed since the link carried data.
\<close>

theorem keepalive_dies:
  assumes "dm_channels t a = Some c" and "lnk_state (ch_link c) = Established"
    and "lnk_shared_key (ch_link c) = Some k" and "lnk_keepalive_enabled (ch_link c)"
    and "\<forall>(env, src, f) \<in> set fs. src = a \<and> (\<exists>now b k' l p. link_wf E k' l \<and> length b = 16 \<and>
           link_monitor now b l = LinkSends p \<and> f = packet_to_bytes p)"
    and "STALE_TIME < de_now env - lnk_last_inbound (ch_link c)" and "a \<in> set (de_order env)"
  shows "\<exists>r. dm_frames E B L fs t = (t, [], r) \<and> dm_channels (fst (dm_monitor env t)) a = None"
proof -
  have "\<exists>r. dm_frames E B L fs t = (t, [], r) \<and> (r = ROk \<or> (\<exists>e. r = RErr e))" using assms(5)
  proof (induction fs)
    case (Cons x fs)
    obtain env' f where x: "x = (env', a, f)" using Cons.prems by (cases x) auto
    then obtain now b k' l p where "link_monitor now b l = LinkSends p" "link_wf E k' l" "length b = 16"
      "f = packet_to_bytes p" using Cons.prems by auto
    then obtain r where "dm_handle_frame E B L env' a f t = (t, [], r)" "r = ROk \<or> (\<exists>e. r = RErr e)"
      using keepalive_no_effect [OF assms(1-3)] by blast
    then show ?case using Cons x by (auto simp: dseq_def)
  qed simp
  moreover have "dm_channels (fst (dm_monitor env t)) a = None"
    using assms(1,4,6,7) by (simp add: dm_monitor_def Let_def monitored_def link_monitor_def)
  ultimately show ?thesis by blast
qed

definition demo_keyed :: "u8 \<Rightarrow> u8 \<Rightarrow> link" where
  "demo_keyed m n = link_set_shared_key (replicate 32 7) (link_set_state Established
     (link_new 0 (daemon_destination ext_toy (demo_keys m)) (replicate 16 n)))"

lemma demo_keyed_facts:
  "link_wf ext_toy (demo_keys m) (demo_keyed m n)" "lnk_state (demo_keyed m n) = Established"
  "lnk_shared_key (demo_keyed m n) = Some (replicate 32 7)" "lnk_keepalive_enabled (demo_keyed m n)"
  "lnk_last_inbound (demo_keyed m n) = 0" "lnk_last_outbound (demo_keyed m n) = 0"
  using link_wf_new(2) [of ext_toy "replicate 16 n" "demo_keys m" 0]
  by (simp_all add: demo_keyed_def link_setters link_wf_def link_new_def link_with_config_def)

theorem keepalive_dies_witness:
  "\<forall>B. let t = dm_set_channel (replicate 16 2) (channel_new (demo_keyed 3 2)) (demo_daemon 3 1);
           p = (link_packet (demo_keyed 1 4) FLAG_SET DATA KEEPALIVE [])\<lparr>pkt_destination_hash := replicate 16 4\<rparr>
       in \<exists>r. dm_frames ext_toy B lru_list [(denv_demo 40000000000, replicate 16 2, packet_to_bytes p)] t = (t, [], r) \<and>
            dm_channels (fst (dm_monitor ((denv_demo 600000000001)\<lparr>de_order := [replicate 16 2]\<rparr>) t)) (replicate 16 2) = None"
proof
  fix B
  let ?t = "dm_set_channel (replicate 16 2) (channel_new (demo_keyed 3 2)) (demo_daemon 3 1)"
  let ?p = "(link_packet (demo_keyed 1 4) FLAG_SET DATA KEEPALIVE [])\<lparr>pkt_destination_hash := replicate 16 4\<rparr>"
  have m: "link_monitor 40000000000 (replicate 16 4) (demo_keyed 1 4) = LinkSends ?p"
    by (simp add: link_monitor_def demo_keyed_facts)
  show "let t = ?t; p = ?p in \<exists>r. dm_frames ext_toy B lru_list [(denv_demo 40000000000, replicate 16 2, packet_to_bytes p)] t = (t, [], r) \<and>
            dm_channels (fst (dm_monitor ((denv_demo 600000000001)\<lparr>de_order := [replicate 16 2]\<rparr>) t)) (replicate 16 2) = None"
    unfolding Let_def
  proof (rule keepalive_dies [where c = "channel_new (demo_keyed 3 2)"])
    show "\<forall>(env, src, f) \<in> set [(denv_demo 40000000000, replicate 16 2, packet_to_bytes ?p)]. src = replicate 16 2 \<and>
        (\<exists>now b k' l p. link_wf ext_toy k' l \<and> length b = 16 \<and> link_monitor now b l = LinkSends p \<and> f = packet_to_bytes p)"
      using m demo_keyed_facts(1) [of 1 4] by (simp, metis length_replicate)
  qed (simp_all add: dm_set_channel_def channel_new_def demo_keyed_facts denv_demo_def)
qed

section \<open>Ratchet keys\<close>

lemma link_receive_ratchet_fields:
  "lnk_ratchet_priv (link_receive_ratchet E k l) = lnk_ratchet_priv l"
  "lnk_ratchet_pending_send (link_receive_ratchet E k l)"
  by (simp_all add: link_receive_ratchet_def link_setters Let_def split: option.split)

lemma link_receive_ratchet_key:
  "lnk_ratchet_priv l = Some r \<Longrightarrow> lnk_shared_key l = Some x \<Longrightarrow>
     lnk_shared_key (link_receive_ratchet E k l) =
       Some (hkdf_sha256 E 32 x (Some (x25519_dh E r k)) (Some (str_bytes ''ratchet'')))"
  by (simp add: link_receive_ratchet_def link_setters Let_def)

text \<open>
  The ratchet: two ends with one key that have each received the other's ratchet key equally often
  share a key again. The exchange has no end, for each reception makes the receiver send its key
  once more; and it rotates nothing, since the ratchet secrets, and with them the secret mixed into
  every new key, stay the same for the life of the link.
\<close>

theorem ratchet_agreement:
  assumes "dh_ok E" and "lnk_ratchet_priv la = Some ra" and "lnk_ratchet_priv lb = Some rb"
    and "length ra = 32" and "length rb = 32"
    and "lnk_shared_key la = Some k" and "lnk_shared_key lb = Some k"
  shows "\<exists>k'. lnk_shared_key ((link_receive_ratchet E (x25519_pub E rb) ^^ n) la) = Some k' \<and>
      lnk_shared_key ((link_receive_ratchet E (x25519_pub E ra) ^^ n) lb) = Some k' \<and>
      lnk_ratchet_priv ((link_receive_ratchet E (x25519_pub E rb) ^^ n) la) = Some ra \<and>
      (0 < n \<longrightarrow> link_send_ratchet E a ((link_receive_ratchet E (x25519_pub E rb) ^^ n) la) \<noteq> None)"
proof -
  have "\<exists>k'. lnk_shared_key ((link_receive_ratchet E (x25519_pub E rb) ^^ n) la) = Some k' \<and>
      lnk_shared_key ((link_receive_ratchet E (x25519_pub E ra) ^^ n) lb) = Some k' \<and>
      lnk_ratchet_priv ((link_receive_ratchet E (x25519_pub E rb) ^^ n) la) = Some ra \<and>
      lnk_ratchet_priv ((link_receive_ratchet E (x25519_pub E ra) ^^ n) lb) = Some rb"
    using dh_agree [OF assms(1,4,5)] assms(2,3,6,7)
    by (induction n) (auto simp: link_receive_ratchet_fields link_receive_ratchet_key)
  moreover have "lnk_ratchet_pending_send ((link_receive_ratchet E x ^^ n) l)" if "0 < n" for x l
    using that by (cases n) (simp_all add: link_receive_ratchet_fields)
  ultimately show ?thesis by (auto simp: link_send_ratchet_def Let_def)
qed

theorem ratchet_agreement_witness:
  "let la = link_set_ratchet_priv (replicate 32 5) (demo_keyed 1 4); lb = link_set_ratchet_priv (replicate 32 6) (demo_keyed 3 2)
   in lnk_shared_key ((link_receive_ratchet ext_toy (x25519_pub ext_toy (replicate 32 6)) ^^ 3) la) =
      lnk_shared_key ((link_receive_ratchet ext_toy (x25519_pub ext_toy (replicate 32 5)) ^^ 3) lb)"
  using ratchet_agreement [where E = ext_toy and n = 3 and la = "link_set_ratchet_priv (replicate 32 5) (demo_keyed 1 4)"
      and lb = "link_set_ratchet_priv (replicate 32 6) (demo_keyed 3 2)" and ra = "replicate 32 5" and rb = "replicate 32 6"
      and k = "replicate 32 7" and a = "[]"]
  by (auto simp: Let_def link_setters demo_keyed_facts)

section \<open>Resources\<close>

text \<open>What the serialisation of resources is relied on for, besides its round trip: a segment has more
  than four bytes, and an advertisement does not parse as a segment.\<close>

definition bincode_apart :: "bincode \<Rightarrow> bool" where
  "bincode_apart B \<longleftrightarrow> (\<forall>x. 4 < length (bc_segment B x)) \<and> (\<forall>x. bc_read_segment B (bc_adv B x) = None)"

abbreviation (input) res_step :: "ext \<Rightarrow> segment list \<Rightarrow> nat \<Rightarrow> resource \<Rightarrow> resource \<times> (TransportError + bool) option" where
  "res_step E segs \<equiv> (\<lambda>i r. case receive_segment E (segs ! i) r of Some (r', x) \<Rightarrow> (r', Some x) | None \<Rightarrow> (r, None))"

lemma dm_segments:
  assumes B: "bincode_ok B" "bincode_apart B"
  shows "is \<noteq> [] \<Longrightarrow> dm_incoming_resources s h = Some r \<Longrightarrow>
    \<forall>i \<in> set is. seg_resource_hash (segs ! i) = h \<Longrightarrow>
    run_all (res_step E segs) is r = (r', replicate (length is - 1) (Some (Inr False)) @ [Some (Inr True)]) \<Longrightarrow>
    res_data r' = Some data \<Longrightarrow>
    \<exists>s' now. dm_messages E B L env n src (map (\<lambda>i. bc_segment B (segs ! i)) is) s = (s', [], ROk) \<and>
      dm_forwarder s' = fw_cache L now (dm_forwarder s) (resource_data E data) \<and> dm_incoming_resources s' h = None"
proof (induction "is" arbitrary: n s r)
  case (Cons i "is")
  let ?msg = "bc_segment B (segs ! i)"
  have msg: "dm_message E B L env (de_fw env n) src ?msg s = dm_segment E L (env_now (de_fw env n)) (segs ! i) s"
    using B by (simp add: dm_message_def bincode_ok_def bincode_apart_def)
  obtain r1 x rs where r1: "res_step E segs i r = (r1, x)" by (cases "res_step E segs i r")
  obtain rs where run: "run_all (res_step E segs) is r1 = (r', rs)"
    "x # rs = replicate (length is) (Some (Inr False)) @ [Some (Inr True)]"
    using Cons.prems(4) by (auto simp: r1 split: prod.splits)
  have h: "seg_resource_hash (segs ! i) = h" using Cons.prems(3) by simp
  show ?case
  proof (cases "is")
    case Nil
    then have "r' = r1" "x = Some (Inr True)" using run by simp_all
    then have "receive_segment E (segs ! i) r = Some (r', Inr True)" using r1 by (auto split: option.splits prod.splits)
    then show ?thesis using Nil Cons.prems(2,5)
      by (auto simp: dthen_def msg dm_segment_def h Let_def dm_publish_def)
  next
    case (Cons j js)
    then have x: "x = Some (Inr False)" "rs = replicate (length is - 1) (Some (Inr False)) @ [Some (Inr True)]"
      using run(2) by simp_all
    then have rec: "receive_segment E (segs ! i) r = Some (r1, Inr False)" using r1 by (auto split: option.splits prod.splits)
    let ?s = "s\<lparr>dm_incoming_resources := (dm_incoming_resources s)(h \<mapsto> r1)\<rparr>"
    obtain s' now where "dm_messages E B L env (Suc n) src (map (\<lambda>i. bc_segment B (segs ! i)) is) ?s = (s', [], ROk)"
      "dm_forwarder s' = fw_cache L now (dm_forwarder s) (resource_data E data)" "dm_incoming_resources s' h = None"
      using Cons.IH [of ?s r1 "Suc n"] Cons Cons.prems(3,5) run(1) x(2) by auto
    then show ?thesis using Cons.prems(2) by (auto simp: dthen_def msg dm_segment_def h rec Let_def)
  qed
qed simp

text \<open>
  Resources arrive: the messages of a resource, its advertisement first and then its segments in any
  order, leave the whole data in the content store, under the all-zero name, and nothing of the
  transfer behind.
\<close>

theorem daemon_receives_resource:
  assumes "bincode_ok B" and "bincode_apart B" and "lru_ok L"
    and "new_for_sending E data cfg = Some sender" and "data \<noteq> []"
    and "length (res_segments sender) < 2 ^ 32" and "length data < 2 ^ 64"
    and "distinct is" and "set is = {..<length (res_segments sender)}"
  shows "\<exists>s'. dm_messages E B L env n src (bc_adv B (advertisement_new sender a) #
        map (\<lambda>i. bc_segment B (res_segments sender ! i)) is) s = (s', [], ROk) \<and>
    cs_map L (fw_cs (dm_forwarder s')) (name_new (replicate 32 0) []) = Some (resource_data E data) \<and>
    dm_incoming_resources s' (res_hash sender) = None"
proof -
  let ?segs = "res_segments sender" and ?h = "res_hash sender"
  let ?r = "new_for_receiving ?h (res_total_size sender) (of_nat (length ?segs)) resource_config_default"
  let ?s = "s\<lparr>dm_incoming_resources := (dm_incoming_resources s)(?h \<mapsto> ?r)\<rparr>"
  note segs = new_for_sending_segments [OF assms(4)]
  have size: "res_total_size sender = length data"
    using assms(4) by (auto simp: new_for_sending_def Let_def split: if_splits)
  have adv: "dm_message E B L env (de_fw env n) src (bc_adv B (advertisement_new sender a)) s = (?s, [], ROk)"
    using assms(1,2,7) by (simp add: dm_message_def bincode_ok_def bincode_apart_def advertisement_new_def size unat_of_nat)
  have "chunks (rc_segment_size cfg) data \<noteq> []" using segs assms(5) by (metis concat.simps(1))
  then have "?segs \<noteq> []" using segs by simp
  moreover have "length is = length ?segs" using distinct_card [OF assms(8)] by (simp add: assms(9))
  ultimately have ne: "is \<noteq> []" "length is = length ?segs" by fastforce+
  obtain r' where run: "run_all (res_step E ?segs) is ?r =
      (r', replicate (length is - 1) (Some (Inr False)) @ [Some (Inr True)])" "res_data r' = Some data"
    using resource_arrives [OF assms(4-6,8,9), of resource_config_default] unfolding ne(2) [symmetric] by blast
  have h: "\<forall>i \<in> set is. seg_resource_hash (?segs ! i) = ?h"
    using segs assms(9) by (auto simp: nth_segment_def segment_new_def)
  obtain s' now where "dm_messages E B L env (Suc n) src (map (\<lambda>i. bc_segment B (?segs ! i)) is) ?s = (s', [], ROk)"
    "dm_forwarder s' = fw_cache L now (dm_forwarder s) (resource_data E data)" "dm_incoming_resources s' ?h = None"
    using dm_segments [OF assms(1,2) ne(1) _ h run, where s = ?s and env = env and n = "Suc n" and src = src and L = L]
    by auto
  moreover have "cs_map L (fw_cs (fw_cache L now f (resource_data E data))) (name_new (replicate 32 0) []) = Some (resource_data E data)" for now f
    using cs_insert_map(1) [OF assms(3)] by (simp add: fw_cache_def resource_data_def data_new_def)
  ultimately show ?thesis by (simp add: dthen_def adv)
qed

lemma length_toy_put [simp]: "length (toy_put bs) = 2 * length bs + 1"
  by (simp add: toy_put_def)

lemma bincode_toy_apart: "bincode_apart bincode_toy"
  by (auto simp: bincode_apart_def bincode_toy_def toy_puts_def [of "[[7], _, _, _, _, _]"] split: list.split)

theorem daemon_receives_resource_witness:
  "\<exists>sender s'. new_for_sending ext_toy [1, 2, 3] \<lparr>rc_segment_size = 2, rc_max_concurrent = 16\<rparr> = Some sender \<and>
     dm_messages ext_toy bincode_toy lru_list (denv_demo 1) 0 (replicate 16 2)
       (bc_adv bincode_toy (advertisement_new sender (replicate 16 2)) #
        map (\<lambda>i. bc_segment bincode_toy (res_segments sender ! i)) [1, 0]) (demo_daemon 3 1) = (s', [], ROk) \<and>
     cs_map lru_list (fw_cs (dm_forwarder s')) (name_new (replicate 32 0) []) = Some (resource_data ext_toy [1, 2, 3])"
proof -
  let ?cfg = "\<lparr>rc_segment_size = 2, rc_max_concurrent = 16\<rparr>"
  obtain sn where sn: "new_for_sending ext_toy [1, 2, 3] ?cfg = Some sn"
    by (simp add: new_for_sending_def Let_def)
  then have l: "length (res_segments sn) = 2"
    by (auto simp: new_for_sending_def Let_def length_chunks)
  have "\<exists>s'. dm_messages ext_toy bincode_toy lru_list (denv_demo 1) 0 (replicate 16 2)
       (bc_adv bincode_toy (advertisement_new sn (replicate 16 2)) #
        map (\<lambda>i. bc_segment bincode_toy (res_segments sn ! i)) [1, 0]) (demo_daemon 3 1) = (s', [], ROk) \<and>
     cs_map lru_list (fw_cs (dm_forwarder s')) (name_new (replicate 32 0) []) = Some (resource_data ext_toy [1, 2, 3]) \<and>
     dm_incoming_resources s' (res_hash sn) = None"
    by (rule daemon_receives_resource [OF bincode_toy_ok bincode_toy_apart lru_list_ok sn]) (auto simp: l)
  with sn show ?thesis by blast
qed

lemma channel_send_too_large:
  "lnk_config (ch_link c) = link_config_default \<Longrightarrow> 494 < length m \<Longrightarrow>
     channel_send E now eph iv m c = Some (c, Inl (MessageTooLarge (length m) 494))"
  by (simp add: channel_send_def channel_send_typed_def channel_mdu_def link_config_default_def)

lemma send_over_link_channel:
  assumes "dm_send_over_link E B env b m s = (s1, os, ROk)"
  shows "\<exists>c. dm_channels s1 b = Some c"
proof -
  from assms obtain c p where "dm_send_to B env b (packet_to_bytes p) (dm_set_channel b c s) = (s1, os, ROk)"
    by (auto simp: dm_send_over_link_def split: option.splits sum.splits)
  from arg_cong [OF this, of fst] have "dm_channels s1 = dm_channels (dm_set_channel b c s)"
    using dm_send_to_fields(5) by (metis fst_conv)
  then show ?thesis by (simp add: dm_set_channel_def)
qed

text \<open>
  Resources do not leave: the segments of a resource are cut at 1024 bytes, a link takes messages of
  at most 494. For data of more than that \<open>send_resource\<close> sends the advertisement and then fails on
  the first segment; the receiver waits for segments that never come.
\<close>

theorem send_resource_too_large:
  assumes "hash_ok E" and "dh_ok E" and "daemon_wf E s"
    and "\<forall>x. length (seg_data x) \<le> length (bc_segment B x)" and "494 < length data"
    and "new_for_sending E data resource_config_default = Some resource"
    and "dm_send_over_link E B (envs 0) b (bc_adv B (advertisement_new resource (keys_rns_address E (dm_keys s)))) s =
      (s1, os, ROk)"
  shows "\<exists>n. dm_send_resource E B envs b data s = (s1, os, RErr (DeChannel (MessageTooLarge n 494)))"
proof -
  have wf: "daemon_wf E s1"
    using wf_inv.send_over_link [of E s] assms(1,2,3,7) by (metis fst_conv)
  obtain c where c: "dm_channels s1 b = Some c"
    using send_over_link_channel [OF assms(7)] by blast
  let ?cs = "chunks 1024 data"
  have "data \<noteq> []" using assms(5) by auto
  then have "?cs \<noteq> []" "length (?cs ! 0) = min 1024 (length data)" by (simp_all add: chunks_step)
  then obtain seg segs where segs: "res_segments resource = seg # segs" "494 < length (seg_data seg)"
    using new_for_sending_segments [OF assms(6)] assms(5)
    by (simp add: resource_config_default_def upt_conv_Cons nth_segment_def segment_new_def)
  have m: "494 < length (bc_segment B seg)" using segs(2) assms(4) by (metis less_le_trans)
  have "lnk_config (ch_link c) = link_config_default" using wf c by (auto simp: daemon_wf_def link_wf_def)
  from channel_send_too_large [OF this m]
  have "dm_send_over_link E B env b (bc_segment B seg) s1 =
      (s1, [], RErr (DeChannel (MessageTooLarge (length (bc_segment B seg)) 494)))" for env
    using c by (simp add: dm_send_over_link_def dm_set_channel_same)
  then show ?thesis by (simp add: dm_send_resource_def assms(6,7) dthen_def segs(1))
qed

theorem send_resource_too_large_witness:
  "\<exists>s1 f n. dm_send_resource ext_toy bincode_toy (\<lambda>_. denv_demo 1) (replicate 16 4) (replicate 600 1) (demo_linked 1 3) =
     (s1, [OutSend 0 (replicate 16 4) f], RErr (DeChannel (MessageTooLarge n 494)))"
proof -
  let ?data = "replicate 600 1 :: bytes"
  obtain r where r: "new_for_sending ext_toy ?data resource_config_default = Some r"
    by (simp add: new_for_sending_def resource_config_default_def Let_def)
  then have h: "length (res_hash r) = 32" using new_for_sending_segments [OF r] by (simp add: hash_lengths)
  let ?adv = "bc_adv bincode_toy (advertisement_new r (keys_rns_address ext_toy (dm_keys (demo_linked 1 3))))"
  have "length ?adv \<le> 494"
    by (simp add: bincode_toy_def toy_puts_def advertisement_new_def h demo_linked_facts demo_address)
  then obtain s1 f where send: "dm_send_over_link ext_toy bincode_toy (denv_demo 1) (replicate 16 4) ?adv (demo_linked 1 3) =
      (s1, [OutSend 0 (replicate 16 4) f], ROk)" using demo_linked_sends by blast
  have B: "\<forall>x. length (seg_data x) \<le> length (bc_segment bincode_toy x)"
    by (simp add: bincode_toy_def toy_puts_def)
  have "494 < length ?data" by simp
  from send_resource_too_large [OF ext_toy_ok(1,3) demo_linked_wf B this r, where envs = "\<lambda>_. denv_demo 1"] send
  show ?thesis by blast
qed

section \<open>Frames that stop the daemon\<close>

lemma unpack_flags_ones: "unpack_flags 0xFF = (3, 1, 1, 3, 3)"
  by (simp add: unpack_flags_def)

lemma overlong_frame:
  "length rest < 9 \<Longrightarrow> packet_from_bytes (replicate 9 0xFF @ 1 # rest) =
     Inl (PInvalid ''HEADER_1 packet too short for dest_hash + context'')"
  by (simp add: packet_from_bytes_def unpack_flags_ones nth_append)

text \<open>C35. 
  Ten bytes stop a daemon: a frame that is no packet is tried as ICN data, whose name length is read
  as a varint; nine bytes of ones and a one announce a length so large that the end of the name
  overflows and the decoder panics. Anyone who can send a frame can send this one.
\<close>

theorem frame_panics:
  assumes "length rest < 9"
  shows "dm_handle_frame E B L env src (replicate 9 0xFF @ 1 # rest) s = (s, [], RPanic)"
  unfolding dm_handle_frame_def overlong_frame [OF assms] dm_handle_icn_frame_def dm_icn_def overlong_data by simp

theorem frame_panics_witness:
  "\<forall>B src. dm_handle_frame ext_toy B lru_list (denv_demo 1) src (replicate 9 0xFF @ [1]) (demo_daemon 1 3) =
     (demo_daemon 1 3, [], RPanic)"
  by (intro allI frame_panics) simp

end
