(* ===== verification/Daemon_Api.thy ===== *)
theory Daemon_Api
  imports Daemon_Inv
begin

text \<open>
  \<open>crates/daemon/src/api.rs\<close>: the local API of the daemon. A connection carries one JSON value per
  line; each line becomes a command for the daemon or an error, and each command waits for the
  daemon's reply. Reading JSON text is a parameter; a socket is what each read yields and whether each write
  succeeds.
\<close>

section \<open>JSON values\<close>

datatype jvalue =
    JNull | JBool bool | JNumber nat | JString string | JArray "jvalue list"
  | JObject "(string \<times> jvalue) list"

text \<open>\<open>request.get(key).and_then(|v| v.as_str())\<close>.\<close>

definition get_str :: "string \<Rightarrow> jvalue \<Rightarrow> string option" where
  "get_str key v = (case v of
       JObject fs \<Rightarrow> (case map_of fs key of Some (JString s) \<Rightarrow> Some s | _ \<Rightarrow> None)
     | _ \<Rightarrow> None)"

definition api_error :: "string \<Rightarrow> jvalue" where
  "api_error e = JObject [(''ok'', JBool False), (''error'', JString e)]"

definition api_ok :: "jvalue \<Rightarrow> jvalue" where
  "api_ok result = JObject [(''ok'', JBool True), (''result'', result)]"

section \<open>Requests\<close>

text \<open>Early returns: \<open>Inl\<close> is the response to send.\<close>

definition or_reply :: "jvalue + 'a \<Rightarrow> ('a \<Rightarrow> jvalue + 'b) \<Rightarrow> jvalue + 'b" where
  "or_reply r f = (case r of Inl v \<Rightarrow> Inl v | Inr x \<Rightarrow> f x)"

lemma or_reply_simps [simp]: "or_reply (Inl v) f = Inl v" "or_reply (Inr x) f = f x"
  by (simp_all add: or_reply_def)

lemma or_reply_Inr: "or_reply r f = Inr y \<longleftrightarrow> (\<exists>x. r = Inr x \<and> f x = Inr y)"
  by (simp add: or_reply_def split: sum.splits)

definition api_field :: "string \<Rightarrow> jvalue \<Rightarrow> jvalue + string" where
  "api_field key request = (case get_str key request of
       Some h \<Rightarrow> Inr h
     | None \<Rightarrow> Inl (api_error (''Missing '' @ [CHR 0x27] @ key @ [CHR 0x27] @ '' field'')))"

definition api_dest :: "ext \<Rightarrow> string \<Rightarrow> jvalue + rns_address" where
  "api_dest E dest_hex = (case hex_decode E dest_hex of
       Inl e \<Rightarrow> Inl (api_error (''Invalid dest hex: '' @ e))
     | Inr b \<Rightarrow> if length b = 16 then Inr b else Inl (api_error ''dest must be 16 bytes (32 hex chars)''))"

definition api_data :: "ext \<Rightarrow> string \<Rightarrow> jvalue + bytes" where
  "api_data E data_hex = (case hex_decode E data_hex of
       Inl e \<Rightarrow> Inl (api_error (''Invalid data hex: '' @ e)) | Inr b \<Rightarrow> Inr b)"

text \<open>The part that \<open>handle_express\<close>, \<open>handle_send_over_link\<close> and \<open>handle_send_resource\<close> share.\<close>

definition api_dest_data :: "ext \<Rightarrow> jvalue \<Rightarrow> jvalue + rns_address \<times> bytes" where
  "api_dest_data E request =
     or_reply (api_field ''dest'' request) (\<lambda>dest_hex.
     or_reply (api_field ''data'' request) (\<lambda>data_hex.
     or_reply (api_dest E dest_hex) (\<lambda>dest.
     or_reply (api_data E data_hex) (\<lambda>data. Inr (dest, data)))))"

definition handle_express :: "ext \<Rightarrow> jvalue \<Rightarrow> jvalue + ApiCommand" where
  "handle_express E request = or_reply (api_dest_data E request) (\<lambda>(dest, data). Inr (Express dest data))"

definition handle_publish :: "ext \<Rightarrow> jvalue \<Rightarrow> jvalue + ApiCommand" where
  "handle_publish E request =
     or_reply (api_field ''name'' request) (\<lambda>name.
     or_reply (api_field ''data'' request) (\<lambda>data_hex.
     or_reply (api_data E data_hex) (\<lambda>data. Inr (Publish name data))))"

definition handle_status :: "jvalue + ApiCommand" where
  "handle_status = Inr ApiStatus"

text \<open>A \<open>dest_hash\<close> that is not 16 bytes in hexadecimal is ignored.\<close>

definition api_dest_hash :: "ext \<Rightarrow> jvalue \<Rightarrow> bytes option" where
  "api_dest_hash E request = (case get_str ''dest_hash'' request of
       None \<Rightarrow> None
     | Some h \<Rightarrow> (case hex_decode E h of
           Inl _ \<Rightarrow> None
         | Inr b \<Rightarrow> if length b = 16 then Some b else None))"

definition handle_connect :: "ext \<Rightarrow> jvalue \<Rightarrow> jvalue + ApiCommand" where
  "handle_connect E request =
     or_reply (api_field ''dest'' request) (\<lambda>dest_hex.
     or_reply (api_dest E dest_hex) (\<lambda>dest. Inr (Connect dest (api_dest_hash E request))))"

definition handle_send_over_link :: "ext \<Rightarrow> jvalue \<Rightarrow> jvalue + ApiCommand" where
  "handle_send_over_link E request = or_reply (api_dest_data E request) (\<lambda>(dest, data). Inr (SendOverLink dest data))"

definition handle_send_resource :: "ext \<Rightarrow> jvalue \<Rightarrow> jvalue + ApiCommand" where
  "handle_send_resource E request = or_reply (api_dest_data E request) (\<lambda>(dest, data). Inr (SendResource dest data))"

definition handle_seed_peer :: "ext \<Rightarrow> jvalue \<Rightarrow> jvalue + ApiCommand" where
  "handle_seed_peer E request =
     or_reply (api_field ''dest'' request) (\<lambda>dest_hex.
     or_reply (api_field ''key'' request) (\<lambda>key_hex.
     or_reply (api_field ''endpoint'' request) (\<lambda>endpoint.
     or_reply (api_dest E dest_hex) (\<lambda>dest. Inr (SeedPeer dest key_hex endpoint)))))"

definition api_request :: "ext \<Rightarrow> jvalue \<Rightarrow> jvalue + ApiCommand" where
  "api_request E request = or_reply (api_field ''cmd'' request) (\<lambda>cmd.
     if cmd = ''express'' then handle_express E request
     else if cmd = ''publish'' then handle_publish E request
     else if cmd = ''status'' then handle_status
     else if cmd = ''connect'' then handle_connect E request
     else if cmd = ''send'' then handle_send_over_link E request
     else if cmd = ''send_resource'' then handle_send_resource E request
     else if cmd = ''seed_peer'' then handle_seed_peer E request
     else Inl (api_error (''Unknown command: '' @ cmd)))"

section \<open>Responses\<close>

text \<open>What becomes of a command: the daemon is gone, drops it, replies, or never does so.\<close>

datatype api_outcome = NotAvailable | ResponseLost | Replied api_reply | NeverReplies

fun api_done :: "ApiCommand \<Rightarrow> string" where
  "api_done (Express _ _) = ''sent''"
| "api_done (Publish _ _) = ''published''"
| "api_done ApiStatus = []"
| "api_done (Connect _ _) = ''connecting''"
| "api_done (SendOverLink _ _) = ''sent''"
| "api_done (SendResource _ _) = ''sent''"
| "api_done (SeedPeer _ _ _) = ''peer_seeded''"

definition api_status_value :: "daemon_status \<Rightarrow> jvalue" where
  "api_status_value st = JObject [(''address'', JString (st_address st)), (''link_count'', JNumber (st_link_count st)),
     (''peer_count'', JNumber (st_peer_count st)), (''medium_count'', JNumber (st_medium_count st))]"

definition api_response :: "ApiCommand \<Rightarrow> api_outcome \<Rightarrow> jvalue option" where
  "api_response cmd outcome = (case outcome of
       NotAvailable \<Rightarrow> Some (api_error ''Daemon not available'')
     | ResponseLost \<Rightarrow> Some (api_error ''Daemon response lost'')
     | Replied (RepResult (Inr _)) \<Rightarrow> Some (api_ok (JString (api_done cmd)))
     | Replied (RepResult (Inl e)) \<Rightarrow> Some (api_error e)
     | Replied (RepStatus st) \<Rightarrow> Some (api_ok (api_status_value st))
     | NeverReplies \<Rightarrow> None)"

section \<open>Connections\<close>

datatype api_line = LineSkipped | LineAnswered jvalue | LineCommand ApiCommand

definition api_line_of :: "ext \<Rightarrow> (string \<Rightarrow> string + jvalue) \<Rightarrow> string \<Rightarrow> api_line" where
  "api_line_of E from_str line =
     (if str_trim line = [] then LineSkipped
      else case from_str (str_trim line) of
          Inl e \<Rightarrow> LineAnswered (api_error (''Invalid JSON: '' @ e))
        | Inr request \<Rightarrow> (case api_request E request of Inl v \<Rightarrow> LineAnswered v | Inr cmd \<Rightarrow> LineCommand cmd))"

text \<open>One round of the loop of a connection: what the read yields, what becomes of the command if the line
  is one, and whether the response can be written.\<close>

datatype api_read = ReadBytes bytes | ReadFails

record api_round =
  rnd_read :: api_read
  rnd_outcome :: api_outcome
  rnd_write :: bool

text \<open>\<open>read_line\<close> gives a line of UTF-8 or fails; no bytes at all say that the peer has closed the connection.\<close>

definition read_line :: "api_read \<Rightarrow> string option" where
  "read_line r = (case r of
       ReadBytes b \<Rightarrow> if utf8_valid b then Some (bytes_str b) else None
     | ReadFails \<Rightarrow> None)"

text \<open>A connection ends when the peer closes it or with an error of the socket, or it waits for a reply for ever.\<close>

datatype conn_end = ConnClosed | ConnFailed | ConnWaits

fun handle_connection ::
  "ext \<Rightarrow> (string \<Rightarrow> string + jvalue) \<Rightarrow> api_round list \<Rightarrow> jvalue list \<times> ApiCommand list \<times> conn_end" where
  "handle_connection E from_str [] = ([], [], ConnClosed)"
| "handle_connection E from_str (r # rs) = (if rnd_read r = ReadBytes [] then ([], [], ConnClosed)
     else case read_line (rnd_read r) of
       None \<Rightarrow> ([], [], ConnFailed)
     | Some line \<Rightarrow>
         (case api_line_of E from_str line of
            LineSkipped \<Rightarrow> handle_connection E from_str rs
          | LineAnswered v \<Rightarrow>
              if rnd_write r then (case handle_connection E from_str rs of (vs, cs, e) \<Rightarrow> (v # vs, cs, e))
              else ([], [], ConnFailed)
          | LineCommand cmd \<Rightarrow>
              (case api_response cmd (rnd_outcome r) of
                 None \<Rightarrow> ([], [cmd], ConnWaits)
               | Some v \<Rightarrow>
                   if rnd_write r then (case handle_connection E from_str rs of (vs, cs, e) \<Rightarrow> (v # vs, cmd # cs, e))
                   else ([], [cmd], ConnFailed))))"

section \<open>Commands of the API\<close>

lemmas api_handlers = handle_express_def handle_publish_def handle_status_def handle_connect_def
  handle_send_over_link_def handle_send_resource_def handle_seed_peer_def api_dest_data_def

lemma api_dest_length: "api_dest E h = Inr a \<Longrightarrow> length a = 16"
  by (auto simp: api_dest_def split: sum.splits if_splits)

lemma api_dest_hash_length: "api_dest_hash E r = Some h \<Longrightarrow> length h = 16"
  by (auto simp: api_dest_hash_def split: option.splits sum.splits if_splits)

lemma api_request_wf: "api_request E r = Inr cmd \<Longrightarrow> command_wf cmd"
  by (auto simp: api_request_def api_handlers or_reply_Inr split: if_splits option.splits
      dest: api_dest_length api_dest_hash_length)

lemma handle_connection_wf: "list_all command_wf (fst (snd (handle_connection E from_str rs)))"
  by (induction E from_str rs rule: handle_connection.induct)
    (auto simp: api_line_of_def split: api_line.splits prod.splits sum.splits if_splits option.splits
      dest: api_request_wf)

text \<open>A round that a connection does not survive: the read fails or is no UTF-8, the reply never comes, the
  response cannot be written. A round with a line that is not blank.\<close>

definition round_line :: "api_round \<Rightarrow> bool" where
  "round_line r \<longleftrightarrow> (\<exists>l. read_line (rnd_read r) = Some l \<and> str_trim l \<noteq> [])"

definition round_ok :: "ext \<Rightarrow> (string \<Rightarrow> string + jvalue) \<Rightarrow> api_round \<Rightarrow> bool" where
  "round_ok E from_str r \<longleftrightarrow> (case read_line (rnd_read r) of
       None \<Rightarrow> False
     | Some l \<Rightarrow> str_trim l = [] \<or>
         rnd_write r \<and> (\<forall>cmd. api_line_of E from_str l = LineCommand cmd \<longrightarrow> rnd_outcome r \<noteq> NeverReplies))"

lemma api_response_shape:
  "api_response cmd r = Some v \<Longrightarrow> \<exists>b x k. v = JObject [(''ok'', JBool b), (k, x)]"
  by (auto simp: api_response_def api_error_def api_ok_def split: api_outcome.splits api_reply.splits sum.splits)

lemma api_response_None: "api_response cmd r = None \<longleftrightarrow> r = NeverReplies"
  by (auto simp: api_response_def split: api_outcome.splits api_reply.splits sum.splits)

lemma api_line_shape:
  assumes "api_line_of E from_str l = LineAnswered v"
  shows "\<exists>b x k. v = JObject [(''ok'', JBool b), (k, x)]"
proof -
  have "\<exists>e. v = api_error e" if "api_request E r = Inl v" for r
    using that by (auto simp: api_request_def api_handlers or_reply_def api_field_def api_dest_def api_data_def
        split: sum.splits option.splits if_splits)
  with assms have "\<exists>e. v = api_error e" by (auto simp: api_line_of_def split: if_splits sum.splits)
  then show ?thesis by (auto simp: api_error_def)
qed

lemma api_line_skipped: "api_line_of E from_str l = LineSkipped \<longleftrightarrow> str_trim l = []"
  by (auto simp: api_line_of_def split: sum.splits)

text \<open>The rounds before the peer closes the connection.\<close>

definition rounds_open :: "api_round list \<Rightarrow> api_round list" where
  "rounds_open rs = takeWhile (\<lambda>r. rnd_read r \<noteq> ReadBytes []) rs"

lemma rounds_open_simps [simp]:
  "rounds_open [] = []"
  "rounds_open (r # rs) = (if rnd_read r = ReadBytes [] then [] else r # rounds_open rs)"
  by (simp_all add: rounds_open_def)

lemma handle_connection_answers:
  "handle_connection E from_str rs = (vs, cs, e) \<Longrightarrow>
     length vs = length (filter round_line (takeWhile (round_ok E from_str) (rounds_open rs))) \<and>
     list_all (\<lambda>v. \<exists>b x k. v = JObject [(''ok'', JBool b), (k, x)]) vs \<and>
     (e = ConnClosed \<longleftrightarrow> list_all (round_ok E from_str) (rounds_open rs))"
proof (induction rs arbitrary: vs cs e)
  case (Cons r rs)
  consider "rnd_read r = ReadBytes []" | "rnd_read r \<noteq> ReadBytes []" "read_line (rnd_read r) = None"
    | l where "rnd_read r \<noteq> ReadBytes []" "read_line (rnd_read r) = Some l" by (cases "read_line (rnd_read r)") auto
  then show ?case
  proof cases
    case (3 l)
    note Some = 3
    have r: "round_line r \<longleftrightarrow> str_trim l \<noteq> []" "round_ok E from_str r \<longleftrightarrow> str_trim l = [] \<or>
        rnd_write r \<and> (\<forall>cmd. api_line_of E from_str l = LineCommand cmd \<longrightarrow> rnd_outcome r \<noteq> NeverReplies)"
      by (simp_all add: round_line_def round_ok_def Some)
    show ?thesis
      using Cons.IH Cons.prems api_line_skipped [of E from_str l] api_line_shape [of E from_str l]
        api_response_shape [of _ "rnd_outcome r"] api_response_None [of _ "rnd_outcome r"]
      by (cases "api_line_of E from_str l") (auto simp: Some r split: prod.splits if_splits option.splits)
  qed (use Cons.prems in \<open>auto simp: round_ok_def\<close>)
qed simp

text \<open>C13. 
  A connection to the API is answered line by line: each line of UTF-8 that is not blank gets exactly one
  response, whatever it holds, up to the first round in which the socket fails or the daemon never replies
  to the command of the line; nothing is answered from that round on. Without such a round
  the connection ends when the peer closes it. Every response is an object that says whether the request
  succeeded, and every command that reaches the daemon has addresses of 16 bytes.
\<close>

theorem api_answers_every_line:
  "case handle_connection E from_str rs of (vs, cs, e) \<Rightarrow>
     length vs = length (filter round_line (takeWhile (round_ok E from_str) (rounds_open rs))) \<and>
     (e = ConnClosed \<longleftrightarrow> list_all (round_ok E from_str) (rounds_open rs)) \<and>
     list_all (\<lambda>v. \<exists>b x k. v = JObject [(''ok'', JBool b), (k, x)]) vs \<and> list_all command_wf cs"
  using handle_connection_answers [of E from_str rs] handle_connection_wf [of E from_str rs]
  by (cases "handle_connection E from_str rs") auto

text \<open>A line that is no UTF-8 closes the connection: neither it nor any later line is answered.\<close>

lemma api_not_utf8:
  "rnd_read r = ReadBytes b \<Longrightarrow> \<not> utf8_valid b \<Longrightarrow>
     handle_connection E from_str (r # rs) = ([], [], ConnFailed)"
  by (auto simp: read_line_def)

text \<open>The requests a client writes for the commands.\<close>

fun request_of :: "ext \<Rightarrow> ApiCommand \<Rightarrow> jvalue" where
  "request_of E (Express a d) = JObject [(''cmd'', JString ''express''), (''dest'', JString (hex_encode E a)), (''data'', JString (hex_encode E d))]"
| "request_of E (Publish n d) = JObject [(''cmd'', JString ''publish''), (''name'', JString n), (''data'', JString (hex_encode E d))]"
| "request_of E ApiStatus = JObject [(''cmd'', JString ''status'')]"
| "request_of E (Connect a h) = JObject ([(''cmd'', JString ''connect''), (''dest'', JString (hex_encode E a))] @
     (case h of None \<Rightarrow> [] | Some x \<Rightarrow> [(''dest_hash'', JString (hex_encode E x))]))"
| "request_of E (SendOverLink a d) = JObject [(''cmd'', JString ''send''), (''dest'', JString (hex_encode E a)), (''data'', JString (hex_encode E d))]"
| "request_of E (SendResource a d) = JObject [(''cmd'', JString ''send_resource''), (''dest'', JString (hex_encode E a)), (''data'', JString (hex_encode E d))]"
| "request_of E (SeedPeer a k e) = JObject [(''cmd'', JString ''seed_peer''), (''dest'', JString (hex_encode E a)), (''key'', JString k), (''endpoint'', JString e)]"

text \<open>Every well-formed command of the daemon can be given through the API: its request is read back as
  that command.\<close>

theorem api_commands:
  assumes "hex_ok E" and "command_wf cmd"
  shows "api_request E (request_of E cmd) = Inr cmd"
  using assms(2) hex_facts(1) [OF assms(1)]
  by (cases cmd) (auto simp: api_request_def api_handlers api_field_def get_str_def api_dest_def api_data_def api_dest_hash_def
      split: option.splits)

theorem api_commands_witness:
  "api_request ext_toy (request_of ext_toy (Connect (replicate 16 2) (Some (replicate 16 3)))) =
     Inr (Connect (replicate 16 2) (Some (replicate 16 3)))"
  by (rule api_commands) simp_all

text \<open>A \<open>dest_hash\<close> that cannot be read is no error: the daemon connects to the peer's own address
  instead.\<close>

lemma api_bad_dest_hash:
  assumes "hex_ok E" "length a = 16" "length h \<noteq> 16"
  shows "api_request E (request_of E (Connect a (Some h))) = Inr (Connect a None)"
  using assms(2,3) hex_facts(1) [OF assms(1)]
  by (simp add: api_request_def api_handlers api_field_def get_str_def api_dest_def api_dest_hash_def)

end
