(* ===== verification/Mesh_Udp.thy ===== *)
theory Mesh_Udp
  imports Mesh_Routing Packet
begin

text \<open>
  \<open>crates/mesh/src/udp.rs\<close> and \<open>crates/mesh/src/medium.rs\<close>: the UDP medium, which maps the
  addresses of peers to socket addresses, and the contract of a medium that the daemon relies on. Socket
  addresses are values of the type parameter \<open>'a\<close>; what the socket does is an argument, as is the
  order in which the hash map of peers is iterated.
\<close>

section \<open>The medium\<close>

record 'a udp_medium =
  udp_name :: string
  udp_peers :: "rns_address \<rightharpoonup> 'a"

definition udp_bind :: "string \<Rightarrow> string option \<Rightarrow> MeshError + 'a udp_medium" where
  "udp_bind name bind_error = (case bind_error of
       Some e \<Rightarrow> Inl (MeIo e)
     | None \<Rightarrow> Inr \<lparr> udp_name = name, udp_peers = Map.empty \<rparr>)"

definition udp_add_peer :: "rns_address \<Rightarrow> 'a \<Rightarrow> 'a udp_medium \<Rightarrow> 'a udp_medium" where
  "udp_add_peer addr socket_addr m = m\<lparr>udp_peers := (udp_peers m)(addr \<mapsto> socket_addr)\<rparr>"

text \<open>\<open>send\<close>: the datagram handed to the socket, and the result; \<open>socket\<close> is the error the socket
  gives for a datagram, if any.\<close>

definition udp_send ::
  "ext \<Rightarrow> ('a \<Rightarrow> bytes \<Rightarrow> string option) \<Rightarrow> rns_address \<Rightarrow> bytes \<Rightarrow> 'a udp_medium \<Rightarrow>
     ('a \<times> bytes) option \<times> (MeshError + unit)" where
  "udp_send E socket to frame m = (case udp_peers m to of
       None \<Rightarrow> (None, Inl (MeUnknownPeer (hex_encode E to)))
     | Some sa \<Rightarrow> (Some (sa, frame), case socket sa frame of Some e \<Rightarrow> Inl (MeIo e) | None \<Rightarrow> Inr ()))"

definition udp_broadcast :: "rns_address list \<Rightarrow> bytes \<Rightarrow> 'a udp_medium \<Rightarrow> ('a \<times> bytes) list \<times> nat" where
  "udp_broadcast order frame m =
     (let peers = List.map_filter (udp_peers m) order
      in (map (\<lambda>sa. (sa, frame)) peers, length peers))"

text \<open>\<open>parse\<close> reads a socket address from text.\<close>

definition udp_add_peer_endpoint ::
  "(string \<Rightarrow> string + 'a) \<Rightarrow> rns_address \<Rightarrow> string \<Rightarrow> 'a udp_medium \<Rightarrow> 'a udp_medium \<times> (MeshError + unit)" where
  "udp_add_peer_endpoint parse addr endpoint m = (case parse endpoint of
       Inl e \<Rightarrow> (m, Inl (MeIo (''invalid endpoint '' @ [CHR 0x27] @ endpoint @ [CHR 0x27] @ '': '' @ e)))
     | Inr sa \<Rightarrow> (udp_add_peer addr sa m, Inr ()))"

text \<open>The source of a frame from a socket that no peer is registered at.\<close>

definition udp_unknown_source ::
  "ext \<Rightarrow> 'a \<Rightarrow> bytes \<Rightarrow> 'a udp_medium \<Rightarrow> 'a udp_medium \<times> rns_address option" where
  "udp_unknown_source E from_addr buf m = (case packet_from_bytes buf of
       Inl _ \<Rightarrow> (m, None)
     | Inr p \<Rightarrow>
         if pkt_packet_type p = ANNOUNCE \<and> length (pkt_data p) \<ge> 64 then
           (let addr = rns_from_full_key E (take 64 (pkt_data p))
            in (udp_add_peer addr from_addr m, Some addr))
         else if pkt_packet_type p = ANNOUNCE \<and> length (pkt_data p) \<ge> 32 then
           (let addr = rns_from_identity_key E (take 32 (pkt_data p))
            in (udp_add_peer addr from_addr m, Some addr))
         else (case packet_destination p of
             Inr dest \<Rightarrow> (m, Some dest)
           | Inl _ \<Rightarrow> (m, None)))"

text \<open>\<open>recv\<close> on what the socket received: an error, or a datagram and where it came from.\<close>

definition udp_recv ::
  "ext \<Rightarrow> rns_address list \<Rightarrow> string + bytes \<times> 'a \<Rightarrow> 'a udp_medium \<Rightarrow>
     'a udp_medium \<times> (MeshError + (rns_address \<times> bytes) option)" where
  "udp_recv E order received m = (case received of
       Inl e \<Rightarrow> (m, Inl (MeIo e))
     | Inr (datagram, from_addr) \<Rightarrow>
         let buf = take 65535 datagram in
         (case find (\<lambda>a. udp_peers m a = Some from_addr) order of
            Some addr \<Rightarrow> (m, Inr (Some (addr, buf)))
          | None \<Rightarrow>
              (case udp_unknown_source E from_addr buf m of
                 (m, src) \<Rightarrow> (m, Inr (map_option (\<lambda>addr. (addr, buf)) src)))))"

section \<open>The contract of a medium\<close>

text \<open>The first part of the daemon's loop: one \<open>recv\<close> on each medium, in order, \<open>None\<close> when it
  timed out; what it gives is the media afterwards and the frames with their sources.\<close>

fun media_frames ::
  "('e \<Rightarrow> 's \<Rightarrow> 's \<times> (MeshError + (rns_address \<times> bytes) option)) \<Rightarrow> ('s \<times> 'e option) list \<Rightarrow>
     's list \<times> (rns_address \<times> bytes) list" where
  "media_frames recv [] = ([], [])"
| "media_frames recv ((s, None) # ms) = (s # fst (media_frames recv ms), snd (media_frames recv ms))"
| "media_frames recv ((s, Some e) # ms) =
     (case recv e s of (t, r) \<Rightarrow>
        (t # fst (media_frames recv ms),
         (case r of Inr (Some f) \<Rightarrow> [f] | _ \<Rightarrow> []) @ snd (media_frames recv ms)))"

text \<open>
  What the daemon relies on: every frame a medium hands over has the address of a peer as its
  source, that is 16 bytes. The state of the medium changes as it receives; \<open>recv\<close> is its
  \<open>recv\<close> on one event of its environment.
\<close>

locale medium =
  fixes wf :: "'s \<Rightarrow> bool"
    and recv :: "'e \<Rightarrow> 's \<Rightarrow> 's \<times> (MeshError + (rns_address \<times> bytes) option)"
  assumes recv_wf: "wf s \<Longrightarrow> recv e s = (t, r) \<Longrightarrow> wf t"
    and recv_source: "wf s \<Longrightarrow> recv e s = (t, Inr (Some (a, f))) \<Longrightarrow> length a = 16"
begin

lemma media_frames_wf:
  "(\<forall>x\<in>set ms. wf (fst x)) \<Longrightarrow> list_all wf (fst (media_frames recv ms)) \<and>
     list_all (\<lambda>x. length (fst x) = 16) (snd (media_frames recv ms))"
proof (induction ms)
  case (Cons x ms)
  show ?case
  proof (cases "snd x")
    case None
    then show ?thesis using Cons by (cases x) simp
  next
    case (Some e)
    obtain t r where r: "recv e (fst x) = (t, r)" by (cases "recv e (fst x)")
    then have "wf t" "\<And>y. r = Inr (Some y) \<Longrightarrow> length (fst y) = 16"
      using recv_wf [OF _ r] recv_source [of "fst x" e t] Cons.prems by auto
    then show ?thesis using Cons Some r by (cases x) (auto split: sum.splits option.splits)
  qed
qed simp

end

text \<open>A UDP medium keeps addresses of 16 bytes and names a source of 16 bytes for every frame.\<close>

definition udp_wf :: "'a udp_medium \<Rightarrow> bool" where
  "udp_wf m \<longleftrightarrow> (\<forall>a \<in> dom (udp_peers m). length a = 16)"

lemma udp_wf_add_peer: "udp_wf m \<Longrightarrow> length a = 16 \<Longrightarrow> udp_wf (udp_add_peer a sa m)"
  by (auto simp: udp_wf_def udp_add_peer_def split: if_splits)

lemma udp_unknown_source_wf:
  assumes "hash_ok E" "udp_wf m" "udp_unknown_source E sa buf m = (m', src)"
  shows "udp_wf m'" and "src = Some a \<Longrightarrow> length a = 16"
  using assms
  by (auto simp: udp_unknown_source_def Let_def packet_destination_def rns_from_bytes_def
      intro: udp_wf_add_peer split: sum.splits if_splits)

lemma udp_recv_wf:
  assumes "hash_ok E" "udp_wf m" "udp_recv E order d m = (m', r)"
  shows "udp_wf m'" and "r = Inr (Some (a, f)) \<Longrightarrow> length a = 16"
proof -
  have *: "find (\<lambda>a. udp_peers m a = Some x) order = Some b \<Longrightarrow> length b = 16" for x b
    using assms(2) by (auto simp: find_Some_iff udp_wf_def)
  show "udp_wf m'" using assms udp_unknown_source_wf(1)
    by (auto simp: udp_recv_def Let_def split: sum.splits option.splits prod.splits)
  show "length a = 16" if "r = Inr (Some (a, f))"
    using that assms udp_unknown_source_wf(2) *
    by (fastforce simp: udp_recv_def Let_def split: sum.splits option.splits prod.splits)
qed

interpretation udp: medium "\<lambda>m. hash_ok E \<and> udp_wf m" "\<lambda>(order, d). udp_recv E order d"
  by unfold_locales (auto split: prod.splits dest: udp_recv_wf)

section \<open>Sources and destinations of datagrams\<close>

text \<open>The two facts about receiving: a socket that one peer is registered at, and one that none is.\<close>

lemma udp_recv_known:
  assumes "udp_peers m a = Some sa" and "\<forall>b. udp_peers m b = Some sa \<longrightarrow> b = a"
    and "dom (udp_peers m) \<subseteq> set order" and "length f \<le> 65535"
  shows "udp_recv E order (Inr (f, sa)) m = (m, Inr (Some (a, f)))"
proof -
  let ?P = "\<lambda>b. udp_peers m b = Some sa"
  have "a \<in> set order" using assms(1,3) by (auto simp: dom_def)
  then have "find ?P order \<noteq> None" using assms(1) unfolding find_None_iff by auto
  then obtain b where b: "find ?P order = Some b" by (cases "find ?P order") simp_all
  then have "?P b" unfolding find_Some_iff by auto
  then have "find ?P order = Some a" using b assms(2) by simp
  then show ?thesis using assms(4) by (simp add: udp_recv_def)
qed

lemma udp_recv_unknown:
  assumes "\<And>b. udp_peers m b \<noteq> Some sa" and "length f \<le> 65535"
  shows "udp_recv E order (Inr (f, sa)) m =
    (case udp_unknown_source E sa f m of (m', src) \<Rightarrow> (m', Inr (map_option (\<lambda>a. (a, f)) src)))"
proof -
  have "find (\<lambda>b. udp_peers m b = Some sa) order = None" using assms(1) by (auto simp: find_None_iff)
  then show ?thesis using assms(2) by (simp add: udp_recv_def)
qed

text \<open>
  A frame sent over UDP arrives with its sender as the source: if each of two media has the other's
  socket address and no other peer of the receiver is registered at the sender's socket, the
  datagram \<open>send\<close> writes is received as a frame from the sender, whatever it holds and
  in whatever order the receiver goes through its peers.
\<close>

theorem udp_exchange:
  assumes "udp_peers m1 a2 = Some sa2" and "udp_peers m2 a1 = Some sa1"
    and "\<forall>b. udp_peers m2 b = Some sa1 \<longrightarrow> b = a1"
    and "dom (udp_peers m2) \<subseteq> set order" and "length f \<le> 65535" and "socket sa2 f = None"
  shows "\<exists>d. udp_send E socket a2 f m1 = (Some (sa2, d), Inr ()) \<and>
    udp_recv E order (Inr (d, sa1)) m2 = (m2, Inr (Some (a1, f)))"
  using udp_recv_known [OF assms(2-5)] assms(1,6) by (simp add: udp_send_def)

definition demo_udp :: "u8 \<Rightarrow> nat \<Rightarrow> nat udp_medium" where
  "demo_udp b sa = \<lparr> udp_name = ''test'', udp_peers = [replicate 16 b \<mapsto> sa] \<rparr>"

theorem udp_exchange_witness:
  "\<exists>d. udp_send ext_toy (\<lambda>_ _. None) (replicate 16 2) [1, 2, 3] (demo_udp 2 4242) = (Some (4242, d), Inr ()) \<and>
    udp_recv ext_toy [replicate 16 1] (Inr (d, 4241)) (demo_udp 1 4241) =
      (demo_udp 1 4241, Inr (Some (replicate 16 1, [1, 2, 3])))"
  by (rule udp_exchange) (auto simp: demo_udp_def)

text \<open>C38. 
  Whoever can send datagrams chooses who they are from and where a peer's traffic goes. From
  a socket that no peer is registered at, a packet that is not an announce is received as from the
  destination it names; and an announce, whose signature is not looked at here, moves the peer
  it names to that socket, so that everything sent to the peer afterwards goes there.
\<close>

theorem udp_source_spoofed:
  assumes "\<forall>b. udp_peers m b \<noteq> Some sa" and "packet_wf p" and "length (packet_to_bytes p) \<le> 65535"
  shows "(pkt_packet_type p \<noteq> ANNOUNCE \<longrightarrow>
      udp_recv E order (Inr (packet_to_bytes p, sa)) m = (m, Inr (Some (pkt_destination_hash p, packet_to_bytes p)))) \<and>
    (pkt_packet_type p = ANNOUNCE \<longrightarrow> 64 \<le> length (pkt_data p) \<longrightarrow>
      (let victim = rns_from_full_key E (take 64 (pkt_data p));
           m' = fst (udp_recv E order (Inr (packet_to_bytes p, sa)) m)
       in fst (udp_send E socket victim f m') = Some (sa, f)))"
  using udp_recv_unknown [of m sa "packet_to_bytes p" E order] assms
  by (auto simp: udp_unknown_source_def packet_dec_enc packet_destination_wf Let_def udp_add_peer_def udp_send_def)

theorem udp_source_spoofed_witness:
  "let p = new_announce (replicate 16 0) (replicate 148 9); v = rns_from_full_key ext_toy (replicate 64 9);
       m = udp_add_peer v 4242 (demo_udp 1 4241)
   in fst (udp_send ext_toy (\<lambda>_ _. None) v [1] m) = Some (4242, [1]) \<and>
      fst (udp_send ext_toy (\<lambda>_ _. None) v [1] (fst (udp_recv ext_toy [] (Inr (packet_to_bytes p, 666)) m))) = Some (666, [1])"
proof -
  let ?p = "new_announce (replicate 16 0) (replicate 148 9)" and ?v = "rns_from_full_key ext_toy (replicate 64 9)"
  have "packet_wf ?p" "pkt_packet_type ?p = ANNOUNCE" "pkt_data ?p = replicate 148 9"
    by (simp_all add: constructors_wf(2)) (simp_all add: new_announce_def)
  moreover have "length (packet_to_bytes ?p) \<le> 65535" by (simp add: packet_to_bytes_def new_announce_def)
  ultimately show ?thesis
    using udp_source_spoofed [of "udp_add_peer ?v 4242 (demo_udp 1 4241)" 666 ?p ext_toy "[]" "\<lambda>_ _. None" "[1]"]
    by (simp add: Let_def udp_add_peer_def demo_udp_def udp_send_def)
qed

end
