(* ===== verification/Daemon_Main.thy ===== *)
theory Daemon_Main
  imports Daemon_Api Mesh_Udp
begin

text \<open>
  \<open>crates/daemon/src/main.rs\<close> and \<open>crates/daemon/src/config.rs\<close>: how the daemon starts, and the
  program as a whole, that is the daemon with its UDP media and its local API. The file system is a map from
  paths to texts, of which \<open>writable\<close> says where it can be written; TOML and the reading of socket
  addresses are parameters.
\<close>

section \<open>Configuration\<close>

record interface_config =
  ic_type :: string
  ic_bind :: string
  ic_name :: string

record config =
  cfg_key_file :: string
  cfg_interfaces :: "interface_config list"
  cfg_cs_max_entries :: nat
  cfg_api :: "string option"

datatype ConfigError = CfIo string | CfParse string

definition path_join :: "string \<Rightarrow> string \<Rightarrow> string" where
  "path_join a b = (if a = [] \<or> last a = CHR ''/'' then a @ b else a @ ''/'' @ b)"

definition home_path :: "string option \<Rightarrow> string \<Rightarrow> string" where
  "home_path home file = path_join (path_join (case home of Some h \<Rightarrow> h | None \<Rightarrow> ''.'') ''.rsticulum'') file"

definition interface_config_default :: interface_config where
  "interface_config_default = \<lparr>ic_type = ''udp'', ic_bind = ''0.0.0.0:4242'', ic_name = []\<rparr>"

definition config_default :: "string option \<Rightarrow> config" where
  "config_default home = \<lparr>cfg_key_file = home_path home ''identity.key'',
     cfg_interfaces = [interface_config_default], cfg_cs_max_entries = 10000, cfg_api = None\<rparr>"

record toml =
  toml_write :: "config \<Rightarrow> string"
  toml_read :: "string \<Rightarrow> string + config"

record files =
  fl_text :: "string \<rightharpoonup> string"
  fl_writable :: "string \<Rightarrow> bool"

definition file_read :: "files \<Rightarrow> string \<Rightarrow> string option" where
  "file_read fs path = fl_text fs path"

definition file_write :: "string \<Rightarrow> string \<Rightarrow> files \<Rightarrow> files" where
  "file_write path text fs = (if fl_writable fs path then fs\<lparr>fl_text := (fl_text fs)(path \<mapsto> text)\<rparr> else fs)"

definition config_load :: "toml \<Rightarrow> files \<Rightarrow> string \<Rightarrow> ConfigError + config" where
  "config_load T fs path = (case file_read fs path of
       None \<Rightarrow> Inl (CfIo ''No such file or directory (os error 2)'')
     | Some contents \<Rightarrow> (case toml_read T contents of Inl e \<Rightarrow> Inl (CfParse e) | Inr c \<Rightarrow> Inr c))"

definition config_save :: "toml \<Rightarrow> config \<Rightarrow> string \<Rightarrow> files \<Rightarrow> files" where
  "config_save T c path fs = file_write path (toml_write T c) fs"

section \<open>Start\<close>

text \<open>The configuration is read from the path that is the first argument, whatever its form.\<close>

definition main_config ::
  "toml \<Rightarrow> string option \<Rightarrow> string list \<Rightarrow> files \<Rightarrow> files \<times> config" where
  "main_config T home args fs =
     (let path = (case args of [] \<Rightarrow> home_path home ''daemon.toml'' | a # _ \<Rightarrow> a)
      in case config_load T fs path of
           Inr c \<Rightarrow> (fs, c)
         | Inl _ \<Rightarrow> (config_save T (config_default home) path fs, config_default home))"

definition key_file_text :: "ext \<Rightarrow> keys \<Rightarrow> string" where
  "key_file_text E k = hex_encode E (key_signing k @ key_encryption k)"

definition read_key_file :: "ext \<Rightarrow> files \<Rightarrow> string \<Rightarrow> keys option" where
  "read_key_file E fs path = (case file_read fs path of
       None \<Rightarrow> None
     | Some text \<Rightarrow> (case hex_decode E (str_trim text) of
           Inl _ \<Rightarrow> None
         | Inr b \<Rightarrow> if length b = 64 then Some (keys_from_secrets (take 32 b) (drop 32 b)) else None))"

text \<open>\<open>fresh\<close> are the keys that \<open>Keys::generate\<close> gives.\<close>

definition load_or_generate_keys :: "ext \<Rightarrow> keys \<Rightarrow> string \<Rightarrow> files \<Rightarrow> files \<times> keys" where
  "load_or_generate_keys E fresh path fs = (case read_key_file E fs path of
       Some k \<Rightarrow> (fs, k)
     | None \<Rightarrow> (file_write path (key_file_text E fresh) fs, fresh))"

text \<open>The media of the configured interfaces; \<open>bind\<close> is the error of binding an address, if any.\<close>

fun bind_interfaces ::
  "(string \<Rightarrow> string + 'a) \<Rightarrow> ('a \<Rightarrow> string option) \<Rightarrow> interface_config list \<Rightarrow> 'a udp_medium list" where
  "bind_interfaces parse bind [] = []"
| "bind_interfaces parse bind (i # is) =
     (if ic_type i \<noteq> ''udp'' then []
      else case parse (ic_bind i) of
          Inl _ \<Rightarrow> []
        | Inr addr \<Rightarrow>
            (case udp_bind (if ic_name i = [] then ''udp-'' @ ic_bind i else ic_name i) (bind addr) of
               Inl _ \<Rightarrow> []
             | Inr m \<Rightarrow> [m])) @ bind_interfaces parse bind is"

text \<open>\<open>main\<close> up to the loop: it ends without interfaces or with a bad address for the API.\<close>

definition main_start ::
  "ext \<Rightarrow> 'c lru_ops \<Rightarrow> toml \<Rightarrow> (string \<Rightarrow> string + 'a) \<Rightarrow> ('a \<Rightarrow> string option) \<Rightarrow> string option \<Rightarrow> string list \<Rightarrow> keys \<Rightarrow>
     files \<Rightarrow> files \<times> ('c daemon \<times> 'a udp_medium list) option" where
  "main_start E L T parse bind home args fresh fs =
     (let (fs, c) = main_config T home args fs;
          (fs, k) = load_or_generate_keys E fresh (cfg_key_file c) fs;
          media = bind_interfaces parse bind (cfg_interfaces c);
          d = (dm_add_medium ^^ length media) (daemon_new E L k)
      in (fs, if media = [] then None
              else case cfg_api c of
                  None \<Rightarrow> Some (d, media)
                | Some b \<Rightarrow> (case parse b of Inl _ \<Rightarrow> None | Inr _ \<Rightarrow> Some (d, media))))"

section \<open>The identity is kept\<close>

lemma read_written_keys:
  assumes "hex_ok E" "keys_wf k" "fl_writable fs path"
  shows "read_key_file E (file_write path (key_file_text E k) fs) path = Some k"
proof -
  have "str_trim (key_file_text E k) = key_file_text E k"
    unfolding key_file_text_def using hex_plain [OF assms(1)] by (intro str_trim_id) blast
  then show ?thesis using assms(2,3) hex_facts(1) [OF assms(1)]
    by (cases k) (simp add: read_key_file_def file_write_def file_read_def key_file_text_def keys_wf_def keys_from_secrets_def)
qed

text \<open>C14. 
  The daemon keeps its identity: once a start has been able to write the key file, whether it found
  keys there or generated them, every later start with that file has the same keys, whatever
  new keys it would generate.
\<close>

theorem identity_persists:
  assumes "hex_ok E" and "keys_wf fresh" and "fl_writable fs path"
    and "load_or_generate_keys E fresh path fs = (fs', k)"
  shows "load_or_generate_keys E fresh' path fs' = (fs', k)"
proof (cases "read_key_file E fs path")
  case None
  then have "fs' = file_write path (key_file_text E fresh) fs" "k = fresh"
    using assms(4) by (auto simp: load_or_generate_keys_def)
  then show ?thesis using read_written_keys [OF assms(1-3)] by (simp add: load_or_generate_keys_def)
next
  case (Some k')
  then show ?thesis using assms(4) by (simp add: load_or_generate_keys_def)
qed

theorem identity_persists_witness:
  "let fs = \<lparr>fl_text = Map.empty, fl_writable = (\<lambda>_. True)\<rparr>
   in load_or_generate_keys ext_toy (demo_keys 9) ''key'' (fst (load_or_generate_keys ext_toy (demo_keys 1) ''key'' fs)) =
     (fst (load_or_generate_keys ext_toy (demo_keys 1) ''key'' fs), demo_keys 1)"
proof -
  let ?fs = "\<lparr>fl_text = Map.empty, fl_writable = (\<lambda>_. True)\<rparr>"
  have "load_or_generate_keys ext_toy (demo_keys 1) ''key'' ?fs =
      (fst (load_or_generate_keys ext_toy (demo_keys 1) ''key'' ?fs), demo_keys 1)"
    by (simp add: load_or_generate_keys_def read_key_file_def file_read_def)
  from identity_persists [OF _ _ _ this] show ?thesis by (simp add: Let_def)
qed

text \<open>What cannot be read is replaced: a key file with anything but 64 bytes in hexadecimal is
  overwritten by new keys, and a configuration file that does not parse by the defaults.\<close>

lemma bad_files_overwritten:
  shows "read_key_file E fs path = None \<Longrightarrow> fl_writable fs path \<Longrightarrow>
      fl_text (fst (load_or_generate_keys E fresh path fs)) path = Some (key_file_text E fresh)"
    and "fl_text fs a = Some t \<Longrightarrow> toml_read T t = Inl e \<Longrightarrow> fl_writable fs a \<Longrightarrow>
      fl_text (fst (main_config T home (a # as) fs)) a = Some (toml_write T (config_default home))"
  by (simp_all add: load_or_generate_keys_def file_write_def main_config_def config_load_def file_read_def config_save_def)

section \<open>What the daemon asks of its media\<close>

text \<open>A daemon registers only peers with addresses of 16 bytes at its media.\<close>

fun out_wf :: "dout \<Rightarrow> bool" where
  "out_wf (OutAddPeer m a e) = (length a = 16)"
| "out_wf (OutSend m a f) = True"
| "out_wf (OutBroadcast m f) = True"

definition outs_wf :: "'c dstep \<Rightarrow> bool" where
  "outs_wf r = list_all out_wf (fst (snd r))"

lemma outs_wf_simps [simp]: "outs_wf (s, os, x) = list_all out_wf os"
  by (simp add: outs_wf_def)

lemma outs_wf_dthen: "outs_wf r \<Longrightarrow> (\<And>s. outs_wf (f s)) \<Longrightarrow> outs_wf (dthen r f)"
  by (cases r) (auto simp: dthen_def split: prod.splits, metis outs_wf_simps)

lemma outs_wf_dseq: "outs_wf r \<Longrightarrow> (\<And>s. outs_wf (f s)) \<Longrightarrow> outs_wf (dseq r f)"
  by (cases r) (auto simp: dseq_def split: prod.splits, metis outs_wf_simps)

lemma outs_wf_broadcast [simp]: "list_all out_wf (broadcast_all s f)"
  by (simp add: list_all_iff)

lemma try_media_wf: "try_media env a d ms = Some x \<Longrightarrow> out_wf x"
  by (induction ms) (auto split: if_splits)

lemma outs_wf_send_to [simp]: "outs_wf (dm_send_to B env a f s)"
  by (auto simp: dm_send_to_def Let_def dest: try_media_wf split: option.splits)

lemma outs_wf_announce [simp]: "outs_wf (dm_handle_announce E env src p s)"
  by (simp add: dm_handle_announce_def announce_propagate_def list_all_iff)

lemma outs_wf_paths [simp]:
  "outs_wf (dm_handle_path_request_msg E B env src p s)" "outs_wf (dm_handle_path_reply_msg E B env src p s)"
  by (auto simp: dm_handle_path_request_msg_def dm_handle_path_reply_msg_def Let_def list_all_iff split: option.splits prod.splits)

lemma outs_wf_links [simp]:
  "outs_wf (dm_connect E B env a h s)" "outs_wf (dm_handle_linkrequest E B env src p s)"
  "outs_wf (dm_handle_proof E B env src p s)"
  by (auto simp: dm_connect_def dm_handle_linkrequest_def dm_handle_proof_def dm_linkproof_def dm_lrproof_def
      lrproof_established_def Let_def intro: outs_wf_dseq split: option.splits sum.splits)

lemma outs_wf_icn [simp]: "outs_wf (dm_icn E B L env fenv src f s)"
  by (auto simp: dm_icn_def dm_receive_icn_def dm_answer_interest_def Let_def
      split: option.splits sum.splits prod.splits fw_outcome.splits)

lemma outs_wf_messages [simp]: "outs_wf (dm_messages E B L env n src ms s)"
  by (induction ms arbitrary: n s)
    (auto simp: dm_message_def dm_segment_def Let_def intro!: outs_wf_dthen split: option.splits sum.splits prod.splits bool.splits)

lemma outs_wf_frame [simp]: "outs_wf (dm_handle_frame E B L env src f s)"
  by (auto simp: dm_handle_frame_def dm_handle_icn_frame_def dm_handle_link_data_def Let_def
      split: option.splits sum.splits prod.splits)

lemma outs_wf_over_link [simp]: "outs_wf (dm_send_over_link E B env a d s)"
  by (auto simp: dm_send_over_link_def split: option.splits sum.splits prod.splits)

lemma outs_wf_each [simp]: "outs_wf (dm_send_each E B envs n a ms s)"
  by (induction ms arbitrary: n s) (auto intro: outs_wf_dthen)

lemma outs_wf_resource [simp]: "outs_wf (dm_send_resource E B envs a d s)"
  by (auto simp: dm_send_resource_def Let_def intro: outs_wf_dthen split: option.splits)

lemma outs_wf_seed: "length a = 16 \<Longrightarrow> outs_wf (dm_seed_peer E a k e s)"
  by (auto simp: dm_seed_peer_def list_all_iff split: sum.splits)

lemma outs_wf_replied: "outs_wf r \<Longrightarrow> list_all out_wf (fst (snd (replied r)))"
  by (cases r) (simp add: replied_def)

lemma outs_wf_command: "command_wf cmd \<Longrightarrow> list_all out_wf (fst (snd (dm_command E B L envs cmd s)))"
  by (cases cmd) (auto intro: outs_wf_replied outs_wf_seed split: sum.splits)

lemma outs_wf_commands:
  "\<forall>(envs, cmd) \<in> set cmds. command_wf cmd \<Longrightarrow> outs_wf (fst (dm_commands E B L cmds s))"
proof (induction cmds arbitrary: s)
  case (Cons c cmds)
  obtain envs cmd where c: "c = (envs, cmd)" by (cases c)
  obtain s1 os r where d: "dm_command E B L envs cmd s = (s1, os, r)" by (cases "dm_command E B L envs cmd s") auto
  have "list_all out_wf os" using outs_wf_command [of cmd E B L envs s] Cons.prems by (simp add: c d)
  moreover have "outs_wf (fst (dm_commands E B L cmds s1))" using Cons by simp
  ultimately show ?case by (auto simp: c d outs_wf_def split: option.splits prod.splits)
qed simp

lemma outs_wf_frames [simp]: "outs_wf (dm_frames E B L fs s)"
  by (induction fs arbitrary: s) (auto intro!: outs_wf_dseq)

lemma outs_wf_send_list [simp]: "outs_wf (dm_send_list B envs n ps s)"
  by (induction ps arbitrary: n s) (auto intro!: outs_wf_dseq)

lemma outs_wf_turn:
  assumes "turn_wf t" shows "outs_wf (fst (dm_turn E B L t s))"
proof -
  obtain s1 os x where f: "dseq (dm_frames E B L (tn_frames t) s) (dm_announce E (tn_draw t)) = (s1, os, x)"
    by (cases "dseq (dm_frames E B L (tn_frames t) s) (dm_announce E (tn_draw t))") auto
  have "outs_wf (dseq (dm_frames E B L (tn_frames t) s) (dm_announce E (tn_draw t)))"
    by (rule outs_wf_dseq) (auto simp: dm_announce_def Let_def list_all_iff)
  then have os: "list_all out_wf os" by (simp add: f)
  obtain s2 os' x' rs where c: "dm_commands E B L (tn_commands t) s1 = ((s2, os', x'), rs)"
    by (cases "dm_commands E B L (tn_commands t) s1") auto
  have "\<forall>(envs, cmd) \<in> set (tn_commands t). command_wf cmd" using assms by (auto simp: turn_wf_def)
  then have os': "list_all out_wf os'" using outs_wf_commands [of "tn_commands t" E B L s1] by (simp add: c)
  have "outs_wf (dm_maintain E B e n s3)" for e n s3 by (simp add: dm_maintain_def Let_def split: prod.splits)
  then have "outs_wf (dseq (s2, os @ os', x') (dm_maintain E B (tn_env t) (tn_sends t)))"
    using os os' by (intro outs_wf_dseq) simp_all
  then show ?thesis using os by (simp add: dm_turn_def f c)
qed

section \<open>The program\<close>

text \<open>Peers that the daemon registers at its media.\<close>

fun register_peers :: "(string \<Rightarrow> string + 'a) \<Rightarrow> dout list \<Rightarrow> 'a udp_medium list \<Rightarrow> 'a udp_medium list" where
  "register_peers parse [] ms = ms"
| "register_peers parse (OutAddPeer m a e # os) ms =
     register_peers parse os (if m < length ms then ms[m := fst (udp_add_peer_endpoint parse a e (ms ! m))] else ms)"
| "register_peers parse (_ # os) ms = register_peers parse os ms"

text \<open>
  The states of the program: it starts from any files, and then runs turns of its loop. In a turn the
  frames are those the media received, and the commands come from connections of the API.
\<close>

inductive program ::
  "ext \<Rightarrow> bincode \<Rightarrow> 'c lru_ops \<Rightarrow> (string \<Rightarrow> string + 'a) \<Rightarrow> 'c daemon \<Rightarrow> 'a udp_medium list \<Rightarrow> bool"
  for E B L parse where
  started: "keys_wf fresh \<Longrightarrow> main_start E L T parse bind home args fresh fs = (fs', Some (d, ms)) \<Longrightarrow>
    program E B L parse d ms"
| turned: "program E B L parse d ms \<Longrightarrow> length received = length ms \<Longrightarrow>
    media_frames (\<lambda>(order, x). udp_recv E order x) (zip ms received) = (ms', map snd (tn_frames t)) \<Longrightarrow>
    (\<forall>env \<in> fst ` set (tn_frames t). env_wf env) \<Longrightarrow>
    (\<forall>(envs, cmd) \<in> set (tn_commands t). (\<forall>n. env_wf (envs n)) \<and>
      (\<exists>from_str rs. cmd \<in> set (fst (snd (handle_connection E from_str rs))))) \<Longrightarrow>
    dm_turn E B L t d = ((d', os, r), replies) \<Longrightarrow> program E B L parse d' (register_peers parse os ms')"

lemma udp_wf_add_endpoint: "udp_wf m \<Longrightarrow> length a = 16 \<Longrightarrow> udp_wf (fst (udp_add_peer_endpoint parse a e m))"
  by (auto simp: udp_add_peer_endpoint_def intro: udp_wf_add_peer split: sum.splits)

lemma register_peers_wf:
  "list_all out_wf os \<Longrightarrow> list_all udp_wf ms \<Longrightarrow> list_all udp_wf (register_peers parse os ms)"
proof (induction parse os ms rule: register_peers.induct)
  case (2 parse m a e os ms)
  then have "list_all udp_wf (if m < length ms then ms[m := fst (udp_add_peer_endpoint parse a e (ms ! m))] else ms)"
    by (auto simp: list_all_length nth_list_update udp_wf_add_endpoint)
  then show ?case using 2 by simp
qed simp_all

lemma read_key_file_wf: "read_key_file E fs path = Some k \<Longrightarrow> keys_wf k"
  by (auto simp: read_key_file_def keys_wf_def keys_from_secrets_def split: option.splits sum.splits if_splits)

lemma bind_interfaces_wf: "list_all udp_wf (bind_interfaces parse bind is)"
  by (induction "is") (auto simp: udp_bind_def udp_wf_def split: sum.splits option.splits)

lemma reachable_media: "reachable E B L {} d \<Longrightarrow> reachable E B L {} ((dm_add_medium ^^ n) d)"
  by (induction n) (auto intro: reachable.medium)

lemma main_start_wf:
  assumes "keys_wf fresh" "main_start E L T parse bind home args fresh fs = (fs', Some (d, ms))"
  shows "reachable E B L {} d" "list_all udp_wf ms"
proof -
  obtain fs1 c where c: "main_config T home args fs = (fs1, c)" by (cases "main_config T home args fs")
  obtain fs2 k where k: "load_or_generate_keys E fresh (cfg_key_file c) fs1 = (fs2, k)"
    by (cases "load_or_generate_keys E fresh (cfg_key_file c) fs1")
  have "keys_wf k" using k assms(1) read_key_file_wf
    by (auto simp: load_or_generate_keys_def split: option.splits)
  moreover have "d = (dm_add_medium ^^ length ms) (daemon_new E L k)" "ms = bind_interfaces parse bind (cfg_interfaces c)"
    using assms(2) by (auto simp: main_start_def c k Let_def split: if_splits option.splits sum.splits)
  ultimately show "reachable E B L {} d" "list_all udp_wf ms"
    using bind_interfaces_wf by (auto intro: reachable_media reachable.built)
qed

lemma program_reachable:
  assumes "hash_ok E" "program E B L parse d ms"
  shows "reachable E B L {} d \<and> list_all udp_wf ms"
  using assms(2)
proof (induction rule: program.induct)
  case (started fresh T bind home args fs fs' d ms)
  then show ?case using main_start_wf [OF started] by simp
next
  case (turned d ms received ms' t d' os r replies)
  let ?ms = "zip ms received"
  have "\<forall>x\<in>set ?ms. hash_ok E \<and> udp_wf (fst x)" using turned.IH assms(1) by (auto simp: list_all_iff dest: set_zip_leftD)
  from udp.media_frames_wf [OF this] have ms': "list_all udp_wf ms'" and src: "\<forall>x\<in>set (tn_frames t). length (fst (snd x)) = 16"
    using turned.hyps(3) by (auto simp: list_all_iff)
  have "turn_wf t" using src turned.hyps(4,5) handle_connection_wf unfolding turn_wf_def by (fastforce simp: list_all_iff)
  then have "reachable E B L {} d'" "list_all out_wf os"
    using turned.IH turned.hyps(6) outs_wf_turn [of t E B L d] by (auto intro: reachable.turned)
  then show ?case using ms' register_peers_wf by blast
qed

text \<open>C6. 
  The whole program keeps its state well-formed: started from any configuration and key file, with
  media that receive any datagrams and an API that reads any lines, the daemon stays well-formed and
  its media know peers only under addresses of 16 bytes. No condition on what comes from outside
  remains, but that random keys have 32 bytes.
\<close>

theorem program_well_formed:
  assumes "hash_ok E" and "dh_ok E" and "program E B L parse d ms"
  shows "daemon_wf E d \<and> list_all udp_wf ms"
proof -
  have "reachable E B L {} d \<and> list_all udp_wf ms" using program_reachable [OF assms(1,3)] .
  then show ?thesis using wf_inv.reachable_inv [of E B L "{}" d] assms(1,2) daemon_wf_new by blast
qed

definition toml_toy :: "string option \<Rightarrow> toml" where
  "toml_toy home = \<lparr>toml_write = (\<lambda>c. ''toml''), toml_read = (\<lambda>s. if s = ''toml'' then Inr (config_default home) else Inl ''bad'')\<rparr>"

theorem program_well_formed_witness:
  "\<exists>d ms. snd (main_start ext_toy lru_list (toml_toy None) (\<lambda>s. Inr s) (\<lambda>_. None) None [] (demo_keys 1)
      \<lparr>fl_text = Map.empty, fl_writable = (\<lambda>_. True)\<rparr>) = Some (d, ms) \<and> length ms = 1 \<and>
    daemon_wf ext_toy d \<and> list_all udp_wf ms"
proof -
  let ?fs = "\<lparr>fl_text = Map.empty, fl_writable = (\<lambda>_. True)\<rparr>"
  have c: "cfg_interfaces (config_default None) = [interface_config_default]" "cfg_api (config_default None) = None"
    by (simp_all add: config_default_def)
  have "\<exists>fs' d ms. main_start ext_toy lru_list (toml_toy None) (\<lambda>s. Inr s) (\<lambda>_. None) None [] (demo_keys 1) ?fs =
      (fs', Some (d, ms)) \<and> length ms = 1"
    by (simp add: main_start_def main_config_def config_load_def file_read_def c interface_config_default_def udp_bind_def
        split: prod.splits)
  then obtain fs' d ms where s: "main_start ext_toy lru_list (toml_toy None) (\<lambda>s. Inr s) (\<lambda>_. None) None [] (demo_keys 1) ?fs =
      (fs', Some (d, ms))" "length ms = 1" by blast
  have "program ext_toy bincode_toy lru_list (\<lambda>s. Inr s) d ms" by (rule program.started [OF _ s(1)]) simp
  from program_well_formed [OF _ _ this] show ?thesis using s by simp
qed

end
