(* ===== verification/Spec2Isabelle.thy ===== *)
theory Spec2Isabelle
  imports Kiss Serial Tcp Ratchet_Store Stream_Buffer Fragment Suspendable Mesh_Announce Icn_Face Icn_Link_Face
    Icn_Demo Daemon_Carry Daemon_Main
begin

text \<open>
  A verification library for rsticulum, a Rust implementation of a Reticulum-style mesh network with
  an information-centric layer (ICN). This theory imports all others.

  \<^bold>\<open>The program.\<close> Nodes are named by hashes of their keys (\<open>crates/identity\<close>,
  \<open>crates/crypto\<close>, \<open>crates/destination\<close>) and exchange packets (\<open>crates/packet\<close>) over media: framed byte
  streams (\<open>crates/interface\<close>) and UDP (\<open>crates/mesh\<close>). Two nodes set up an encrypted link
  (\<open>crates/transport\<close>), which carries fragments, resources, numbered messages (\<open>crates/channel\<close>) and byte
  streams (\<open>crates/buffer\<close>). The mesh layer keeps link qualities and routes and finds routes on demand. The
  ICN layer (\<open>crates/icn\<close>) fetches signed data by name, with a forwarding table, a table of pending
  interests, a cache and faces. The daemon (\<open>crates/daemon\<close>) owns all of these, handles the packets of its
  media in a loop and takes commands through a local JSON interface.

  \<^bold>\<open>How Rust is read.\<close> Integers are words of their width, a \<open>usize\<close> that only counts list elements is
  a natural number; byte vectors and arrays are lists of bytes; \<open>Result\<close> is a sum with the error on the
  left; structs are records and enums datatypes; a \<open>&mut self\<close> method takes the state and returns it
  updated; a hash map is a map, with its iteration order as an argument where it shows; instants and
  durations are nanoseconds; a panic is \<open>None\<close> or a constructor of its own; a counter that overflows wraps,
  as in a release build. Tasks that share state are
  one definition per step, combined by an inductive relation that allows every interleaving.
  Waiting calls are their reaction to a list of events.

  \<^bold>\<open>The shared layer.\<close>
  \<^item> \<open>Rust_Prelude\<close>: types, lists, big-endian bytes, and the interfaces that several components have in
    common: the locales \<open>wire_codec\<close>, \<open>canonical_codec\<close> and \<open>prefix_codec\<close> (encoders and decoders),
    \<open>framer\<close> (byte-wise decoders of framed streams) and \<open>invariant_machine\<close> (reachable states keep an
    invariant).
  \<^item> \<open>Rust_Text\<close>: the operations of \<open>str\<close> that the program uses (trim, lines, split, find, UTF-8 validity).
  \<^item> \<open>External\<close>: hash functions, ciphers, signatures and \<open>hex\<close> as the record \<open>ext\<close>, an argument of every
    definition that uses them. Their documented behaviour is \<open>hash_ok\<close>, \<open>aes_ok\<close>, \<open>dh_ok\<close>, \<open>sig_ok\<close>,
    \<open>conv_ok\<close>, \<open>hex_ok\<close>, named as a hypothesis by each theorem that needs it. \<open>ext_toy\<close>
    satisfies all of them and is what the witnesses run on.

  \<^bold>\<open>Keys and packets.\<close>
  \<^item> \<open>Address\<close> (\<open>identity/address.rs\<close>, \<open>rns_address.rs\<close>), \<open>Crypto\<close> (\<open>crypto/hkdf.rs\<close>, \<open>token.rs\<close>), \<open>Identity\<close>
    (\<open>identity/keys.rs\<close>, \<open>crypto.rs\<close>, \<open>identity_announce.rs\<close>), \<open>Ratchet_Store\<close> (\<open>identity/ratchet_store.rs\<close>). The
    hand-written HKDF equals RFC 5869 up to its limit; the ciphers are instances of the locale
    \<open>sealed_box\<close>: what is sealed opens with the same key, and a text that opens carries a
    correct authentication code.
  \<^item> \<open>Packet\<close> (\<open>packet/packet.rs\<close>): a canonical codec; \<open>from_bytes\<close> accepts exactly the encodings of
    well-formed packets. \<open>Destination\<close> (\<open>destination\<close>, \<open>transport/error.rs\<close>, \<open>proof.rs\<close>).

  \<^bold>\<open>Interfaces.\<close>
  \<^item> \<open>Hdlc\<close>, \<open>Kiss\<close>, \<open>Serial\<close> (\<open>interface/hdlc.rs\<close>, \<open>kiss.rs\<close>, \<open>serial.rs\<close>): framers; the serial port with its
    read task is the step relation \<open>ser_step\<close>, and \<open>ser_system\<close> adds restarts while the tasks of earlier
    starts still run.
  \<^item> \<open>Tcp\<close> (\<open>interface/tcp.rs\<close>): client and server, with the read and accept tasks in \<open>tcp_step\<close>,
    \<open>tcp_session\<close> and \<open>server_step\<close>. What one client sends another receives, in order, under every
    cutting of the stream and every interleaving; a shutdown with more than 256 frames not fetched never ends.

  \<^bold>\<open>Transport.\<close>
  \<^item> \<open>Link\<close> (\<open>transport/link.rs\<close>): handshake, encryption, sending and delivery, \<open>link_step\<close> with its
    invariant. \<open>Suspendable\<close> (\<open>suspendable.rs\<close>): suspension, held messages and replay, \<open>sl_step\<close>.
  \<^item> \<open>Reassembly\<close> (\<open>resource.rs\<close>) and \<open>Fragment\<close> (\<open>packet_transport.rs\<close>): the locale
    \<open>collector\<close> says that parts taken once each in any order give the whole; both interpret it.
  \<^item> \<open>Channel\<close> (\<open>channel\<close>): the receiver puts out a prefix of what was sent under any reordering, loss
    and duplication, and everything when all of up to 1000 packets arrive. \<open>Stream_Buffer\<close> (\<open>buffer\<close>): what a
    write does on every MTU, and that reader and writer fit together, though the crate offers no way to
    carry packets from one to the other.

  \<^bold>\<open>Mesh.\<close>
  \<^item> \<open>Mesh_Routing\<close> (\<open>mesh/link.rs\<close>, \<open>routing.rs\<close>): the table keeps a best route of those offered. Comparison
    of floating-point numbers is IEEE 754 on their bits; their arithmetic is the argument \<open>farith\<close>.
    \<open>Mesh_Announce\<close>: what a neighbour learns from an announce.
  \<^item> \<open>Path_Request\<close> (\<open>mesh/path_request.rs\<close>): requests and replies; the walk of a reply has as fuel
    the number of nodes it visits at most. After a discovery a packet at a relay, passed on by the
    routes that were learnt, follows the path to the destination.
  \<^item> \<open>Mesh_Udp\<close> (\<open>mesh/udp.rs\<close>, \<open>medium.rs\<close>): the locale \<open>medium\<close> is the contract of the trait
    \<open>Medium\<close>, and the UDP medium interprets it.

  \<^bold>\<open>Information-centric layer.\<close>
  \<^item> \<open>Icn_Name\<close>, \<open>Icn_Interest\<close>, \<open>Icn_Manifest\<close> (\<open>icn/name.rs\<close>, \<open>interest.rs\<close>, \<open>manifest.rs\<close>): names,
    packets and manifests with their wire and text forms. \<open>serde_json\<close> is the argument \<open>json\<close>.
  \<^item> \<open>Icn_Fib\<close>, \<open>Icn_Pit\<close>, \<open>Icn_Store\<close>, \<open>Icn_Strategy\<close> (\<open>fib.rs\<close>, \<open>pit.rs\<close>, \<open>cs.rs\<close>, \<open>strategy.rs\<close>): the
    forwarding table refines the abstract \<open>route_table\<close>; the cache is the \<open>lru\<close> crate, the argument
    \<open>lru_ops\<close> with \<open>lru_ok\<close>.
  \<^item> \<open>Icn_Forwarder\<close> (\<open>forwarder.rs\<close>): for any strategy, faces and history, what is returned or cached
    was signed by a registered producer or put into the cache by hand through \<open>cs_mut\<close>. Awaited answers, dropped calls
    and panics of faces come from an environment argument.
  \<^item> \<open>Icn_Face\<close>, \<open>Icn_Link_Face\<close> (\<open>face.rs\<close>, \<open>link_face.rs\<close>): the in-memory face and the face over a link.
  \<^item> \<open>Icn_Demo\<close> (\<open>bin/demo.rs\<close>): the program that composes the layer, a producer that publishes a manifest
    and content and a consumer that fetches both through forwarders, caches and faces; its output line by line.

  \<^bold>\<open>Daemon.\<close>
  \<^item> \<open>Daemon\<close>, \<open>Daemon_Link\<close>, \<open>Daemon_Run\<close> (\<open>daemon/lib.rs\<close>): the state, every handler, the handshake between
    two daemons, one turn of the main loop. \<open>bincode\<close> is an argument with its round trip \<open>bincode_ok\<close>.
  \<^item> \<open>Daemon_Inv\<close>: the locale \<open>daemon_invariant\<close> lists what each handler must keep and shows that every
    turn and every reachable state then has it, calls of the public methods between turns included. It is
    interpreted for well-formedness and for the forwarder's empty key store.
  \<^item> \<open>Daemon_Carry\<close>: what the links between two daemons carry, and the frames that make a daemon panic.
  \<^item> \<open>Daemon_Api\<close>, \<open>Daemon_Main\<close> (\<open>api.rs\<close>, \<open>config.rs\<close>, \<open>main.rs\<close>): the local interface with its socket errors, start-up from
    files, and the inductive predicate \<open>program\<close>: the whole process, from any files, datagrams
    and lines. Its states are well-formed.

  \<^bold>\<open>Bounds.\<close> The loops of the program are structural recursions or functions with a termination
  measure: the reorder buffer and the receive queue shrink, a varint loses seven bits a round, a reader
  takes at least one byte. Timeouts and lengths are those of the source. The back-off of \<open>BestRoute\<close> is exact for a base below
  \<open>2 ^ 57\<close> seconds, beyond which \<open>Duration\<close> panics. Where the claim is about a
  network (announce floods, path replies) it is stated for every list of arrivals.

  \<^bold>\<open>Not modelled.\<close> The crates \<open>backbone\<close>, \<open>bridge\<close> and
  \<open>sdk\<close> consist of one comment line each and have no code. Sockets, serial ports and the file
  system are arguments: what they return is given, what they are sent is a result. Left out are logging,
  \<open>Debug\<close> renderings, getters that only read a field, the arithmetic of floating-point numbers (an
  argument), and the byte layouts of \<open>bincode\<close>, JSON and TOML, which belong to those crates. Random
  values are arguments. That hashes do not collide or that signatures cannot be forged is nowhere assumed; the
  safety theorems say what was checked.
\<close>

end
